theory Spec2Isabelle
  imports Complex_Main "HOL-Library.Sublist"
begin

section \<open>Process environment\<close>

text \<open>
  The settings the modules read once when they are loaded: the environment variables
  (\<open>None\<close> is an unset variable), the directory of the compiled \<open>utils/paths\<close> module
  (\<open>__dirname\<close>) and the working directory of the process.  The working directory is
  always an absolute path, so the record stores the text after its leading slash.
\<close>

record env =
  GEMINI_API_KEY :: "string option"
  GEMINI_BASE_URL :: "string option"
  GEMINI_MODEL :: "string option"
  OUTPUT_DIR_var :: "string option"
  RATE_LIMIT_PER_MINUTE :: "string option"
  module_dir :: string
  cwd_tail :: string

definition process_cwd :: "env \<Rightarrow> string" where
  "process_cwd e = CHR ''/'' # cwd_tail e"

text \<open>\<open>process.env.X || d\<close>: an unset or empty variable yields the default.\<close>

definition env_or :: "string option \<Rightarrow> string \<Rightarrow> string" where
  "env_or v d = (case v of None \<Rightarrow> d | Some s \<Rightarrow> if s = [] then d else s)"

section \<open>Path operations of the platform (\<open>path.posix\<close>)\<close>

text \<open>
  \<open>utils/paths.ts\<close> relies on \<open>path.basename\<close>, \<open>path.join\<close>, \<open>path.resolve\<close> and
  \<open>path.relative\<close>.  They are modelled for POSIX paths, segment by segment: a path is
  cut at every slash, the segments are normalised the way the platform's
  \<open>normalizeString\<close> does, and the result is glued together again.
\<close>

fun split_slash :: "string \<Rightarrow> string list" where
  "split_slash [] = [[]]"
| "split_slash (c # cs) =
     (if c = CHR ''/'' then [] # split_slash cs
      else (case split_slash cs of [] \<Rightarrow> [[c]] | s # ss \<Rightarrow> (c # s) # ss))"

fun join_slash :: "string list \<Rightarrow> string" where
  "join_slash [] = []"
| "join_slash [s] = s"
| "join_slash (s # t # ts) = s @ CHR ''/'' # join_slash (t # ts)"

text \<open>
  \<open>normalizeString allowAboveRoot\<close>: empty segments and \<open>.\<close> vanish; \<open>..\<close> removes the
  segment before it when there is one that is not itself \<open>..\<close>, and is otherwise kept only
  when the path may climb above its start.  The second argument is the stack of segments
  kept so far, last one first.
\<close>

fun normalizeString :: "bool \<Rightarrow> string list \<Rightarrow> string list \<Rightarrow> string list" where
  "normalizeString allow acc [] = rev acc"
| "normalizeString allow acc (s # ss) =
     (if s = [] \<or> s = ''.'' then normalizeString allow acc ss
      else if s = ''..'' then
        (case acc of
           [] \<Rightarrow> normalizeString allow (if allow then [s] else []) ss
         | t # ts \<Rightarrow>
             if t \<noteq> ''..'' then normalizeString allow ts ss
             else normalizeString allow (if allow then s # acc else acc) ss)
      else normalizeString allow (s # acc) ss)"

text \<open>
  \<open>path.resolve\<close> walks its arguments from the last to the first, then the working
  directory, skipping empty ones and stopping at the first absolute one.  The list given
  to \<open>resolve_scan\<close> is in that order.
\<close>

fun resolve_scan :: "string list \<Rightarrow> string \<Rightarrow> string \<times> bool" where
  "resolve_scan [] acc = (acc, False)"
| "resolve_scan (p # ps) acc =
     (if p = [] then resolve_scan ps acc
      else if hd p = CHR ''/'' then (p @ CHR ''/'' # acc, True)
      else resolve_scan ps (p @ CHR ''/'' # acc))"

definition path_resolve :: "string \<Rightarrow> string list \<Rightarrow> string" where
  "path_resolve cwd args =
     (case resolve_scan (rev args @ [cwd]) [] of
        (rp, absolute) \<Rightarrow>
          (let n = join_slash (normalizeString (\<not> absolute) [] (split_slash rp))
           in if absolute then CHR ''/'' # n else if n = [] then ''.'' else n))"

definition path_normalize :: "string \<Rightarrow> string" where
  "path_normalize p =
     (if p = [] then ''.''
      else
        (let isAbsolute = (hd p = CHR ''/'');
             trailingSeparator = (last p = CHR ''/'');
             n = join_slash (normalizeString (\<not> isAbsolute) [] (split_slash p))
         in if n = [] then (if isAbsolute then ''/'' else if trailingSeparator then ''./'' else ''.'')
            else (let n' = (if trailingSeparator then n @ ''/'' else n)
                  in if isAbsolute then CHR ''/'' # n' else n')))"

definition path_join :: "string list \<Rightarrow> string" where
  "path_join args =
     (let parts = filter (\<lambda>a. a \<noteq> []) args
      in if parts = [] then ''.'' else path_normalize (join_slash parts))"

text \<open>\<open>path.basename\<close>: drop the trailing slashes, keep what follows the last slash left.\<close>

definition basename :: "string \<Rightarrow> string" where
  "basename p =
     rev (takeWhile (\<lambda>c. c \<noteq> CHR ''/'') (dropWhile (\<lambda>c. c = CHR ''/'') (rev p)))"

text \<open>
  \<open>path.relative\<close>: both paths are resolved; the common leading segments are dropped, one
  \<open>..\<close> is written for every segment left of the first path, then the rest of the second.
\<close>

fun drop_common :: "string list \<Rightarrow> string list \<Rightarrow> string list \<times> string list" where
  "drop_common (x # xs) (y # ys) = (if x = y then drop_common xs ys else (x # xs, y # ys))"
| "drop_common xs ys = (xs, ys)"

definition path_relative :: "string \<Rightarrow> string \<Rightarrow> string \<Rightarrow> string" where
  "path_relative cwd from to =
     (let f = path_resolve cwd [from]; t = path_resolve cwd [to]
      in if f = t then []
         else (case drop_common (normalizeString False [] (split_slash f))
                                (normalizeString False [] (split_slash t)) of
                 (fs, ts) \<Rightarrow> join_slash (map (\<lambda>_. ''..'') fs @ ts)))"

section \<open>Exceptions\<close>

text \<open>
  A thrown value is an \<open>Error\<close> object with its message, or something that is not an
  \<open>Error\<close> (the catch clauses of the program test for it).
\<close>

datatype exn = Error string | NonError

section \<open>\<open>utils/paths.ts\<close>\<close>

definition PROJECT_ROOT :: "env \<Rightarrow> string" where
  "PROJECT_ROOT e = path_resolve (process_cwd e) [module_dir e, ''..'', ''..'']"

definition OUTPUT_DIR :: "env \<Rightarrow> string" where
  "OUTPUT_DIR e = env_or (OUTPUT_DIR_var e) ''./outputs''"

definition OUTPUTS_PATH :: "env \<Rightarrow> string" where
  "OUTPUTS_PATH e = path_resolve (process_cwd e) [PROJECT_ROOT e, OUTPUT_DIR e]"

definition safeJoinOutputs :: "env \<Rightarrow> string \<Rightarrow> exn + string" where
  "safeJoinOutputs e filename =
     (let safeName = basename filename;
          fullPath = path_join [OUTPUTS_PATH e, safeName];
          resolvedPath = path_resolve (process_cwd e) [fullPath]
      in if \<not> prefix (OUTPUTS_PATH e) resolvedPath
         then Inl (Error ''Invalid output path: path traversal detected'')
         else Inr resolvedPath)"

definition validateOutputPath :: "env \<Rightarrow> string \<Rightarrow> exn + string" where
  "validateOutputPath e filePath =
     (let resolvedPath = path_resolve (process_cwd e) [PROJECT_ROOT e, filePath]
      in if \<not> prefix (OUTPUTS_PATH e) resolvedPath
         then Inl (Error ''Invalid output path: must be within outputs directory'')
         else Inr resolvedPath)"

definition toRelativePath :: "env \<Rightarrow> string \<Rightarrow> string" where
  "toRelativePath e absolutePath = path_relative (process_cwd e) (PROJECT_ROOT e) absolutePath"

text \<open>A deployment used in the examples: the compiled module lives in \<open>/app/dist/utils\<close>.\<close>

definition env0 :: env where
  "env0 = \<lparr> GEMINI_API_KEY = None, GEMINI_BASE_URL = None, GEMINI_MODEL = None,
            OUTPUT_DIR_var = None, RATE_LIMIT_PER_MINUTE = None,
            module_dir = ''/app/dist/utils'', cwd_tail = ''app'' \<rparr>"

section \<open>Notions used in the statements\<close>

text \<open>
  A plain name is one path segment that names a file: it is not empty, holds no slash
  and is neither \<open>.\<close> nor \<open>..\<close>.  \<open>abs_path\<close> writes an absolute path from its
  segments, and \<open>child_path dir name\<close> is the entry \<open>name\<close> directly inside \<open>dir\<close>.
\<close>

definition plain_name :: "string \<Rightarrow> bool" where
  "plain_name s \<longleftrightarrow> s \<noteq> [] \<and> CHR ''/'' \<notin> set s \<and> s \<noteq> ''.'' \<and> s \<noteq> ''..''"

definition abs_path :: "string list \<Rightarrow> string" where
  "abs_path segs = CHR ''/'' # join_slash segs"

definition child_path :: "string \<Rightarrow> string \<Rightarrow> string" where
  "child_path dir name = (if dir = ''/'' then CHR ''/'' # name else dir @ CHR ''/'' # name)"

definition canonical :: "string \<Rightarrow> bool" where
  "canonical p \<longleftrightarrow> (\<exists>segs. (\<forall>s\<in>set segs. plain_name s) \<and> p = abs_path segs)"

section \<open>Numbers and their text\<close>

definition digit_char :: "nat \<Rightarrow> char" where
  "digit_char d = ''0123456789'' ! d"

fun show_nat :: "nat \<Rightarrow> string" where
  "show_nat n = (if n < 10 then [digit_char n] else show_nat (n div 10) @ [digit_char (n mod 10)])"

declare show_nat.simps [simp del]

text \<open>A number that may be \<open>NaN\<close> (\<open>None\<close>), and its conversion to text.\<close>

definition show_num :: "int option \<Rightarrow> string" where
  "show_num v = (case v of None \<Rightarrow> ''NaN''
     | Some i \<Rightarrow> if i < 0 then CHR ''-'' # show_nat (nat (- i)) else show_nat (nat i))"

definition digit_val :: "char \<Rightarrow> nat option" where
  "digit_val c = map_of (zip ''0123456789'' [0, 1, 2, 3, 4, 5, 6, 7, 8, 9]) c"

definition is_space :: "char \<Rightarrow> bool" where
  "is_space c \<longleftrightarrow> c \<in> {CHR '' '', CHR 0x09, CHR 0x0A, CHR 0x0B, CHR 0x0C, CHR 0x0D}"

fun digits_value :: "nat \<Rightarrow> string \<Rightarrow> nat" where
  "digits_value acc [] = acc"
| "digits_value acc (c # cs) =
     (case digit_val c of None \<Rightarrow> acc | Some d \<Rightarrow> digits_value (10 * acc + d) cs)"

definition parseInt10 :: "string \<Rightarrow> int option" where
  "parseInt10 s =
     (let t = dropWhile is_space s;
          negative = (t \<noteq> [] \<and> hd t = CHR ''-'');
          u = (if t \<noteq> [] \<and> (hd t = CHR ''-'' \<or> hd t = CHR ''+'') then tl t else t)
      in if u = [] \<or> digit_val (hd u) = None then None
         else Some ((if negative then - 1 else 1) * int (digits_value 0 u)))"

section \<open>Rate limiting (\<open>mcp/server.ts\<close>)\<close>

type_synonym rate_map = "string \<Rightarrow> int list option"

definition RATE_LIMIT_WINDOW :: int where
  "RATE_LIMIT_WINDOW = 60000"

definition RATE_LIMIT_MAX :: "env \<Rightarrow> int option" where
  "RATE_LIMIT_MAX e = parseInt10 (env_or (RATE_LIMIT_PER_MINUTE e) ''20'')"

definition num_ge :: "int \<Rightarrow> int option \<Rightarrow> bool" where
  "num_ge a b = (case b of None \<Rightarrow> False | Some c \<Rightarrow> c \<le> a)"

definition stamps :: "rate_map \<Rightarrow> string \<Rightarrow> int list" where
  "stamps m toolName = (case m toolName of None \<Rightarrow> [] | Some ts \<Rightarrow> ts)"

definition checkRateLimit :: "env \<Rightarrow> int \<Rightarrow> rate_map \<Rightarrow> string \<Rightarrow> exn + rate_map" where
  "checkRateLimit e now m toolName =
     (let timestamps = stamps m toolName;
          validTimestamps = filter (\<lambda>t. now - t < RATE_LIMIT_WINDOW) timestamps
      in if num_ge (int (length validTimestamps)) (RATE_LIMIT_MAX e)
         then Inl (Error (''Rate limit exceeded: max '' @ show_num (RATE_LIMIT_MAX e)
                           @ '' requests per minute''))
         else Inr (m(toolName \<mapsto> validTimestamps @ [now])))"

fun run_checks :: "env \<Rightarrow> rate_map \<Rightarrow> string \<Rightarrow> int list \<Rightarrow> rate_map \<times> bool list" where
  "run_checks e m toolName [] = (m, [])"
| "run_checks e m toolName (t # ts) =
     (case checkRateLimit e t m toolName of
        Inl err \<Rightarrow> (case run_checks e m toolName ts of (m', rs) \<Rightarrow> (m', False # rs))
      | Inr m1 \<Rightarrow> (case run_checks e m1 toolName ts of (m', rs) \<Rightarrow> (m', True # rs)))"

section \<open>Values of the language\<close>

text \<open>
  The values the program handles without a static type: tool arguments, parsed response
  bodies and the objects it serialises.  A number is a real or \<open>NaN\<close> (\<open>None\<close>).  An
  object is the list of its own properties, each key once.  Strings are sequences of
  code units.
\<close>

datatype jsval =
    Undefined
  | Null
  | Bool bool
  | Num "real option"
  | Str string
  | Arr "jsval list"
  | Obj "(string \<times> jsval) list"

definition truthy :: "jsval \<Rightarrow> bool" where
  "truthy v =
     (case v of Undefined \<Rightarrow> False | Null \<Rightarrow> False | Bool b \<Rightarrow> b
      | Num n \<Rightarrow> (case n of None \<Rightarrow> False | Some r \<Rightarrow> r \<noteq> 0)
      | Str s \<Rightarrow> s \<noteq> [] | Arr xs \<Rightarrow> True | Obj kvs \<Rightarrow> True)"

text \<open>
  \<open>v.k\<close> for a property name \<open>k\<close> that no built-in prototype defines (true of every name
  the program reads): reading from \<open>null\<close> or \<open>undefined\<close> throws a \<open>TypeError\<close>, an object
  yields its property or \<open>undefined\<close>, every other value yields \<open>undefined\<close>.
\<close>

definition get_prop :: "jsval \<Rightarrow> string \<Rightarrow> exn + jsval" where
  "get_prop v k =
     (case v of
        Undefined \<Rightarrow> Inl (Error (''Cannot read properties of undefined (reading '' @ [CHR 0x27] @ k @ [CHR 0x27] @ '')''))
      | Null \<Rightarrow> Inl (Error (''Cannot read properties of null (reading '' @ [CHR 0x27] @ k @ [CHR 0x27] @ '')''))
      | Obj kvs \<Rightarrow> Inr (case map_of kvs k of None \<Rightarrow> Undefined | Some x \<Rightarrow> x)
      | _ \<Rightarrow> Inr Undefined)"

text \<open>\<open>v?.k\<close>: as \<open>v.k\<close>, but \<open>undefined\<close> when \<open>v\<close> is \<open>null\<close> or \<open>undefined\<close>.\<close>

definition opt_get :: "jsval \<Rightarrow> string \<Rightarrow> jsval" where
  "opt_get v k = (case v of Obj kvs \<Rightarrow> (case map_of kvs k of None \<Rightarrow> Undefined | Some x \<Rightarrow> x)
                  | _ \<Rightarrow> Undefined)"

text \<open>
  The elements a \<open>for ... of\<close> loop visits: those of an array, the characters of a string;
  any other value is not iterable.
\<close>

definition iterate :: "string \<Rightarrow> jsval \<Rightarrow> exn + jsval list" where
  "iterate what v =
     (case v of Arr xs \<Rightarrow> Inr xs
      | Str s \<Rightarrow> Inr (map (\<lambda>c. Str [c]) s)
      | _ \<Rightarrow> Inl (Error (what @ '' is not iterable'')))"

section \<open>\<open>utils/files.ts\<close>: sizes\<close>

fun split_at :: "char \<Rightarrow> string \<Rightarrow> string list" where
  "split_at sep [] = [[]]"
| "split_at sep (c # cs) =
     (if c = sep then [] # split_at sep cs
      else (case split_at sep cs of [] \<Rightarrow> [[c]] | s # ss \<Rightarrow> (c # s) # ss))"

text \<open>
  \<open>Number(s)\<close> for the strings the size schemas admit: a string of decimal digits is its
  value and the empty string is 0.  Every other string is taken to \<open>NaN\<close>; the signs,
  fractions, exponents and blanks that \<open>Number\<close> also reads do not occur in a size.
\<close>

definition js_Number :: "string \<Rightarrow> real option" where
  "js_Number s = (if \<forall>c\<in>set s. digit_val c \<noteq> None then Some (real (digits_value 0 s)) else None)"

definition parseSize :: "string \<Rightarrow> jsval \<times> jsval" where
  "parseSize sz =
     (case map (\<lambda>s. Num (js_Number s)) (split_at CHR ''x'' sz) of
        [] \<Rightarrow> (Undefined, Undefined)
      | [w] \<Rightarrow> (w, Undefined)
      | w # h # _ \<Rightarrow> (w, h))"

section \<open>Double-precision numbers\<close>

text \<open>
  A number of the language is an IEEE 754 double: \<open>NaN\<close>, an infinity, the negative
  zero, or a finite value, which \<open>Finite\<close> carries as a real (\<open>Finite 0\<close> is the positive
  zero).  The representable values are the reals \<open>k * 2^e\<close> with \<open>k\<close> below \<open>2^53\<close> in
  magnitude and \<open>e\<close> from \<open>-1074\<close> to \<open>971\<close>.  Arithmetic computes the exact result and
  rounds it to the nearest representable value, a tie going to the even significand;
  a magnitude that rounds to \<open>2^1024\<close> or more becomes an infinity.

  \<open>binade x\<close> is the exponent \<open>e\<close> with \<open>2^e \<le> x < 2^(e + 1)\<close> of a positive \<open>x\<close>, and
  \<open>round_to_double\<close> rounds a magnitude and attaches the sign.  \<open>double_of r\<close> is the
  number a decimal literal \<open>r\<close> of the program text denotes.
\<close>

datatype number = NaN | NegInfinity | NegZero | Finite real | PosInfinity

definition round_half_even :: "real \<Rightarrow> int" where
  "round_half_even r =
     (let f = \<lfloor>r\<rfloor>
      in if r - of_int f < 1 / 2 then f
         else if r - of_int f > 1 / 2 then f + 1
         else if even f then f else f + 1)"

function binade :: "real \<Rightarrow> int" where
  "binade x = (if x \<le> 0 then 0
               else if 2 \<le> x then binade (x / 2) + 1
               else if x < 1 then binade (2 * x) - 1
               else 0)"
  by pat_completeness auto
termination
proof (relation "measure (\<lambda>x. if 1 \<le> x then nat \<lfloor>x\<rfloor> else nat \<lceil>1 / x\<rceil>)")
  show "wf (measure (\<lambda>x::real. if 1 \<le> x then nat \<lfloor>x\<rfloor> else nat \<lceil>1 / x\<rceil>))" by simp
next
  fix x :: real
  assume "\<not> x \<le> 0" "2 \<le> x"
  then have "\<lfloor>x / 2\<rfloor> < \<lfloor>x\<rfloor>" "0 < \<lfloor>x\<rfloor>" by linarith+
  then show "(x / 2, x) \<in> measure (\<lambda>x. if 1 \<le> x then nat \<lfloor>x\<rfloor> else nat \<lceil>1 / x\<rceil>)"
    using \<open>2 \<le> x\<close> by simp
next
  fix x :: real
  assume a: "\<not> x \<le> 0" "\<not> 2 \<le> x" "x < 1"
  then have i: "1 < 1 / x" by simp
  show "(2 * x, x) \<in> measure (\<lambda>x. if 1 \<le> x then nat \<lfloor>x\<rfloor> else nat \<lceil>1 / x\<rceil>)"
  proof (cases "1 \<le> 2 * x")
    case True
    then have "\<lfloor>2 * x\<rfloor> = 1" using a by linarith
    moreover have "2 \<le> \<lceil>1 / x\<rceil>" using i by linarith
    ultimately show ?thesis using True a by simp
  next
    case False
    define y where "y = 1 / x"
    have h: "1 / (2 * x) = y / 2" by (simp add: y_def)
    have "\<lceil>y / 2\<rceil> < \<lceil>y\<rceil>"
    proof (cases "2 \<le> y")
      case True
      then show ?thesis by linarith
    next
      case False
      then have "\<lceil>y / 2\<rceil> \<le> 1" by linarith
      moreover have "2 \<le> \<lceil>y\<rceil>" using i unfolding y_def by linarith
      ultimately show ?thesis by linarith
    qed
    then have c: "\<lceil>1 / (2 * x)\<rceil> < \<lceil>1 / x\<rceil>" unfolding h unfolding y_def .
    have "0 < \<lceil>1 / x\<rceil>" using i by linarith
    then show ?thesis using c False a by simp
  qed
qed

declare binade.simps [simp del]

definition signed_infinity :: "bool \<Rightarrow> number" where
  "signed_infinity negative = (if negative then NegInfinity else PosInfinity)"

definition signed_finite :: "bool \<Rightarrow> real \<Rightarrow> number" where
  "signed_finite negative v = (if negative then (if v = 0 then NegZero else Finite (- v)) else Finite v)"

definition round_to_double :: "bool \<Rightarrow> real \<Rightarrow> number" where
  "round_to_double negative x =
     (let ulp = 2 powi (max (binade x) (- 1022) - 52);
          v = ulp * of_int (round_half_even (x / ulp))
      in if 2 powi 1024 \<le> v then signed_infinity negative else signed_finite negative v)"

text \<open>
  Division and the comparisons \<open>===\<close>, \<open>>\<close>, \<open>>=\<close>, \<open><=\<close> and \<open>Math.max\<close> on numbers.
  Every comparison with \<open>NaN\<close> is false and the two zeros are equal.
\<close>

definition is_negative :: "number \<Rightarrow> bool" where
  "is_negative n = (case n of NegInfinity \<Rightarrow> True | NegZero \<Rightarrow> True | Finite x \<Rightarrow> x < 0 | _ \<Rightarrow> False)"

definition finite_value :: "number \<Rightarrow> real option" where
  "finite_value n = (case n of NegZero \<Rightarrow> Some 0 | Finite x \<Rightarrow> Some x | _ \<Rightarrow> None)"

definition number_div :: "number \<Rightarrow> number \<Rightarrow> number" where
  "number_div a b =
     (let negative = (is_negative a \<noteq> is_negative b)
      in if a = NaN \<or> b = NaN then NaN
         else (case (finite_value a, finite_value b) of
                 (None, None) \<Rightarrow> NaN
               | (None, Some y) \<Rightarrow> signed_infinity negative
               | (Some x, None) \<Rightarrow> signed_finite negative 0
               | (Some x, Some y) \<Rightarrow>
                   if y = 0 then (if x = 0 then NaN else signed_infinity negative)
                   else round_to_double negative (\<bar>x\<bar> / \<bar>y\<bar>)))"

definition rank :: "number \<Rightarrow> int \<times> real" where
  "rank n = (case n of NegInfinity \<Rightarrow> (- 1, 0) | PosInfinity \<Rightarrow> (1, 0) | Finite x \<Rightarrow> (0, x)
             | _ \<Rightarrow> (0, 0))"

definition strict_eq :: "number \<Rightarrow> number \<Rightarrow> bool" where
  "strict_eq a b \<longleftrightarrow> a \<noteq> NaN \<and> b \<noteq> NaN \<and> rank a = rank b"

definition number_gt :: "number \<Rightarrow> number \<Rightarrow> bool" where
  "number_gt a b \<longleftrightarrow> a \<noteq> NaN \<and> b \<noteq> NaN \<and>
     (fst (rank b) < fst (rank a) \<or> fst (rank b) = fst (rank a) \<and> snd (rank b) < snd (rank a))"

definition number_ge :: "number \<Rightarrow> number \<Rightarrow> bool" where
  "number_ge a b \<longleftrightarrow> number_gt a b \<or> strict_eq a b"

definition number_le :: "number \<Rightarrow> number \<Rightarrow> bool" where
  "number_le a b \<longleftrightarrow> number_ge b a"

definition number_max :: "number \<Rightarrow> number \<Rightarrow> number" where
  "number_max a b =
     (if a = NaN \<or> b = NaN then NaN
      else if number_gt a b then a
      else if number_gt b a then b
      else if a = NegZero then b else a)"

definition double_of :: "real \<Rightarrow> number" where
  "double_of r = round_to_double (r < 0) \<bar>r\<bar>"

section \<open>The provider adapter\<close>

text \<open>
  \<open>getAspectRatio\<close> and \<open>getImageSize\<close>.  Both compute with the width and height as
  numbers; the literals of the program text are the doubles nearest to them.
\<close>

definition getAspectRatio :: "number \<Rightarrow> number \<Rightarrow> string" where
  "getAspectRatio width height =
     (if strict_eq width height then ''1:1''
      else if number_gt width height then
        (let ratio = number_div width height
         in if number_ge ratio (double_of 1.4) \<and> number_le ratio (double_of 1.6) then ''3:2''
            else if number_ge ratio (double_of 1.7) then ''16:9''
            else ''4:3'')
      else
        (let ratio = number_div height width
         in if number_ge ratio (double_of 1.4) \<and> number_le ratio (double_of 1.6) then ''2:3''
            else if number_ge ratio (double_of 1.7) then ''9:16''
            else ''3:4''))"

definition getImageSize :: "number \<Rightarrow> number \<Rightarrow> string" where
  "getImageSize width height =
     (let maxDim = number_max width height
      in if number_le maxDim (double_of 1024) then ''1K''
         else if number_le maxDim (double_of 2048) then ''2K''
         else ''4K'')"

datatype image_format = Base64 | Url

record ImageGenerationResult =
  data :: jsval
  format :: image_format
  width :: jsval
  height :: jsval

text \<open>The loops of \<open>parseResponse\<close> over the parts of a candidate and over the candidates.\<close>

fun scan_parts :: "jsval list \<Rightarrow> exn + jsval option" where
  "scan_parts [] = Inr None"
| "scan_parts (part # rest) =
     (case get_prop part ''inline_data'' of
        Inl err \<Rightarrow> Inl err
      | Inr inline_data \<Rightarrow>
          if truthy (opt_get inline_data ''data'') then Inr (Some (opt_get inline_data ''data''))
          else scan_parts rest)"

fun scan_candidates :: "jsval list \<Rightarrow> exn + jsval option" where
  "scan_candidates [] = Inr None"
| "scan_candidates (candidate # rest) =
     (case get_prop candidate ''content'' of
        Inl err \<Rightarrow> Inl err
      | Inr content \<Rightarrow>
          if truthy (opt_get content ''parts'') then
            (case iterate ''candidate.content.parts'' (opt_get content ''parts'') of
               Inl err \<Rightarrow> Inl err
             | Inr parts \<Rightarrow>
                 (case scan_parts parts of
                    Inl err \<Rightarrow> Inl err
                  | Inr (Some d) \<Rightarrow> Inr (Some d)
                  | Inr None \<Rightarrow> scan_candidates rest))
          else scan_candidates rest)"

definition nested_scan :: "jsval \<Rightarrow> exn + jsval option" where
  "nested_scan response =
     (case get_prop response ''candidates'' of
        Inl err \<Rightarrow> Inl err
      | Inr candidates \<Rightarrow>
          (case candidates of Arr cs \<Rightarrow> scan_candidates cs | _ \<Rightarrow> Inr None))"

definition is_nonempty_string :: "jsval \<Rightarrow> bool" where
  "is_nonempty_string v = (case v of Str s \<Rightarrow> s \<noteq> [] | _ \<Rightarrow> False)"

definition str_of :: "jsval \<Rightarrow> string" where
  "str_of v = (case v of Str s \<Rightarrow> s | _ \<Rightarrow> [])"

definition tag_by_prefix :: "jsval \<Rightarrow> image_format" where
  "tag_by_prefix v = (if prefix ''http'' (str_of v) then Url else Base64)"

definition parse_failure :: exn where
  "parse_failure = Error ''Unable to parse image from Gemini response. Expected format: candidates[0].content.parts[].inline_data.data''"

definition parseResponse :: "jsval \<Rightarrow> string \<Rightarrow> exn + ImageGenerationResult" where
  "parseResponse response sz =
     (case parseSize sz of (w, h) \<Rightarrow>
       (case nested_scan response of
          Inl err \<Rightarrow> Inl err
        | Inr (Some d) \<Rightarrow> Inr \<lparr> data = d, format = Base64, width = w, height = h \<rparr>
        | Inr None \<Rightarrow>
            if is_nonempty_string (opt_get response ''image'')
            then Inr \<lparr> data = opt_get response ''image'',
                       format = tag_by_prefix (opt_get response ''image''), width = w, height = h \<rparr>
            else if is_nonempty_string (opt_get response ''data'')
            then Inr \<lparr> data = opt_get response ''data'',
                       format = tag_by_prefix (opt_get response ''data''), width = w, height = h \<rparr>
            else if is_nonempty_string (opt_get response ''url'')
            then Inr \<lparr> data = opt_get response ''url'', format = Url, width = w, height = h \<rparr>
            else Inl parse_failure))"

text \<open>
  The older, generic adapter kept in \<open>src/providers/geminiProvider.ts\<close>: the same three
  string fields, then an image nested under \<open>result\<close> or \<open>output\<close>, then the first
  element of \<open>images\<close>.
\<close>

definition parse_failure_generic :: exn where
  "parse_failure_generic = Error ''Unable to parse image from Gemini response. Check geminiProvider.ts parseResponse()''"

definition parseResponse_generic :: "jsval \<Rightarrow> string \<Rightarrow> exn + ImageGenerationResult" where
  "parseResponse_generic response sz =
     (case parseSize sz of (w, h) \<Rightarrow>
       (case get_prop response ''image'' of
          Inl err \<Rightarrow> Inl err
        | Inr img \<Rightarrow>
            if is_nonempty_string img
            then Inr \<lparr> data = img, format = tag_by_prefix img, width = w, height = h \<rparr>
            else if is_nonempty_string (opt_get response ''data'')
            then Inr \<lparr> data = opt_get response ''data'',
                       format = tag_by_prefix (opt_get response ''data''), width = w, height = h \<rparr>
            else if is_nonempty_string (opt_get response ''url'')
            then Inr \<lparr> data = opt_get response ''url'', format = Url, width = w, height = h \<rparr>
            else
              (let below = (if truthy (opt_get (opt_get response ''result'') ''image'')
                            then opt_get (opt_get response ''result'') ''image''
                            else opt_get (opt_get response ''output'') ''image'')
               in if truthy below then
                    (case below of
                       Str s \<Rightarrow> Inr \<lparr> data = below, format = tag_by_prefix below, width = w, height = h \<rparr>
                     | _ \<Rightarrow> Inl (Error ''imageData.startsWith is not a function''))
                  else
                    (case opt_get response ''images'' of
                       Arr (imageData # _) \<Rightarrow>
                         (case imageData of
                            Str s \<Rightarrow> Inr \<lparr> data = imageData, format = tag_by_prefix imageData,
                                          width = w, height = h \<rparr>
                          | _ \<Rightarrow>
                              (case get_prop imageData ''url'' of
                                 Inl err \<Rightarrow> Inl err
                               | Inr u \<Rightarrow>
                                   Inr \<lparr> data = (if truthy u then u else opt_get imageData ''data''),
                                         format = Base64, width = w, height = h \<rparr>))
                     | _ \<Rightarrow> Inl parse_failure_generic))))"

section \<open>Response shapes as the specification words them\<close>

text \<open>
  The specification describes parsing as a list of shapes tried in order, the first match
  winning.  A shape maps a response to the payload it finds, with its tag.
\<close>

type_synonym shape = "jsval \<Rightarrow> (jsval \<times> image_format) option"

definition elems :: "jsval \<Rightarrow> jsval list" where
  "elems v = (case v of Arr xs \<Rightarrow> xs | _ \<Rightarrow> [])"

definition first_of :: "'a list \<Rightarrow> 'a option" where
  "first_of xs = (case xs of [] \<Rightarrow> None | x # _ \<Rightarrow> Some x)"

definition part_images :: "jsval \<Rightarrow> jsval list" where
  "part_images part =
     (if truthy (opt_get (opt_get part ''inline_data'') ''data'')
      then [opt_get (opt_get part ''inline_data'') ''data''] else [])"

definition candidate_images :: "jsval \<Rightarrow> jsval list" where
  "candidate_images candidate =
     concat (map part_images (elems (opt_get (opt_get candidate ''content'') ''parts'')))"

definition inline_images :: "jsval \<Rightarrow> jsval list" where
  "inline_images response = concat (map candidate_images (elems (opt_get response ''candidates'')))"

definition shape_nested :: shape where
  "shape_nested response = map_option (\<lambda>d. (d, Base64)) (first_of (inline_images response))"

definition shape_string_field :: "string \<Rightarrow> shape" where
  "shape_string_field k response =
     (if is_nonempty_string (opt_get response k)
      then Some (opt_get response k, tag_by_prefix (opt_get response k)) else None)"

definition shape_url :: shape where
  "shape_url response =
     (if is_nonempty_string (opt_get response ''url'') then Some (opt_get response ''url'', Url)
      else None)"

definition shape_images :: shape where
  "shape_images response =
     map_option (\<lambda>x. (x, tag_by_prefix x)) (first_of (elems (opt_get response ''images'')))"

fun first_match :: "shape list \<Rightarrow> jsval \<Rightarrow> (jsval \<times> image_format) option" where
  "first_match [] response = None"
| "first_match (sh # shs) response =
     (case sh response of Some found \<Rightarrow> Some found | None \<Rightarrow> first_match shs response)"

definition parse_by_shapes :: "shape list \<Rightarrow> jsval \<Rightarrow> string \<Rightarrow> exn + ImageGenerationResult" where
  "parse_by_shapes shapes response sz =
     (case first_match shapes response of
        Some (d, f) \<Rightarrow> Inr \<lparr> data = d, format = f, width = fst (parseSize sz), height = snd (parseSize sz) \<rparr>
      | None \<Rightarrow> Inl parse_failure)"

definition claimed_shapes :: "shape list" where
  "claimed_shapes = [shape_nested, shape_string_field ''image'', shape_string_field ''data'',
                     shape_url, shape_images]"

definition official_shapes :: "shape list" where
  "official_shapes = [shape_nested, shape_string_field ''image'', shape_string_field ''data'',
                      shape_url]"

definition images_only :: jsval where
  "images_only = Obj [(''images'', Arr [Str ''aGVsbG8=''])]"

definition nested_only :: jsval where
  "nested_only = Obj [(''candidates'', Arr [Obj [(''content'', Obj [(''parts'',
       Arr [Obj [(''text'', Str ''done'')], Obj [(''inline_data'', Obj [(''data'', Str ''aGVsbG8='')])]])])]])]"

section \<open>The world outside the process\<close>

text \<open>
  Everything the program obtains from outside its own code is an input of the model: the
  clock, the random bytes, what the network and the file system answer, and the message
  text the validation library renders for a list of issues.  A response carries its
  status, its status text and what reading its body yields.  What the provider answers
  may depend on the request: \<open>api_fetch\<close> takes the endpoint and the credential sent in
  the header.
\<close>

datatype zissue = ZIssue string string jsval

record api_response =
  status :: nat
  statusText :: string
  text_body :: "exn + string"
  json_body :: "exn + jsval"

record download_response =
  dl_status :: nat
  dl_statusText :: string
  dl_arrayBuffer :: "exn + unit"

datatype 'r fetch_outcome = Rejected exn | Responded 'r

record world =
  clock :: int
  iso_time :: string
  random_hex :: string
  api_fetch :: "string \<Rightarrow> string \<Rightarrow> api_response fetch_outcome"
  download_fetch :: "download_response fetch_outcome"
  dir_access :: "nat \<Rightarrow> bool"
  mkdir_result :: "nat \<Rightarrow> exn option"
  write_result :: "exn option"
  zod_message :: "zissue list \<Rightarrow> string"

definition response_ok :: "nat \<Rightarrow> bool" where
  "response_ok st \<longleftrightarrow> 200 \<le> st \<and> st \<le> 299"

section \<open>Effects\<close>

text \<open>
  An effectful function returns the external calls it issued, in program order and
  whatever their outcome, together with its result or the exception it threw.  The
  content written to a file and the body sent to the provider are not recorded.
\<close>

datatype event =
    ApiCall string string
  | Download jsval
  | Mkdir string
  | WriteFile string

type_synonym 'a io = "event list \<times> (exn + 'a)"

definition io_return :: "'a \<Rightarrow> 'a io" where
  "io_return x = ([], Inr x)"

definition io_throw :: "exn \<Rightarrow> 'a io" where
  "io_throw err = ([], Inl err)"

definition io_lift :: "exn + 'a \<Rightarrow> 'a io" where
  "io_lift r = ([], r)"

definition io_emit :: "event \<Rightarrow> unit io" where
  "io_emit ev = ([ev], Inr ())"

definition io_bind :: "'a io \<Rightarrow> ('a \<Rightarrow> 'b io) \<Rightarrow> 'b io" where
  "io_bind m f =
     (case m of
        (es, Inl err) \<Rightarrow> (es, Inl err)
      | (es, Inr x) \<Rightarrow> (case f x of (es', r) \<Rightarrow> (es @ es', r)))"

definition io_catch :: "'a io \<Rightarrow> (exn \<Rightarrow> 'a io) \<Rightarrow> 'a io" where
  "io_catch m handler =
     (case m of
        (es, Inl err) \<Rightarrow> (case handler err of (es', r) \<Rightarrow> (es @ es', r))
      | (es, Inr x) \<Rightarrow> (es, Inr x))"

text \<open>\<open>error instanceof Error ? error.message : 'Unknown error'\<close>\<close>

definition message_of :: "exn \<Rightarrow> string" where
  "message_of err = (case err of Error msg \<Rightarrow> msg | NonError \<Rightarrow> ''Unknown error'')"

section \<open>\<open>utils/files.ts\<close>\<close>

definition generateFilename :: "world \<Rightarrow> string \<Rightarrow> string \<Rightarrow> string" where
  "generateFilename w toolName extension =
     (let timestamp = take 19 (map (\<lambda>c. if c = CHR '':'' \<or> c = CHR ''.'' then CHR ''-'' else c)
                                  (iso_time w));
          hash = random_hex w
      in toolName @ ''_'' @ timestamp @ ''_'' @ hash @ ''.'' @ extension)"

definition ensureOutputsDir :: "env \<Rightarrow> world \<Rightarrow> nat \<Rightarrow> unit io" where
  "ensureOutputsDir e w k =
     (if dir_access w k then io_return ()
      else io_bind (io_emit (Mkdir (OUTPUTS_PATH e)))
             (\<lambda>_. case mkdir_result w k of None \<Rightarrow> io_return () | Some err \<Rightarrow> io_throw err))"

definition writeFile :: "world \<Rightarrow> string \<Rightarrow> string io" where
  "writeFile w filePath =
     io_bind (io_emit (WriteFile filePath))
       (\<lambda>_. case write_result w of None \<Rightarrow> io_return filePath | Some err \<Rightarrow> io_throw err)"

definition writeBase64Image :: "env \<Rightarrow> world \<Rightarrow> jsval \<Rightarrow> string \<Rightarrow> string io" where
  "writeBase64Image e w base64Data filename =
     io_bind (ensureOutputsDir e w 0)
       (\<lambda>_. case base64Data of
               Str s \<Rightarrow> io_bind (io_lift (safeJoinOutputs e filename)) (writeFile w)
             | _ \<Rightarrow> io_throw (Error ''base64Data.replace is not a function''))"

definition writeImageBuffer :: "env \<Rightarrow> world \<Rightarrow> nat \<Rightarrow> string \<Rightarrow> string io" where
  "writeImageBuffer e w k filename =
     io_bind (ensureOutputsDir e w k)
       (\<lambda>_. io_bind (io_lift (safeJoinOutputs e filename)) (writeFile w))"

definition downloadImage :: "env \<Rightarrow> world \<Rightarrow> jsval \<Rightarrow> string \<Rightarrow> string io" where
  "downloadImage e w url filename =
     io_bind (ensureOutputsDir e w 0)
       (\<lambda>_. io_bind (io_emit (Download url))
          (\<lambda>_. case download_fetch w of
                  Rejected err \<Rightarrow> io_throw err
                | Responded response \<Rightarrow>
                    if \<not> response_ok (dl_status response)
                    then io_throw (Error (''Failed to download image: '' @ dl_statusText response))
                    else (case dl_arrayBuffer response of
                            Inl err \<Rightarrow> io_throw err
                          | Inr _ \<Rightarrow> writeImageBuffer e w 1 filename)))"

definition to_lower :: "char \<Rightarrow> char" where
  "to_lower c =
     (case map_of (zip ''ABCDEFGHIJKLMNOPQRSTUVWXYZ'' ''abcdefghijklmnopqrstuvwxyz'') c of
        None \<Rightarrow> c | Some l \<Rightarrow> l)"

text \<open>
  \<open>getMimeType\<close> looks the extension up in a table object.  The definition is for
  extensions that do not name a member every object inherits (\<open>constructor\<close>,
  \<open>toString\<close> and the like), for which the lookup yields that member; the output
  formats the schemas admit are \<open>png\<close> and \<open>webp\<close>.
\<close>

definition getMimeType :: "string \<Rightarrow> string" where
  "getMimeType extension =
     (case map_of [(''png'', ''image/png''), (''webp'', ''image/webp''),
                   (''jpg'', ''image/jpeg''), (''jpeg'', ''image/jpeg'')] (map to_lower extension) of
        None \<Rightarrow> ''application/octet-stream'' | Some t \<Rightarrow> t)"

section \<open>The provider (\<open>GeminiProvider\<close>)\<close>

record GeminiConfig =
  apiKey :: string
  baseUrl :: string
  model :: string

definition GeminiProvider :: "env \<Rightarrow> GeminiConfig" where
  "GeminiProvider e =
     \<lparr> apiKey = env_or (GEMINI_API_KEY e) [],
       baseUrl = env_or (GEMINI_BASE_URL e) ''https://generativelanguage.googleapis.com'',
       model = env_or (GEMINI_MODEL e) ''gemini-2.5-flash-image'' \<rparr>"

definition isConfigured :: "GeminiConfig \<Rightarrow> bool" where
  "isConfigured config \<longleftrightarrow> apiKey config \<noteq> [] \<and> baseUrl config \<noteq> []"

record ImageGenerationOptions =
  o_prompt :: string
  o_style :: string
  o_size :: string
  o_background :: string
  o_format :: string

text \<open>
  \<open>generateImage\<close>.  The request body is built by a function that cannot throw and is
  not part of what the model records; the call is recorded with its endpoint and the
  credential it carries in its header.
\<close>

definition generateImage :: "GeminiConfig \<Rightarrow> world \<Rightarrow> ImageGenerationOptions \<Rightarrow> ImageGenerationResult io" where
  "generateImage config w options =
     (if \<not> isConfigured config
      then io_throw (Error ''Gemini provider not configured. Set GEMINI_API_KEY in your .env file'')
      else
        let endpoint = baseUrl config @ ''/v1beta/models/'' @ model config @ '':generateContent''
        in io_catch
             (io_bind
                (io_emit (ApiCall endpoint (apiKey config)))
                (\<lambda>_. case api_fetch w endpoint (apiKey config) of
                        Rejected err \<Rightarrow> io_throw err
                      | Responded response \<Rightarrow>
                          if \<not> response_ok (status response)
                          then (case text_body response of
                                  Inl err \<Rightarrow> io_throw err
                                | Inr errorText \<Rightarrow>
                                    io_throw (Error (''Gemini API error: '' @ show_nat (status response)
                                                     @ '' '' @ statusText response)))
                          else (case json_body response of
                                  Inl err \<Rightarrow> io_throw err
                                | Inr body \<Rightarrow>
                                    io_lift (parseResponse body
                                               (if o_size options = [] then ''1024x1024''
                                                else o_size options)))))
             (\<lambda>err. io_throw (Error (''Image generation failed: '' @ message_of err))))"

section \<open>Input schemas (\<open>utils/validate.ts\<close>)\<close>

text \<open>
  The checks the declared schemas perform.  A failed check is an issue naming the field,
  the kind of failure and the value received; a schema collects the issues of all its
  fields and throws an error whose message the library renders from them.
\<close>

definition z_string :: "nat \<Rightarrow> nat option \<Rightarrow> string \<Rightarrow> jsval \<Rightarrow> zissue + string" where
  "z_string lo hi field v =
     (case v of
        Str s \<Rightarrow>
          if length s < lo then Inl (ZIssue field ''too_small'' v)
          else if (case hi of None \<Rightarrow> False | Some h \<Rightarrow> h < length s)
          then Inl (ZIssue field ''too_big'' v)
          else Inr s
      | _ \<Rightarrow> Inl (ZIssue field ''invalid_type'' v))"

definition z_optional_string :: "nat option \<Rightarrow> string \<Rightarrow> jsval \<Rightarrow> zissue + string option" where
  "z_optional_string hi field v =
     (case v of
        Undefined \<Rightarrow> Inr None
      | _ \<Rightarrow> (case z_string 0 hi field v of Inl issue \<Rightarrow> Inl issue | Inr s \<Rightarrow> Inr (Some s)))"

definition z_enum :: "string list \<Rightarrow> string \<Rightarrow> string \<Rightarrow> jsval \<Rightarrow> zissue + string" where
  "z_enum options dflt field v =
     (case v of
        Undefined \<Rightarrow> Inr dflt
      | Str s \<Rightarrow> if s \<in> set options then Inr s else Inl (ZIssue field ''invalid_enum_value'' v)
      | _ \<Rightarrow> Inl (ZIssue field ''invalid_type'' v))"

definition issues_of :: "zissue + 'a \<Rightarrow> zissue list" where
  "issues_of r = (case r of Inl issue \<Rightarrow> [issue] | Inr _ \<Rightarrow> [])"

definition promptSchema :: "string \<Rightarrow> jsval \<Rightarrow> zissue + string" where
  "promptSchema = z_string 1 (Some 2000)"

definition styleSchema :: "string list" where
  "styleSchema = [''illustration'', ''3d'', ''flat'', ''photoreal'', ''anime'', ''pixel'']"

definition sizeSchema :: "string list" where
  "sizeSchema = [''1024x1024'', ''1024x1536'', ''1536x1024'']"

definition iconSizeSchema :: "string list" where
  "iconSizeSchema = [''256x256'', ''512x512'']"

definition backgroundSchema :: "string list" where
  "backgroundSchema = [''transparent'', ''solid'']"

definition outputFormatSchema :: "string list" where
  "outputFormatSchema = [''png'', ''webp'']"

definition themeSchema :: "string list" where
  "themeSchema = [''minimal'', ''playful'', ''corporate'']"

record GenerateImageInput =
  gi_prompt :: string
  gi_style :: string
  gi_size :: string
  gi_background :: string
  gi_output_format :: string
  gi_output_path :: "string option"

record GenerateIconInput =
  ic_concept :: string
  ic_theme :: string
  ic_size :: string
  ic_output_format :: string

record GenerateHeroInput =
  he_product_name :: string
  he_tagline :: string
  he_vibe :: "string option"
  he_size :: string
  he_output_format :: string

record BeautifyScreenshotInput =
  bs_input_image_path :: string
  bs_goal :: string
  bs_output_format :: string

definition not_an_object :: "world \<Rightarrow> jsval \<Rightarrow> exn" where
  "not_an_object w args = Error (zod_message w [ZIssue [] ''invalid_type'' args])"

definition generateImageInputSchema :: "world \<Rightarrow> jsval \<Rightarrow> exn + GenerateImageInput" where
  "generateImageInputSchema w args =
     (case args of
        Obj kvs \<Rightarrow>
          (let p = promptSchema ''prompt'' (opt_get args ''prompt'');
               st = z_enum styleSchema ''illustration'' ''style'' (opt_get args ''style'');
               sz = z_enum sizeSchema ''1024x1024'' ''size'' (opt_get args ''size'');
               bg = z_enum backgroundSchema ''solid'' ''background'' (opt_get args ''background'');
               fm = z_enum outputFormatSchema ''png'' ''output_format'' (opt_get args ''output_format'');
               op = z_optional_string None ''output_path'' (opt_get args ''output_path'')
           in case (p, st, sz, bg, fm, op) of
                (Inr p', Inr st', Inr sz', Inr bg', Inr fm', Inr op') \<Rightarrow>
                  Inr \<lparr> gi_prompt = p', gi_style = st', gi_size = sz', gi_background = bg',
                        gi_output_format = fm', gi_output_path = op' \<rparr>
              | _ \<Rightarrow> Inl (Error (zod_message w (issues_of p @ issues_of st @ issues_of sz
                                                  @ issues_of bg @ issues_of fm @ issues_of op))))
      | _ \<Rightarrow> Inl (not_an_object w args))"

definition generateIconInputSchema :: "world \<Rightarrow> jsval \<Rightarrow> exn + GenerateIconInput" where
  "generateIconInputSchema w args =
     (case args of
        Obj kvs \<Rightarrow>
          (let c = promptSchema ''concept'' (opt_get args ''concept'');
               th = z_enum themeSchema ''minimal'' ''theme'' (opt_get args ''theme'');
               sz = z_enum iconSizeSchema ''512x512'' ''size'' (opt_get args ''size'');
               fm = z_enum outputFormatSchema ''png'' ''output_format'' (opt_get args ''output_format'')
           in case (c, th, sz, fm) of
                (Inr c', Inr th', Inr sz', Inr fm') \<Rightarrow>
                  Inr \<lparr> ic_concept = c', ic_theme = th', ic_size = sz', ic_output_format = fm' \<rparr>
              | _ \<Rightarrow> Inl (Error (zod_message w (issues_of c @ issues_of th @ issues_of sz
                                                  @ issues_of fm))))
      | _ \<Rightarrow> Inl (not_an_object w args))"

definition generateHeroInputSchema :: "world \<Rightarrow> jsval \<Rightarrow> exn + GenerateHeroInput" where
  "generateHeroInputSchema w args =
     (case args of
        Obj kvs \<Rightarrow>
          (let pn = z_string 1 (Some 200) ''product_name'' (opt_get args ''product_name'');
               tg = z_string 1 (Some 500) ''tagline'' (opt_get args ''tagline'');
               vb = z_optional_string (Some 200) ''vibe'' (opt_get args ''vibe'');
               sz = z_enum sizeSchema ''1536x1024'' ''size'' (opt_get args ''size'');
               fm = z_enum outputFormatSchema ''png'' ''output_format'' (opt_get args ''output_format'')
           in case (pn, tg, vb, sz, fm) of
                (Inr pn', Inr tg', Inr vb', Inr sz', Inr fm') \<Rightarrow>
                  Inr \<lparr> he_product_name = pn', he_tagline = tg', he_vibe = vb', he_size = sz',
                        he_output_format = fm' \<rparr>
              | _ \<Rightarrow> Inl (Error (zod_message w (issues_of pn @ issues_of tg @ issues_of vb
                                                  @ issues_of sz @ issues_of fm))))
      | _ \<Rightarrow> Inl (not_an_object w args))"

definition beautifyScreenshotInputSchema :: "world \<Rightarrow> jsval \<Rightarrow> exn + BeautifyScreenshotInput" where
  "beautifyScreenshotInputSchema w args =
     (case args of
        Obj kvs \<Rightarrow>
          (let ip = z_string 1 None ''input_image_path'' (opt_get args ''input_image_path'');
               gl = z_string 1 (Some 1000) ''goal'' (opt_get args ''goal'');
               fm = z_enum outputFormatSchema ''png'' ''output_format'' (opt_get args ''output_format'')
           in case (ip, gl, fm) of
                (Inr ip', Inr gl', Inr fm') \<Rightarrow>
                  Inr \<lparr> bs_input_image_path = ip', bs_goal = gl', bs_output_format = fm' \<rparr>
              | _ \<Rightarrow> Inl (Error (zod_message w (issues_of ip @ issues_of gl @ issues_of fm))))
      | _ \<Rightarrow> Inl (not_an_object w args))"


section \<open>Tool handlers (\<open>mcp/server.ts\<close>)\<close>

text \<open>
  A handler returns the object it serialises into the text of its reply.
\<close>

definition image_output :: "env \<Rightarrow> string \<Rightarrow> string \<Rightarrow> jsval \<Rightarrow> jsval \<Rightarrow> jsval" where
  "image_output e filePath output_format w h =
     Obj [(''ok'', Bool True),
          (''file_path'', Str (toRelativePath e filePath)),
          (''mime_type'', Str (getMimeType output_format)),
          (''width'', w),
          (''height'', h)]"

definition save_image :: "env \<Rightarrow> world \<Rightarrow> ImageGenerationResult \<Rightarrow> string \<Rightarrow> string io" where
  "save_image e w result filename =
     (if format result = Base64 then writeBase64Image e w (data result) filename
      else downloadImage e w (data result) filename)"

definition handleGenerateImage :: "env \<Rightarrow> world \<Rightarrow> jsval \<Rightarrow> jsval io" where
  "handleGenerateImage e w args =
     io_bind (io_lift (generateImageInputSchema w args))
       (\<lambda>input.
          io_bind
            (case gi_output_path input of
               None \<Rightarrow> io_return (generateFilename w ''generate_image'' (gi_output_format input))
             | Some output_path \<Rightarrow>
                 if output_path \<noteq> []
                 then io_bind (io_lift (validateOutputPath e output_path)) (\<lambda>_. io_return output_path)
                 else io_return (generateFilename w ''generate_image'' (gi_output_format input)))
            (\<lambda>filename.
               io_bind
                 (generateImage (GeminiProvider e) w
                    \<lparr> o_prompt = gi_prompt input, o_style = gi_style input, o_size = gi_size input,
                      o_background = gi_background input, o_format = gi_output_format input \<rparr>)
                 (\<lambda>result.
                    io_bind (save_image e w result filename)
                      (\<lambda>filePath.
                         io_return (image_output e filePath (gi_output_format input)
                                      (width result) (height result))))))"

definition themeDescriptions :: "string \<Rightarrow> string" where
  "themeDescriptions theme =
     (if theme = ''minimal'' then ''minimalist, clean lines, simple shapes, modern''
      else if theme = ''playful'' then ''fun, colorful, rounded shapes, friendly''
      else if theme = ''corporate'' then ''professional, sleek, business-like, polished''
      else ''undefined'')"

definition icon_prompt :: "GenerateIconInput \<Rightarrow> string" where
  "icon_prompt input =
     ''A '' @ themeDescriptions (ic_theme input) @ '' icon representing: '' @ ic_concept input
       @ ''. Icon design, centered, clean background.''"

definition handleGenerateIcon :: "env \<Rightarrow> world \<Rightarrow> jsval \<Rightarrow> jsval io" where
  "handleGenerateIcon e w args =
     io_bind (io_lift (generateIconInputSchema w args))
       (\<lambda>input.
          io_bind
            (generateImage (GeminiProvider e) w
               \<lparr> o_prompt = icon_prompt input, o_style = ''flat'', o_size = ic_size input,
                 o_background = ''transparent'', o_format = ic_output_format input \<rparr>)
            (\<lambda>result.
               io_bind
                 (save_image e w result (generateFilename w ''generate_icon'' (ic_output_format input)))
                 (\<lambda>filePath.
                    io_return (image_output e filePath (ic_output_format input)
                                 (fst (parseSize (ic_size input))) (snd (parseSize (ic_size input)))))))"

definition hero_prompt :: "GenerateHeroInput \<Rightarrow> string" where
  "hero_prompt input =
     (let vibeText = (case he_vibe input of
                        None \<Rightarrow> []
                      | Some vibe \<Rightarrow> if vibe \<noteq> [] then '', '' @ vibe @ '' vibe'' else [])
      in ''Hero banner image for '' @ [CHR 0x22] @ he_product_name input @ [CHR 0x22] @ ''. ''
           @ he_tagline input @ vibeText
           @ ''. Professional, eye-catching, suitable for website header.'')"

definition hero_degraded :: "string \<Rightarrow> jsval" where
  "hero_degraded prompt =
     Obj [(''ok'', Bool False),
          (''suggested_prompt'', Str prompt),
          (''message'', Str ''Image provider not configured. Configure GEMINI_API_KEY to generate images.'')]"

definition handleGenerateHero :: "env \<Rightarrow> world \<Rightarrow> jsval \<Rightarrow> jsval io" where
  "handleGenerateHero e w args =
     io_bind (io_lift (generateHeroInputSchema w args))
       (\<lambda>input.
          if \<not> isConfigured (GeminiProvider e)
          then io_return (hero_degraded (hero_prompt input))
          else
            io_bind
              (generateImage (GeminiProvider e) w
                 \<lparr> o_prompt = hero_prompt input, o_style = ''photoreal'', o_size = he_size input,
                   o_background = ''solid'', o_format = he_output_format input \<rparr>)
              (\<lambda>result.
                 io_bind
                   (save_image e w result (generateFilename w ''generate_hero'' (he_output_format input)))
                   (\<lambda>filePath.
                      io_return (image_output e filePath (he_output_format input)
                                   (width result) (height result)))))"

definition beautify_output :: jsval where
  "beautify_output =
     Obj [(''ok'', Bool True),
          (''message'', Str ''Beautify screenshot is currently a stub implementation''),
          (''suggested_steps'', Arr (map Str
             [''Increase whitespace and padding for a cleaner look'',
              ''Use a consistent color palette throughout the UI'',
              ''Improve typography hierarchy with varied font sizes'',
              ''Add subtle shadows or borders to define sections'',
              ''Ensure proper alignment of all elements'',
              ''Consider using rounded corners for a modern feel'',
              ''Optimize button sizes and spacing for better UX''])),
          (''note'', Str ''To implement image editing, integrate an image manipulation API or library'')]"

definition handleBeautifyScreenshot :: "env \<Rightarrow> world \<Rightarrow> jsval \<Rightarrow> jsval io" where
  "handleBeautifyScreenshot e w args =
     io_bind (io_lift (beautifyScreenshotInputSchema w args))
       (\<lambda>input.
          io_bind
            (io_catch (io_lift (validateOutputPath e (bs_input_image_path input)))
               (\<lambda>_. io_throw (Error ''Input image must be in outputs/ directory'')))
            (\<lambda>_. io_return beautify_output))"

section \<open>The dispatcher (\<open>CallToolRequestSchema\<close> handler)\<close>

definition route :: "env \<Rightarrow> world \<Rightarrow> string \<Rightarrow> jsval \<Rightarrow> jsval io" where
  "route e w name args =
     (if name = ''generate_image'' then handleGenerateImage e w args
      else if name = ''generate_icon'' then handleGenerateIcon e w args
      else if name = ''generate_hero'' then handleGenerateHero e w args
      else if name = ''beautify_screenshot'' then handleBeautifyScreenshot e w args
      else io_throw (Error (''Unknown tool: '' @ name)))"

text \<open>
  The body of the \<open>try\<close> block: the rate-limit check, then the handler.  It returns the
  rate-limit record as the call leaves it.
\<close>

definition tool_body :: "env \<Rightarrow> world \<Rightarrow> rate_map \<Rightarrow> string \<Rightarrow> jsval \<Rightarrow> rate_map \<times> jsval io" where
  "tool_body e w m name args =
     (case checkRateLimit e (clock w) m name of
        Inl err \<Rightarrow> (m, io_throw err)
      | Inr m' \<Rightarrow> (m', route e w name args))"

definition error_output :: "exn \<Rightarrow> jsval" where
  "error_output err = Obj [(''ok'', Bool False), (''error'', Str (message_of err))]"

text \<open>The whole request handler: what the \<open>try\<close> block returns, or the reply of the \<open>catch\<close>.\<close>

definition handle_call :: "env \<Rightarrow> world \<Rightarrow> rate_map \<Rightarrow> string \<Rightarrow> jsval \<Rightarrow> rate_map \<times> event list \<times> jsval" where
  "handle_call e w m name args =
     (case tool_body e w m name args of
        (m', es, Inl err) \<Rightarrow> (m', es, error_output err)
      | (m', es, Inr output) \<Rightarrow> (m', es, output))"

section \<open>Example deployments, worlds and calls\<close>

text \<open>A configured deployment and a cooperative world, used in the examples.\<close>

definition env1 :: env where
  "env1 = env0 \<lparr> GEMINI_API_KEY := Some ''sk-live-123'' \<rparr>"

definition inline_reply :: api_response where
  "inline_reply = \<lparr> status = 200, statusText = ''OK'', text_body = Inr [],
                    json_body = Inr nested_only \<rparr>"

definition world0 :: world where
  "world0 = \<lparr> clock = 1000, iso_time = ''2026-02-10T12:30:45.123Z'', random_hex = ''a1b2c3d4'',
              api_fetch = (\<lambda>endpoint key. Responded inline_reply),
              download_fetch = Rejected (Error ''fetch failed''),
              dir_access = (\<lambda>_. True), mkdir_result = (\<lambda>_. None), write_result = None,
              zod_message = (\<lambda>_. ''Invalid input'') \<rparr>"

definition tool_names :: "string list" where
  "tool_names = [''generate_image'', ''generate_icon'', ''generate_hero'', ''beautify_screenshot'']"

definition hero_args :: jsval where
  "hero_args = Obj [(''product_name'', Str ''BananaMCP''), (''tagline'', Str ''The sweetest server''),
                    (''vibe'', Str ''modern'')]"

definition hero_input :: GenerateHeroInput where
  "hero_input = \<lparr> he_product_name = ''BananaMCP'', he_tagline = ''The sweetest server'',
                   he_vibe = Some ''modern'', he_size = ''1536x1024'', he_output_format = ''png'' \<rparr>"

definition busy_map :: rate_map where
  "busy_map = Map.empty(''resize_image'' \<mapsto>
      [0, 1000, 2000, 3000, 4000, 5000, 6000, 7000, 8000, 9000, 10000, 11000, 12000, 13000,
       14000, 15000, 16000, 17000, 18000, 19000])"

section \<open>Written paths and observable runs\<close>

text \<open>
  A path lies within the output directory when it is that directory or the entry of a
  plain name directly inside it.  \<open>entry_name dir p\<close> is what follows \<open>dir\<close> and its
  separator in \<open>p\<close>.
\<close>

definition entry_name :: "string \<Rightarrow> string \<Rightarrow> string" where
  "entry_name dir p = drop (length (child_path dir [])) p"

definition direct_child :: "string \<Rightarrow> string \<Rightarrow> bool" where
  "direct_child dir p \<longleftrightarrow> plain_name (entry_name dir p) \<and> p = child_path dir (entry_name dir p)"

definition within_outputs :: "env \<Rightarrow> string \<Rightarrow> bool" where
  "within_outputs e p \<longleftrightarrow>
     prefix (OUTPUTS_PATH e) p \<and> (p = OUTPUTS_PATH e \<or> direct_child (OUTPUTS_PATH e) p)"

definition written_paths :: "event list \<Rightarrow> string list" where
  "written_paths es = concat (map (\<lambda>ev. case ev of WriteFile p \<Rightarrow> [p] | _ \<Rightarrow> []) es)"

definition writes_within :: "env \<Rightarrow> 'a io \<Rightarrow> bool" where
  "writes_within e m \<longleftrightarrow> (\<forall>p\<in>set (written_paths (fst m)). within_outputs e p)"

definition banana_args :: "string \<Rightarrow> jsval" where
  "banana_args output_path = Obj [(''prompt'', Str ''a banana''), (''output_path'', Str output_path)]"

definition api_call1 :: event where
  "api_call1 = ApiCall ''https://generativelanguage.googleapis.com/v1beta/models/gemini-2.5-flash-image:generateContent'' ''sk-live-123''"

definition ok_output :: "string \<Rightarrow> jsval" where
  "ok_output file_path =
     Obj [(''ok'', Bool True), (''file_path'', Str file_path), (''mime_type'', Str ''image/png''),
          (''width'', Num (Some 1024)), (''height'', Num (Some 1024))]"



definition with_key :: "env \<Rightarrow> string \<Rightarrow> env" where
  "with_key e k = e \<lparr> GEMINI_API_KEY := Some k \<rparr>"




definition rocket_args :: jsval where
  "rocket_args = Obj [(''concept'', Str ''a rocket'')]"

section \<open>Properties of the path operations\<close>

lemma split_slash_nonempty: "split_slash p \<noteq> []"
  by (induction p) (auto split: list.splits)

lemma split_slash_no_slash: "s \<in> set (split_slash p) \<Longrightarrow> CHR ''/'' \<notin> set s"
  by (induction p arbitrary: s) (auto split: list.splits if_splits)

lemma split_slash_append: "split_slash (p @ CHR ''/'' # q) = split_slash p @ split_slash q"
  by (induction p) (auto split: list.splits simp: split_slash_nonempty)

lemma split_slash_plain: "CHR ''/'' \<notin> set s \<Longrightarrow> split_slash s = [s]"
  by (induction s) auto

lemma split_join_slash:
  "ss \<noteq> [] \<Longrightarrow> \<forall>s\<in>set ss. CHR ''/'' \<notin> set s \<Longrightarrow> split_slash (join_slash ss) = ss"
  by (induction ss rule: join_slash.induct) (auto simp: split_slash_plain split_slash_append)

lemma split_abs_path:
  "\<forall>s\<in>set ss. CHR ''/'' \<notin> set s \<Longrightarrow> split_slash (abs_path ss) = [] # (if ss = [] then [[]] else ss)"
  by (simp add: abs_path_def split_join_slash)

lemma normalizeString_plain:
  "\<forall>s\<in>set xs. plain_name s \<Longrightarrow>
   normalizeString a acc (xs @ ys) = normalizeString a (rev xs @ acc) ys"
  by (induction xs arbitrary: acc) (auto simp: plain_name_def)

lemma normalizeString_clean:
  "\<forall>s\<in>set acc. plain_name s \<Longrightarrow> \<forall>s\<in>set ss. CHR ''/'' \<notin> set s \<Longrightarrow>
   \<forall>s\<in>set (normalizeString False acc ss). plain_name s"
proof (induction ss arbitrary: acc)
  case Nil
  then show ?case by simp
next
  case (Cons s ss)
  have tl: "\<forall>s\<in>set ss. CHR ''/'' \<notin> set s" using Cons.prems(2) by simp
  have step: "\<And>acc'. \<forall>a\<in>set acc'. plain_name a \<Longrightarrow>
      \<forall>x\<in>set (normalizeString False acc' ss). plain_name x"
    using Cons.IH tl by blast
  consider (skip) "s = [] \<or> s = ''.''" | (up) "s = ''..''" | (name) "plain_name s"
    using Cons.prems(2) by (auto simp: plain_name_def)
  then show ?case
  proof cases
    case skip
    then show ?thesis using step [OF Cons.prems(1)] by auto
  next
    case up
    show ?thesis
    proof (cases acc)
      case Nil
      then show ?thesis using up step [of "[]"] by simp
    next
      case (Cons t ts)
      then have "plain_name t" "\<forall>a\<in>set ts. plain_name a" using Cons.prems(1) by auto
      then show ?thesis using up Cons step [of ts] by (simp add: plain_name_def)
    qed
  next
    case name
    then have "\<forall>a\<in>set (s # acc). plain_name a" using Cons.prems(1) by simp
    from step [OF this] name show ?thesis by (simp add: plain_name_def)
  qed
qed

lemma normalizeString_plain_all:
  "\<forall>s\<in>set xs. plain_name s \<Longrightarrow> normalizeString a [] xs = xs"
  using normalizeString_plain [of xs a "[]" "[]"] by simp

lemma resolve_scan_abs:
  "resolve_scan (ps @ [CHR ''/'' # t]) acc = (rp, b) \<Longrightarrow> b \<and> rp \<noteq> [] \<and> hd rp = CHR ''/''"
  by (induction ps arbitrary: acc) (auto split: if_splits)

lemma path_resolve_canonical: "canonical (path_resolve (process_cwd e) args)"
proof -
  obtain rp b where rs: "resolve_scan (rev args @ [process_cwd e]) [] = (rp, b)"
    by (cases "resolve_scan (rev args @ [process_cwd e]) []")
  then have b: "b" using resolve_scan_abs [of "rev args" "cwd_tail e" "[]" rp b]
    by (simp add: process_cwd_def)
  let ?n = "normalizeString False [] (split_slash rp)"
  have "\<forall>s\<in>set ?n. plain_name s"
    by (rule normalizeString_clean) (auto simp: split_slash_no_slash)
  moreover have "path_resolve (process_cwd e) args = abs_path ?n"
    using rs b by (simp add: path_resolve_def abs_path_def)
  ultimately show ?thesis unfolding canonical_def by blast
qed

lemma normalizeString_snoc_empty:
  "normalizeString a acc (xs @ [[]]) = normalizeString a acc xs"
  by (induction xs arbitrary: acc) (auto split: list.splits)

lemma join_slash_eq_Nil:
  "\<forall>s\<in>set xs. s \<noteq> [] \<Longrightarrow> join_slash xs = [] \<longleftrightarrow> xs = []"
  by (induction xs rule: join_slash.induct) auto

lemma join_slash_nonempty:
  "xs \<noteq> [] \<Longrightarrow> last xs \<noteq> [] \<Longrightarrow> join_slash xs \<noteq> []"
  by (induction xs rule: join_slash.induct) auto

lemma last_join_slash:
  "xs \<noteq> [] \<Longrightarrow> last xs \<noteq> [] \<Longrightarrow> last (join_slash xs) = last (last xs)"
  by (induction xs rule: join_slash.induct) (auto simp: join_slash_nonempty)

lemma join_slash_snoc:
  "join_slash (xs @ [b]) = (if xs = [] then b else join_slash xs @ CHR ''/'' # b)"
  by (induction xs rule: join_slash.induct) auto

lemma abs_path_snoc:
  "\<forall>s\<in>set segs. s \<noteq> [] \<Longrightarrow> abs_path (segs @ [b]) = child_path (abs_path segs) b"
  by (auto simp: abs_path_def child_path_def join_slash_snoc join_slash_eq_Nil)

lemma norm_step:
  assumes "\<forall>s\<in>set R. plain_name s"
  shows "normalizeString False (rev R) [b] =
     (if b = [] \<or> b = ''.'' then R else if b = ''..'' then butlast R else R @ [b])"
proof (cases R rule: rev_cases)
  case Nil
  then show ?thesis by simp
next
  case (snoc ys y)
  then have "y \<noteq> ''..''" using assms by (auto simp: plain_name_def)
  then show ?thesis using snoc by simp
qed

lemma split_abs_norm:
  assumes "\<forall>s\<in>set R. plain_name s"
  shows "normalizeString False [] (split_slash (abs_path R) @ ys) = normalizeString False (rev R) ys"
proof -
  have ns: "\<forall>s\<in>set R. CHR ''/'' \<notin> set s" using assms by (simp add: plain_name_def)
  show ?thesis
  proof (cases "R = []")
    case True
    then show ?thesis by (simp add: abs_path_def)
  next
    case False
    then have "split_slash (abs_path R) = [] # R" using split_abs_path [OF ns] by simp
    then show ?thesis using normalizeString_plain [OF assms, of False "[]" ys] by simp
  qed
qed

lemma path_resolve_two:
  assumes "\<forall>s\<in>set R. plain_name s"
  shows "path_resolve cwd [abs_path R, q] =
     (if q \<noteq> [] \<and> hd q = CHR ''/'' then abs_path (normalizeString False [] (split_slash q))
      else abs_path (normalizeString False (rev R) (split_slash q)))"
proof -
  have hdR: "hd (abs_path R) = CHR ''/''" "abs_path R \<noteq> []" by (simp_all add: abs_path_def)
  show ?thesis
  proof (cases "q = []")
    case True
    have "resolve_scan (rev [abs_path R, q] @ [cwd]) [] = (abs_path R @ ''/'', True)"
      using True hdR by simp
    then have "path_resolve cwd [abs_path R, q] =
        abs_path (normalizeString False [] (split_slash (abs_path R) @ [[]]))"
      by (simp add: path_resolve_def abs_path_def split_slash_append del: resolve_scan.simps)
    then show ?thesis using True split_abs_norm [OF assms, of "[[]]"] by simp
  next
    case False
    show ?thesis
    proof (cases "hd q = CHR ''/''")
      case True
      have "resolve_scan (rev [abs_path R, q] @ [cwd]) [] = (q @ ''/'', True)"
        using True False by simp
      then have "path_resolve cwd [abs_path R, q] =
          abs_path (normalizeString False [] (split_slash q @ [[]]))"
        by (simp add: path_resolve_def abs_path_def split_slash_append del: resolve_scan.simps)
      then show ?thesis using True False by (simp add: normalizeString_snoc_empty)
    next
      case rel: False
      have "resolve_scan (rev [abs_path R, q] @ [cwd]) [] = (abs_path R @ CHR ''/'' # q @ ''/'', True)"
        using rel False hdR by simp
      then have "path_resolve cwd [abs_path R, q] =
          abs_path (normalizeString False [] (split_slash (abs_path R) @ (split_slash q @ [[]])))"
        by (simp add: path_resolve_def abs_path_def split_slash_append del: resolve_scan.simps)
      then show ?thesis using rel False split_abs_norm [OF assms, of "split_slash q @ [[]]"]
        by (simp add: normalizeString_snoc_empty)
    qed
  qed
qed

lemma path_resolve_one:
  assumes "\<forall>s\<in>set R. plain_name s"
  shows "path_resolve cwd [abs_path R] = abs_path R"
proof -
  have "resolve_scan (rev [abs_path R] @ [cwd]) [] = (abs_path R @ ''/'', True)"
    by (simp add: abs_path_def)
  then have "path_resolve cwd [abs_path R] =
      abs_path (normalizeString False [] (split_slash (abs_path R) @ [[]]))"
    by (simp add: path_resolve_def abs_path_def split_slash_append del: resolve_scan.simps)
  then show ?thesis using split_abs_norm [OF assms, of "[[]]"] by simp
qed

lemma path_normalize_abs:
  assumes "\<forall>s\<in>set R. plain_name s"
  shows "path_normalize (abs_path R) = abs_path R"
proof (cases "R = []")
  case True
  then show ?thesis by (simp add: path_normalize_def abs_path_def)
next
  case False
  have ne: "\<forall>s\<in>set R. s \<noteq> []" using assms by (simp add: plain_name_def)
  have lastR: "last R \<noteq> []" "CHR ''/'' \<notin> set (last R)"
    using False assms by (auto simp: plain_name_def)
  then have "last (last R) \<noteq> CHR ''/''" by (metis last_in_set)
  then have tr: "last (abs_path R) \<noteq> CHR ''/''"
    using False lastR by (simp add: abs_path_def join_slash_nonempty last_join_slash)
  have n: "normalizeString False [] (split_slash (abs_path R)) = R"
    using split_abs_norm [OF assms, of "[]"] by simp
  have "join_slash R \<noteq> []" using False ne by (simp add: join_slash_eq_Nil)
  then show ?thesis using tr n
    by (simp add: path_normalize_def Let_def) (simp add: abs_path_def)
qed

lemma path_join_abs:
  assumes "\<forall>s\<in>set R. plain_name s" and "CHR ''/'' \<notin> set b"
  shows "path_join [abs_path R, b] = abs_path (normalizeString False (rev R) [b])"
proof (cases "b = []")
  case True
  then show ?thesis using path_normalize_abs [OF assms(1)]
    by (simp add: path_join_def abs_path_def)
next
  case False
  let ?X = "normalizeString False (rev R) [b]"
  have a1: "\<forall>s\<in>set (rev R). plain_name s" using assms(1) by simp
  have a2: "\<forall>s\<in>set [b]. CHR ''/'' \<notin> set s" using assms(2) by simp
  have X: "\<forall>s\<in>set ?X. plain_name s"
    by (rule normalizeString_clean [OF a1 a2])
  then have "\<forall>s\<in>set ?X. s \<noteq> []" unfolding plain_name_def by blast
  then have Xne: "join_slash ?X = [] \<longleftrightarrow> ?X = []"
    by (rule join_slash_eq_Nil)
  have parts: "path_join [abs_path R, b] = path_normalize (abs_path R @ CHR ''/'' # b)"
    using False by (simp add: path_join_def abs_path_def)
  have tr: "last (abs_path R @ CHR ''/'' # b) \<noteq> CHR ''/''"
    using False assms(2) by (metis last_ConsR last_appendR last_in_set list.distinct(1))
  have n: "normalizeString False [] (split_slash (abs_path R @ CHR ''/'' # b)) = ?X"
    using split_abs_norm [OF assms(1), of "[b]"] assms(2)
    by (simp add: split_slash_append split_slash_plain)
  have "path_normalize (abs_path R @ CHR ''/'' # b) = abs_path ?X"
    using tr n Xne
    by (simp add: path_normalize_def Let_def) (simp add: abs_path_def)
  then show ?thesis using parts by simp
qed


lemma basename_no_slash: "CHR ''/'' \<notin> set (basename p)"
  unfolding basename_def by (metis set_rev set_takeWhileD)

lemma abs_path_eq_root: "\<forall>s\<in>set R. plain_name s \<Longrightarrow> abs_path R = ''/'' \<longleftrightarrow> R = []"
  using join_slash_eq_Nil [of R] by (auto simp: abs_path_def plain_name_def)

lemma child_path_longer: "n \<noteq> [] \<Longrightarrow> length d < length (child_path d n)"
  by (cases n) (auto simp: child_path_def)

lemma prefix_child_path: "d \<noteq> [] \<Longrightarrow> prefix d (child_path d n)"
  by (cases d) (auto simp: child_path_def)

lemma OUTPUTS_PATH_canonical:
  obtains G where "\<forall>s\<in>set G. plain_name s" and "OUTPUTS_PATH e = abs_path G"
  using path_resolve_canonical [of e "[PROJECT_ROOT e, OUTPUT_DIR e]"]
  unfolding canonical_def OUTPUTS_PATH_def by blast

lemma PROJECT_ROOT_canonical:
  obtains R where "\<forall>s\<in>set R. plain_name s" and "PROJECT_ROOT e = abs_path R"
  using path_resolve_canonical [of e "[module_dir e, ''..'', ''..'']"]
  unfolding canonical_def PROJECT_ROOT_def by blast

lemma safeJoinOutputs_char:
  "safeJoinOutputs e f =
     (if basename f = ''..'' \<and> OUTPUTS_PATH e \<noteq> ''/''
      then Inl (Error ''Invalid output path: path traversal detected'')
      else if basename f = [] \<or> basename f = ''.'' \<or> basename f = ''..''
      then Inr (OUTPUTS_PATH e)
      else Inr (child_path (OUTPUTS_PATH e) (basename f)))"
proof -
  obtain G where G: "\<forall>s\<in>set G. plain_name s" and out: "OUTPUTS_PATH e = abs_path G"
    by (rule OUTPUTS_PATH_canonical)
  define b where "b = basename f"
  define X where "X = normalizeString False (rev G) [b]"
  have bs: "CHR ''/'' \<notin> set b" by (simp add: b_def basename_no_slash)
  have a1: "\<forall>s\<in>set (rev G). plain_name s" using G by simp
  have a2: "\<forall>s\<in>set [b]. CHR ''/'' \<notin> set s" using bs by simp
  have X: "\<forall>s\<in>set X. plain_name s"
    unfolding X_def by (rule normalizeString_clean [OF a1 a2])
  have "path_join [OUTPUTS_PATH e, b] = abs_path X"
    unfolding X_def out by (rule path_join_abs [OF G bs])
  then have res: "path_resolve (process_cwd e) [path_join [OUTPUTS_PATH e, b]] = abs_path X"
    using path_resolve_one [OF X] by simp
  have sj: "safeJoinOutputs e f =
      (if \<not> prefix (abs_path G) (abs_path X)
       then Inl (Error ''Invalid output path: path traversal detected'')
       else Inr (abs_path X))"
    using res out by (simp add: safeJoinOutputs_def b_def Let_def)
  have Gne: "\<forall>s\<in>set G. s \<noteq> []" using G by (simp add: plain_name_def)
  have Xeq: "X = (if b = [] \<or> b = ''.'' then G else if b = ''..'' then butlast G else G @ [b])"
    unfolding X_def by (rule norm_step [OF G])
  consider (same) "b = [] \<or> b = ''.''" | (up) "b = ''..''"
    | (name) "b \<noteq> [] \<and> b \<noteq> ''.'' \<and> b \<noteq> ''..''"
    by blast
  then show ?thesis
  proof cases
    case same
    then have "X = G" using Xeq by auto
    then show ?thesis using sj same out by (auto simp: b_def)
  next
    case up
    then have Xb: "X = butlast G" using Xeq by simp
    show ?thesis
    proof (cases "G = []")
      case True
      then show ?thesis using sj up out Xb by (simp add: b_def abs_path_def)
    next
      case False
      then have "G = butlast G @ [last G]" by simp
      then have "abs_path G = child_path (abs_path (butlast G)) (last G)"
        using abs_path_snoc [of "butlast G" "last G"] Gne by (metis in_set_butlastD)
      moreover have "last G \<noteq> []" using False Gne by simp
      ultimately have "length (abs_path (butlast G)) < length (abs_path G)"
        using child_path_longer by metis
      then have "\<not> prefix (abs_path G) (abs_path (butlast G))"
        using prefix_length_le by fastforce
      moreover have "OUTPUTS_PATH e \<noteq> ''/''" using False abs_path_eq_root [OF G] out by simp
      ultimately show ?thesis using sj up Xb by (simp add: b_def)
    qed
  next
    case name
    then have "X = G @ [b]" using Xeq by simp
    then have "abs_path X = child_path (abs_path G) b" using abs_path_snoc [OF Gne] by simp
    moreover have "prefix (abs_path G) (child_path (abs_path G) b)"
      by (rule prefix_child_path) (simp add: abs_path_def)
    ultimately show ?thesis using sj name out by (simp add: b_def)
  qed
qed


lemma basename_plain:
  assumes "CHR ''/'' \<notin> set s"
  shows "basename s = s"
proof -
  have d: "dropWhile (\<lambda>c. c = CHR ''/'') (rev s) = rev s"
    using assms by (cases "rev s") (auto simp: rev_eq_Cons_iff)
  have t: "takeWhile (\<lambda>c. c \<noteq> CHR ''/'') (rev s) = rev s"
    by (rule takeWhile_eq_all_conv [THEN iffD2]) (use assms in auto)
  show ?thesis by (simp only: basename_def d t rev_rev_ident)
qed

lemma join_slash_append:
  "xs \<noteq> [] \<Longrightarrow> ys \<noteq> [] \<Longrightarrow> join_slash (xs @ ys) = join_slash xs @ CHR ''/'' # join_slash ys"
proof (induction xs rule: join_slash.induct)
  case (2 s)
  then show ?case by (cases ys) auto
qed auto

lemma slash_prefix_eq:
  "CHR ''/'' \<notin> set a \<Longrightarrow> CHR ''/'' \<notin> set c \<Longrightarrow> prefix (a @ CHR ''/'' # x) (c @ CHR ''/'' # y) \<Longrightarrow> a = c"
proof (induction a arbitrary: c)
  case Nil
  then show ?case by (cases c) auto
next
  case (Cons h a)
  then show ?case by (cases c) auto
qed

lemma slash_prefix_none:
  "CHR ''/'' \<notin> set y \<Longrightarrow> \<not> prefix (a @ CHR ''/'' # x) y"
  using set_mono_prefix by fastforce

lemma OUTPUTS_PATH_default:
  assumes "OUTPUT_DIR e = ''./outputs''" and "\<forall>s\<in>set R. plain_name s"
    and "PROJECT_ROOT e = abs_path R"
  shows "OUTPUTS_PATH e = abs_path (R @ [''outputs''])"
proof -
  have "split_slash ''./outputs'' = [''.'', ''outputs'']" by simp
  moreover have "normalizeString False (rev R) [''.'', ''outputs''] = R @ [''outputs'']" by simp
  ultimately show ?thesis
    using path_resolve_two [OF assms(2), of "process_cwd e" "''./outputs''"] assms(1,3)
    by (simp add: OUTPUTS_PATH_def del: split_slash.simps normalizeString.simps)
qed

lemma climb_twice:
  assumes "\<forall>s\<in>set R. plain_name s"
  shows "normalizeString False (rev R) (split_slash ''../../etc/passwd'') =
         butlast (butlast R) @ [''etc'', ''passwd'']"
proof -
  have sp: "split_slash ''../../etc/passwd'' = [''..'', ''..'', ''etc'', ''passwd'']" by simp
  show ?thesis
  proof (cases R rule: rev_cases)
    case Nil
    then show ?thesis unfolding sp by simp
  next
    case (snoc P b)
    then have b: "b \<noteq> ''..''" using assms by (auto simp: plain_name_def)
    show ?thesis
    proof (cases P rule: rev_cases)
      case Nil
      then show ?thesis unfolding sp using snoc b by simp
    next
      case (snoc Q a)
      then have "a \<noteq> ''..''" using assms \<open>R = P @ [b]\<close> by (auto simp: plain_name_def)
      then show ?thesis unfolding sp using snoc \<open>R = P @ [b]\<close> b
        by (simp add: butlast_append)
    qed
  qed
qed

lemma passwd_outside:
  assumes "\<forall>s\<in>set R. plain_name s"
  shows "\<not> prefix (abs_path (R @ [''outputs''])) (abs_path (butlast (butlast R) @ [''etc'', ''passwd'']))"
proof (cases R rule: rev_cases)
  case Nil
  then show ?thesis by (simp add: abs_path_def)
next
  case (snoc P b)
  then have b: "CHR ''/'' \<notin> set b" using assms by (auto simp: plain_name_def)
  show ?thesis
  proof (cases P rule: rev_cases)
    case Nil
    have "\<not> prefix (b @ ''/outputs'') ''etc/passwd''"
    proof
      assume p: "prefix (b @ ''/outputs'') ''etc/passwd''"
      then have "b = ''etc''" using slash_prefix_eq [OF b, of "''etc''" "''outputs''" "''passwd''"] by simp
      with p show False by simp
    qed
    then show ?thesis using Nil snoc by (simp add: abs_path_def)
  next
    case (snoc Q a)
    then have a: "CHR ''/'' \<notin> set a" using assms \<open>R = P @ [b]\<close> by (auto simp: plain_name_def)
    have key: "\<not> prefix (a @ CHR ''/'' # b @ ''/outputs'') ''etc/passwd''"
    proof
      assume p: "prefix (a @ CHR ''/'' # b @ ''/outputs'') ''etc/passwd''"
      then have "a = ''etc''"
        using slash_prefix_eq [OF a, of "''etc''" "b @ ''/outputs''" "''passwd''"] by simp
      with p have "prefix (b @ ''/outputs'') ''passwd''" by simp
      then show False using slash_prefix_none [of "''passwd''" b "''outputs''"] by simp
    qed
    have R: "R = Q @ [a, b]" using snoc \<open>R = P @ [b]\<close> by simp
    have bb: "butlast (butlast R) = Q" unfolding R by (simp add: butlast_append)
    show ?thesis
    proof (cases "Q = []")
      case True
      then show ?thesis using key R bb by (simp add: abs_path_def)
    next
      case False
      have "join_slash (R @ [''outputs'']) = join_slash Q @ CHR ''/'' # join_slash [a, b, ''outputs'']"
        unfolding R using join_slash_append [OF False, of "[a, b, ''outputs'']"] by simp
      moreover have "join_slash (Q @ [''etc'', ''passwd'']) = join_slash Q @ CHR ''/'' # join_slash [''etc'', ''passwd'']"
        using join_slash_append [OF False, of "[''etc'', ''passwd'']"] by simp
      ultimately show ?thesis using key bb by (simp add: abs_path_def)
    qed
  qed
qed

lemma validate_passwd_default:
  assumes "OUTPUT_DIR e = ''./outputs''"
  shows "validateOutputPath e ''../../etc/passwd'' =
         Inl (Error ''Invalid output path: must be within outputs directory'')"
proof -
  obtain R where R: "\<forall>s\<in>set R. plain_name s" and root: "PROJECT_ROOT e = abs_path R"
    by (rule PROJECT_ROOT_canonical)
  have "path_resolve (process_cwd e) [PROJECT_ROOT e, ''../../etc/passwd''] =
        abs_path (butlast (butlast R) @ [''etc'', ''passwd''])"
    unfolding root using path_resolve_two [OF R, of "process_cwd e" "''../../etc/passwd''"] climb_twice [OF R]
    by (simp del: split_slash.simps normalizeString.simps)
  then show ?thesis
    using passwd_outside [OF R] OUTPUTS_PATH_default [OF assms R root]
    by (simp add: validateOutputPath_def)
qed

lemma validate_bare_default:
  assumes "OUTPUT_DIR e = ''./outputs''" and "plain_name n"
  shows "validateOutputPath e n =
     (if prefix ''outputs'' n then Inr (child_path (PROJECT_ROOT e) n)
      else Inl (Error ''Invalid output path: must be within outputs directory''))"
proof -
  obtain R where R: "\<forall>s\<in>set R. plain_name s" and root: "PROJECT_ROOT e = abs_path R"
    by (rule PROJECT_ROOT_canonical)
  have Rne: "\<forall>s\<in>set R. s \<noteq> []" using R by (simp add: plain_name_def)
  have n: "n \<noteq> []" "CHR ''/'' \<notin> set n" "n \<noteq> ''.''" "n \<noteq> ''..''"
    using assms(2) by (simp_all add: plain_name_def)
  then have "hd n \<noteq> CHR ''/''" by (cases n) auto
  moreover have "normalizeString False (rev R) (split_slash n) = R @ [n]"
    using n norm_step [OF R, of n] by (simp add: split_slash_plain)
  ultimately have res: "path_resolve (process_cwd e) [PROJECT_ROOT e, n] = child_path (abs_path R) n"
    unfolding root using path_resolve_two [OF R, of "process_cwd e" n] abs_path_snoc [OF Rne, of n]
    by simp
  have out: "OUTPUTS_PATH e = child_path (abs_path R) ''outputs''"
    using OUTPUTS_PATH_default [OF assms(1) R root] abs_path_snoc [OF Rne, of "''outputs''"] by simp
  have "prefix (child_path (abs_path R) ''outputs'') (child_path (abs_path R) n) \<longleftrightarrow> prefix ''outputs'' n"
    by (simp add: child_path_def)
  then show ?thesis using res out root by (simp add: validateOutputPath_def)
qed

section \<open>The path guard\<close>

text \<open>
  C4 (counterexample).  The claim has the path guard reject \<open>../../etc/passwd\<close> and every
  name that contains a separator.  \<open>safeJoinOutputs\<close> rejects neither: it keeps the last
  component and returns a path inside the output directory.  \<open>validateOutputPath\<close> does
  not reject separators either: it accepts a path below the output directory.
\<close>

theorem safeJoin_rejects_separator_counterexample:
  "safeJoinOutputs env0 ''../../etc/passwd'' = Inr ''/app/outputs/passwd'' \<and>
   safeJoinOutputs env0 ''icons/logo.png'' = Inr ''/app/outputs/logo.png'' \<and>
   validateOutputPath env0 ''outputs/icons/logo.png'' = Inr ''/app/outputs/icons/logo.png''"
  by (simp add: safeJoinOutputs_def validateOutputPath_def env0_def OUTPUTS_PATH_def
      PROJECT_ROOT_def OUTPUT_DIR_def env_or_def path_resolve_def path_join_def
      path_normalize_def basename_def process_cwd_def)

text \<open>
  C4 (amended).  \<open>safeJoinOutputs\<close> strips the directory components of the name it is
  given instead of rejecting them: the result for a name is the result for its last
  component.  It fails exactly when that component is \<open>..\<close> (and the output directory is
  not the file-system root).  Every plain name is accepted and mapped to the entry of that
  name directly inside the output directory, a path that has the output directory as a
  prefix.  With the default output directory, \<open>validateOutputPath\<close> rejects
  \<open>../../etc/passwd\<close>.
\<close>

theorem safeJoin_strips_and_confines:
  "safeJoinOutputs e f = safeJoinOutputs e (basename f) \<and>
   (isl (safeJoinOutputs e f) \<longleftrightarrow> basename f = ''..'' \<and> OUTPUTS_PATH e \<noteq> ''/'') \<and>
   (plain_name n \<longrightarrow>
      safeJoinOutputs e n = Inr (child_path (OUTPUTS_PATH e) n) \<and>
      prefix (OUTPUTS_PATH e) (child_path (OUTPUTS_PATH e) n)) \<and>
   (OUTPUT_DIR e = ''./outputs'' \<longrightarrow>
      validateOutputPath e ''../../etc/passwd'' =
        Inl (Error ''Invalid output path: must be within outputs directory''))"
proof -
  have idem: "basename (basename f) = basename f"
    by (rule basename_plain) (rule basename_no_slash)
  have strip: "safeJoinOutputs e f = safeJoinOutputs e (basename f)"
    by (simp only: safeJoinOutputs_char [of e f] safeJoinOutputs_char [of e "basename f"] idem)
  have fails: "isl (safeJoinOutputs e f) \<longleftrightarrow> basename f = ''..'' \<and> OUTPUTS_PATH e \<noteq> ''/''"
    by (simp add: safeJoinOutputs_char [of e f])
  have plain: "safeJoinOutputs e n = Inr (child_path (OUTPUTS_PATH e) n) \<and>
      prefix (OUTPUTS_PATH e) (child_path (OUTPUTS_PATH e) n)" if n: "plain_name n"
  proof -
    have "basename n = n" using n by (simp add: basename_plain plain_name_def)
    then have "safeJoinOutputs e n = Inr (child_path (OUTPUTS_PATH e) n)"
      using n by (simp add: safeJoinOutputs_char [of e n] plain_name_def)
    moreover have "OUTPUTS_PATH e \<noteq> []"
      by (rule OUTPUTS_PATH_canonical [of e]) (simp add: abs_path_def)
    ultimately show ?thesis using prefix_child_path by simp
  qed
  show ?thesis using strip fails plain validate_passwd_default by blast
qed

theorem safeJoin_strips_and_confines_witness:
  "plain_name ''logo.png'' \<and>
   safeJoinOutputs env0 ''logo.png'' = Inr ''/app/outputs/logo.png'' \<and>
   prefix ''/app/outputs'' ''/app/outputs/logo.png'' \<and>
   OUTPUT_DIR env0 = ''./outputs'' \<and>
   validateOutputPath env0 ''../../etc/passwd'' =
     Inl (Error ''Invalid output path: must be within outputs directory'') \<and>
   isl (safeJoinOutputs env0 ''outputs/tmp/..'')"
proof -
  have out: "OUTPUTS_PATH env0 = ''/app/outputs''"
    by (simp add: env0_def OUTPUTS_PATH_def PROJECT_ROOT_def OUTPUT_DIR_def env_or_def
        path_resolve_def process_cwd_def)
  have pn: "plain_name ''logo.png''" by (simp add: plain_name_def)
  have od: "OUTPUT_DIR env0 = ''./outputs''" by (simp add: OUTPUT_DIR_def env0_def env_or_def)
  have bn: "basename ''outputs/tmp/..'' = ''..''" by (simp add: basename_def)
  note t = safeJoin_strips_and_confines [of env0 "''outputs/tmp/..''" "''logo.png''"]
  have rej: "isl (safeJoinOutputs env0 ''outputs/tmp/..'')"
    using t [THEN conjunct2, THEN conjunct1] out bn by simp
  show ?thesis
    using t [THEN conjunct2, THEN conjunct2] rej out pn od
    by (simp add: child_path_def)
qed

lemma run_checks_append:
  "run_checks e m nm (xs @ ys) =
     (case run_checks e m nm xs of (m1, r1) \<Rightarrow>
        (case run_checks e m1 nm ys of (m2, r2) \<Rightarrow> (m2, r1 @ r2)))"
  by (induction xs arbitrary: m) (auto split: sum.splits prod.splits)

lemma checkRateLimit_pass:
  assumes "RATE_LIMIT_MAX e = Some c"
    and "int (length [t\<leftarrow>stamps m nm. now - t < RATE_LIMIT_WINDOW]) < c"
  shows "checkRateLimit e now m nm =
           Inr (m(nm \<mapsto> [t\<leftarrow>stamps m nm. now - t < RATE_LIMIT_WINDOW] @ [now]))"
  using assms by (simp add: checkRateLimit_def num_ge_def)

lemma checkRateLimit_fail:
  assumes "RATE_LIMIT_MAX e = Some c"
    and "c \<le> int (length [t\<leftarrow>stamps m nm. now - t < RATE_LIMIT_WINDOW])"
  shows "checkRateLimit e now m nm =
           Inl (Error (''Rate limit exceeded: max '' @ show_num (Some c) @ '' requests per minute''))"
  using assms by (simp add: checkRateLimit_def num_ge_def)

lemma run_checks_all_pass:
  assumes "RATE_LIMIT_MAX e = Some c"
  shows "stamps m nm = prev \<Longrightarrow>
     \<forall>x\<in>set (prev @ ts). \<forall>y\<in>set ts. y - x < RATE_LIMIT_WINDOW \<Longrightarrow>
     int (length prev + length ts) \<le> c \<Longrightarrow>
     (case run_checks e m nm ts of (m', rs) \<Rightarrow>
        stamps m' nm = prev @ ts \<and> rs = replicate (length ts) True)"
proof (induction ts arbitrary: m prev)
  case Nil
  then show ?case by simp
next
  case (Cons t ts)
  have keep: "[x\<leftarrow>stamps m nm. t - x < RATE_LIMIT_WINDOW] = prev"
    using Cons.prems(1,2) by (auto intro: filter_True)
  have "int (length prev) < c" using Cons.prems(3) by simp
  then have step: "checkRateLimit e t m nm = Inr (m(nm \<mapsto> prev @ [t]))"
    using checkRateLimit_pass [OF assms, where m=m and nm=nm and now=t] keep by simp
  have st: "stamps (m(nm \<mapsto> prev @ [t])) nm = prev @ [t]" by (simp add: stamps_def)
  have w: "\<forall>x\<in>set ((prev @ [t]) @ ts). \<forall>y\<in>set ts. y - x < RATE_LIMIT_WINDOW"
    using Cons.prems(2) by auto
  have l: "int (length (prev @ [t]) + length ts) \<le> c" using Cons.prems(3) by simp
  obtain m' rs where rest: "run_checks e (m(nm \<mapsto> prev @ [t])) nm ts = (m', rs)"
    by (cases "run_checks e (m(nm \<mapsto> prev @ [t])) nm ts")
  note ih = Cons.IH [OF st w l, unfolded rest prod.case]
  then have "stamps m' nm = (prev @ [t]) @ ts" "rs = replicate (length ts) True"
    by blast+
  then show ?case by (simp add: step rest)
qed

lemma filter_shorter:
  "x \<in> set xs \<Longrightarrow> \<not> P x \<Longrightarrow> length (filter P xs) < length xs"
  by (metis filter_id_conv length_filter_le order_neq_le_trans length_filter_less)

section \<open>The rate limiter\<close>

text \<open>
  C3.  With no \<open>RATE_LIMIT_PER_MINUTE\<close> set the capacity is 20.  A check keeps the
  timestamps of the tool that are less than 60000 ms old, fails when as many of them are
  left as the capacity allows, and otherwise stores them together with the new one.
  Hence, starting with nothing recorded for the tool, when as many calls as the capacity
  and one more all lie within 60 seconds of each other, the last of them is the only one
  to fail; a further call made when one of the recorded calls is at least 60 seconds old
  passes again.
\<close>

theorem rate_limit_window:
  "(RATE_LIMIT_PER_MINUTE e = None \<longrightarrow> RATE_LIMIT_MAX e = Some 20) \<and>
   checkRateLimit e now m nm =
     (let valid = [t\<leftarrow>stamps m nm. now - t < 60000]
      in if num_ge (int (length valid)) (RATE_LIMIT_MAX e)
         then Inl (Error (''Rate limit exceeded: max '' @ show_num (RATE_LIMIT_MAX e)
                           @ '' requests per minute''))
         else Inr (m(nm \<mapsto> valid @ [now]))) \<and>
   (RATE_LIMIT_MAX e = Some c \<and> m nm = None \<and> int (length ts) = c \<and>
    (\<forall>x\<in>set (ts @ [now]). \<forall>y\<in>set (ts @ [now]). y - x < 60000) \<and>
    (\<exists>x\<in>set ts. 60000 \<le> later - x)
    \<longrightarrow> snd (run_checks e m nm (ts @ [now, later])) = replicate (length ts) True @ [False, True])"
proof -
  have dflt: "RATE_LIMIT_MAX e = Some 20" if "RATE_LIMIT_PER_MINUTE e = None"
    using that by (simp add: RATE_LIMIT_MAX_def env_or_def parseInt10_def is_space_def digit_val_def)
  have char: "checkRateLimit e now m nm =
     (let valid = [t\<leftarrow>stamps m nm. now - t < 60000]
      in if num_ge (int (length valid)) (RATE_LIMIT_MAX e)
         then Inl (Error (''Rate limit exceeded: max '' @ show_num (RATE_LIMIT_MAX e)
                           @ '' requests per minute''))
         else Inr (m(nm \<mapsto> valid @ [now])))"
    by (simp add: checkRateLimit_def RATE_LIMIT_WINDOW_def)
  have seq: "snd (run_checks e m nm (ts @ [now, later])) = replicate (length ts) True @ [False, True]"
    if cap: "RATE_LIMIT_MAX e = Some c" and fresh: "m nm = None" and len: "int (length ts) = c"
      and win: "\<forall>x\<in>set (ts @ [now]). \<forall>y\<in>set (ts @ [now]). y - x < 60000"
      and old: "\<exists>x\<in>set ts. 60000 \<le> later - x"
  proof -
    obtain m1 r1 where r: "run_checks e m nm ts = (m1, r1)" by (cases "run_checks e m nm ts")
    have "stamps m nm = []" using fresh by (simp add: stamps_def)
    moreover have "\<forall>x\<in>set ([] @ ts). \<forall>y\<in>set ts. y - x < RATE_LIMIT_WINDOW"
      using win by (simp add: RATE_LIMIT_WINDOW_def)
    moreover have "int (length ([]::int list) + length ts) \<le> c" using len by simp
    ultimately have m1: "stamps m1 nm = ts" and r1: "r1 = replicate (length ts) True"
      using run_checks_all_pass [OF cap, of m nm "[]" ts] r by auto
    have "[t\<leftarrow>stamps m1 nm. now - t < RATE_LIMIT_WINDOW] = ts"
      using m1 win by (auto intro: filter_True simp: RATE_LIMIT_WINDOW_def)
    then obtain err where f21: "checkRateLimit e now m1 nm = Inl err"
      using checkRateLimit_fail [OF cap, where m=m1 and nm=nm and now=now] len by simp
    obtain x where x: "x \<in> set ts" "\<not> later - x < RATE_LIMIT_WINDOW"
      using old by (auto simp: RATE_LIMIT_WINDOW_def)
    have "length [t\<leftarrow>stamps m1 nm. later - t < RATE_LIMIT_WINDOW] < length ts"
      using filter_shorter [of x ts "\<lambda>t. later - t < RATE_LIMIT_WINDOW"] x m1 by simp
    then obtain m2 where p22: "checkRateLimit e later m1 nm = Inr m2"
      using checkRateLimit_pass [OF cap, where m=m1 and nm=nm and now=later] len by simp
    show ?thesis
      by (simp add: run_checks_append r r1 f21 p22)
  qed
  show ?thesis using dflt char seq by blast
qed


theorem rate_limit_window_witness:
  "RATE_LIMIT_PER_MINUTE env0 = None \<and> RATE_LIMIT_MAX env0 = Some 20 \<and>
   (Map.empty :: rate_map) ''generate_icon'' = None \<and>
   snd (run_checks env0 Map.empty ''generate_icon''
          ([0, 1000, 2000, 3000, 4000, 5000, 6000, 7000, 8000, 9000, 10000, 11000, 12000,
            13000, 14000, 15000, 16000, 17000, 18000, 19000] @ [59999, 60000]))
     = replicate 20 True @ [False, True]"
proof -
  let ?ts = "[0, 1000, 2000, 3000, 4000, 5000, 6000, 7000, 8000, 9000, 10000, 11000, 12000,
            13000, 14000, 15000, 16000, 17000, 18000, 19000] :: int list"
  have h1: "RATE_LIMIT_PER_MINUTE env0 = None" by (simp add: env0_def)
  have h3: "int (length ?ts) = 20" by simp
  have h4: "\<forall>x\<in>set (?ts @ [59999]). \<forall>y\<in>set (?ts @ [59999]). y - x < 60000" by simp
  have h5: "\<exists>x\<in>set ?ts. 60000 \<le> 60000 - x" by simp
  note t = rate_limit_window [of env0 59999 Map.empty "''generate_icon''" 20 ?ts 60000]
  have h2: "RATE_LIMIT_MAX env0 = Some 20" using t h1 by blast
  have "snd (run_checks env0 Map.empty ''generate_icon'' (?ts @ [59999, 60000]))
          = replicate (length ?ts) True @ [False, True]"
    using t h2 h3 h4 h5 by blast
  then show ?thesis using h1 h2 by (simp add: eval_nat_numeral)
qed

lemma get_prop_Inr: "get_prop v k = Inr x \<Longrightarrow> x = opt_get v k"
  by (cases v) (auto simp: get_prop_def opt_get_def)

lemma first_of_append:
  "first_of (xs @ ys) = (case first_of xs of Some x \<Rightarrow> Some x | None \<Rightarrow> first_of ys)"
  by (cases xs) (auto simp: first_of_def)

lemma scan_parts_first:
  "scan_parts ps = Inr found \<Longrightarrow> found = first_of (concat (map part_images ps))"
proof (induction ps)
  case Nil
  then show ?case by (simp add: first_of_def)
next
  case (Cons part rest)
  then show ?case
    by (auto simp: part_images_def first_of_def split: sum.splits if_splits dest: get_prop_Inr)
qed

lemma scan_parts_chars: "scan_parts (map (\<lambda>c. Str [c]) s) = Inr None"
  by (induction s) (auto simp: get_prop_def opt_get_def truthy_def)

lemma scan_candidates_first:
  "scan_candidates cs = Inr found \<Longrightarrow> found = first_of (concat (map candidate_images cs))"
proof (induction cs)
  case Nil
  then show ?case by (simp add: first_of_def)
next
  case (Cons candidate rest)
  obtain content where c: "get_prop candidate ''content'' = Inr content"
    using Cons.prems by (auto split: sum.splits)
  then have content: "content = opt_get candidate ''content''" by (rule get_prop_Inr)
  define pv where "pv = opt_get content ''parts''"
  show ?case
  proof (cases "truthy pv")
    case False
    then have "elems pv = []" by (cases pv) (auto simp: elems_def truthy_def)
    then have "candidate_images candidate = []"
      by (simp add: candidate_images_def pv_def content)
    moreover have "scan_candidates rest = Inr found"
      using Cons.prems c False by (simp add: pv_def)
    ultimately show ?thesis using Cons.IH by simp
  next
    case True
    then obtain ps where it: "iterate ''candidate.content.parts'' pv = Inr ps"
      using Cons.prems c by (auto simp: pv_def split: sum.splits)
    obtain r where sp: "scan_parts ps = Inr r"
      using Cons.prems c True it by (auto simp: pv_def split: sum.splits)
    have here: "first_of (candidate_images candidate) = r"
    proof (cases pv)
      case (Arr xs)
      then have "ps = xs" using it by (simp add: iterate_def)
      then show ?thesis using scan_parts_first [OF sp] Arr
        by (simp add: candidate_images_def pv_def [symmetric] content [symmetric] elems_def)
    next
      case (Str s)
      then have "ps = map (\<lambda>c. Str [c]) s" using it by (auto simp: iterate_def)
      then have "r = None" using sp scan_parts_chars by simp
      then show ?thesis using Str
        by (simp add: candidate_images_def pv_def [symmetric] content [symmetric] elems_def first_of_def)
    qed (use it in \<open>auto simp: iterate_def\<close>)
    show ?thesis
    proof (cases r)
      case None
      then have "scan_candidates rest = Inr found"
        using Cons.prems c True it sp by (simp add: pv_def)
      then show ?thesis using Cons.IH here None by (simp add: first_of_append)
    next
      case (Some d)
      then have "found = Some d" using Cons.prems c True it sp by (simp add: pv_def)
      then show ?thesis using here Some by (simp add: first_of_append)
    qed
  qed
qed

lemma nested_scan_first:
  assumes "nested_scan response = Inr found"
  shows "found = first_of (inline_images response)"
proof -
  obtain cands where g: "get_prop response ''candidates'' = Inr cands"
    using assms by (auto simp: nested_scan_def split: sum.splits)
  then have cands: "cands = opt_get response ''candidates''" by (rule get_prop_Inr)
  show ?thesis
  proof (cases cands)
    case (Arr cs)
    then have "scan_candidates cs = Inr found" using assms g by (simp add: nested_scan_def)
    then show ?thesis using scan_candidates_first Arr cands
      by (simp add: inline_images_def elems_def)
  qed (use assms g cands in \<open>auto simp: nested_scan_def inline_images_def elems_def first_of_def\<close>)
qed

section \<open>Response parsing\<close>

text \<open>
  C2 (counterexample).  The claim lists five shapes, the last being the first element of
  an \<open>images\<close> array.  For a response that holds only such an array the claimed order
  finds the image, while \<open>parseResponse\<close> fails: it has no such shape.  The older generic
  adapter has it, but does not look at the nested shape at all.
\<close>

theorem parse_five_shapes_counterexample:
  "first_match claimed_shapes images_only = Some (Str ''aGVsbG8='', Base64) \<and>
   parseResponse images_only ''1024x1024'' = Inl parse_failure \<and>
   first_match claimed_shapes nested_only = Some (Str ''aGVsbG8='', Base64) \<and>
   parseResponse_generic nested_only ''1024x1024'' = Inl parse_failure_generic"
  by (simp add: claimed_shapes_def images_only_def nested_only_def shape_nested_def
      shape_string_field_def shape_url_def shape_images_def inline_images_def
      candidate_images_def part_images_def elems_def first_of_def opt_get_def get_prop_def
      truthy_def is_nonempty_string_def tag_by_prefix_def str_of_def parseResponse_def
      parseResponse_generic_def nested_scan_def parseSize_def iterate_def)

text \<open>
  C2 (amended).  Whenever the scan of the candidates runs to its end, \<open>parseResponse\<close>
  returns what the first matching shape finds among four, in this order: the nested
  shape (the first truthy inline data over all candidates and their parts, tagged
  base64), a non-empty string \<open>image\<close>, a non-empty string \<open>data\<close> (both tagged by their
  \<open>http\<close> prefix), a non-empty string \<open>url\<close> (tagged url).  It raises its parse error
  only when none of the four matches.
\<close>

theorem parse_four_shapes:
  assumes "nested_scan response = Inr found"
  shows "parseResponse response sz = parse_by_shapes official_shapes response sz"
proof -
  have f: "found = first_of (inline_images response)" by (rule nested_scan_first [OF assms])
  obtain w h where wh: "parseSize sz = (w, h)" by (cases "parseSize sz")
  show ?thesis
  proof (cases found)
    case None
    then show ?thesis using assms f wh
      by (simp add: parseResponse_def parse_by_shapes_def official_shapes_def shape_nested_def
          shape_string_field_def shape_url_def)
  next
    case (Some d)
    then show ?thesis using assms f wh
      by (simp add: parseResponse_def parse_by_shapes_def official_shapes_def shape_nested_def)
  qed
qed

theorem parse_four_shapes_witness:
  "nested_scan nested_only = Inr (Some (Str ''aGVsbG8='')) \<and>
   parseResponse nested_only ''1024x1024'' = parse_by_shapes official_shapes nested_only ''1024x1024'' \<and>
   nested_scan (Obj [(''data'', Str ''https://cdn.example/i.png'')]) = Inr None \<and>
   parseResponse (Obj [(''data'', Str ''https://cdn.example/i.png'')]) ''1024x1024''
     = parse_by_shapes official_shapes (Obj [(''data'', Str ''https://cdn.example/i.png'')]) ''1024x1024''"
proof -
  have a: "nested_scan nested_only = Inr (Some (Str ''aGVsbG8=''))"
    by (simp add: nested_only_def nested_scan_def get_prop_def opt_get_def truthy_def iterate_def)
  have b: "nested_scan (Obj [(''data'', Str ''https://cdn.example/i.png'')]) = Inr None"
    by (simp add: nested_scan_def get_prop_def)
  show ?thesis using a b parse_four_shapes [OF a] parse_four_shapes [OF b] by simp
qed


section \<open>Aspect ratio\<close>

lemma round_half_even_of_int [simp]: "round_half_even (of_int k) = k"
  by (simp add: round_half_even_def)

lemma round_half_even_mono:
  assumes "a \<le> b"
  shows "round_half_even a \<le> round_half_even b"
proof (cases "\<lfloor>a\<rfloor> = \<lfloor>b\<rfloor>")
  case True
  then show ?thesis using assms by (auto simp: round_half_even_def Let_def)
next
  case False
  then have lt: "\<lfloor>a\<rfloor> + 1 \<le> \<lfloor>b\<rfloor>" using floor_mono [OF assms] by linarith
  have "round_half_even a \<le> \<lfloor>a\<rfloor> + 1" by (auto simp: round_half_even_def Let_def)
  moreover have "\<lfloor>b\<rfloor> \<le> round_half_even b" by (auto simp: round_half_even_def Let_def)
  ultimately show ?thesis using lt by linarith
qed

lemma binade_unit: "1 \<le> x \<Longrightarrow> x < 2 \<Longrightarrow> binade x = 0"
  by (simp add: binade.simps)

lemma binade_lower: "1 \<le> x \<Longrightarrow> 0 \<le> binade x \<and> 2 powi binade x \<le> x"
proof (induction x rule: binade.induct)
  case (1 x)
  show ?case
  proof (cases "2 \<le> x")
    case True
    then have ih: "0 \<le> binade (x / 2) \<and> 2 powi binade (x / 2) \<le> x / 2"
      using 1 by simp
    have b: "binade x = binade (x / 2) + 1" using True by (subst binade.simps) simp
    have "(2::real) powi (binade (x / 2) + 1) = 2 powi binade (x / 2) * 2"
      by (simp add: power_int_add)
    then show ?thesis using ih b by simp
  next
    case False
    then have "binade x = 0" using 1(3) by (simp add: binade_unit)
    then show ?thesis using 1(3) by simp
  qed
qed


lemma round_unit:
  assumes "1 \<le> q" and "q < 2"
  shows "round_to_double False q = Finite (of_int (round_half_even (q * 2 ^ 52)) / 2 ^ 52)"
proof -
  define N where "N = round_half_even (q * 2 ^ 52)"
  have u: "(2::real) powi (max 0 (- 1022) - 52) = 1 / 2 ^ 52"
    by (simp add: power_int_def power_one_over)
  have "q * 2 ^ 52 \<le> of_int (2 ^ 53)" using assms(2) by simp
  then have "N \<le> round_half_even (of_int (2 ^ 53))"
    unfolding N_def by (rule round_half_even_mono)
  then have n: "N \<le> 2 ^ 53" by (simp only: round_half_even_of_int)
  then have "real_of_int N \<le> 2 ^ 53" by (metis of_int_le_iff of_int_numeral of_int_power)
  then have "1 / 2 ^ 52 * real_of_int N \<le> 2" by simp
  moreover have "(2::real) < 2 powi 1024" by (simp add: power_int_def)
  ultimately have small: "\<not> 2 powi 1024 \<le> 1 / 2 ^ 52 * real_of_int N" by linarith
  have "round_to_double False q = Finite (1 / 2 ^ 52 * real_of_int N)"
    unfolding round_to_double_def binade_unit [OF assms] u Let_def
    using small by (simp add: N_def signed_finite_def)
  then show ?thesis by (simp add: N_def)
qed

lemma round_large:
  assumes "2 \<le> q"
  shows "round_to_double False q = PosInfinity \<or> (\<exists>v. 2 \<le> v \<and> round_to_double False q = Finite v)"
proof -
  define e where "e = binade q"
  define N where "N = round_half_even (q / 2 powi (e - 52))"
  have q1: "1 \<le> q" using assms by simp
  have e0: "0 \<le> e" and lo: "2 powi e \<le> q" using binade_lower [OF q1] by (simp_all add: e_def)
  have e1: "1 \<le> e"
  proof (rule ccontr)
    assume "\<not> 1 \<le> e"
    then have "e = 0" using e0 by simp
    moreover have "binade q = binade (q / 2) + 1" using assms by (subst binade.simps) simp
    moreover have "0 \<le> binade (q / 2)" using binade_lower [of "q / 2"] assms by simp
    ultimately show False by (simp add: e_def)
  qed
  have m: "max e (- 1022) = e" using e0 by simp
  have split: "(2::real) powi e = 2 powi (e - 52) * 2 ^ 52"
    using power_int_add [of "2::real" "e - 52" 52] by simp
  have pos: "(0::real) < 2 powi (e - 52)" by simp
  have "of_int (2 ^ 52) \<le> q / 2 powi (e - 52)"
    using lo pos unfolding split by (simp add: field_simps)
  then have "round_half_even (of_int (2 ^ 52)) \<le> N" unfolding N_def by (rule round_half_even_mono)
  then have "2 ^ 52 \<le> N" by (simp only: round_half_even_of_int)
  then have "(2::real) ^ 52 \<le> real_of_int N" by (metis of_int_le_iff of_int_numeral of_int_power)
  then have "2 powi (e - 52) * 2 ^ 52 \<le> 2 powi (e - 52) * real_of_int N"
    using pos by simp
  then have big: "2 powi e \<le> 2 powi (e - 52) * real_of_int N" unfolding split .
  have "(2::real) powi 1 \<le> 2 powi e" using e1 by (intro power_int_increasing) simp_all
  then have v2: "2 \<le> 2 powi (e - 52) * real_of_int N" using big by simp
  have "round_to_double False q =
      (if 2 powi 1024 \<le> 2 powi (e - 52) * real_of_int N then PosInfinity
       else Finite (2 powi (e - 52) * real_of_int N))"
    unfolding round_to_double_def e_def [symmetric] m Let_def N_def
    by (simp add: signed_finite_def signed_infinity_def)
  then show ?thesis using v2 by auto
qed


lemma compare_finite [simp]:
  "strict_eq (Finite a) (Finite b) \<longleftrightarrow> a = b"
  "number_gt (Finite a) (Finite b) \<longleftrightarrow> b < a"
  "number_ge (Finite a) (Finite b) \<longleftrightarrow> b \<le> a"
  "number_le (Finite a) (Finite b) \<longleftrightarrow> a \<le> b"
  by (auto simp: strict_eq_def number_gt_def number_ge_def number_le_def rank_def)

lemma compare_infinity [simp]:
  "strict_eq PosInfinity PosInfinity"
  "\<not> strict_eq PosInfinity (Finite b)"
  "\<not> strict_eq (Finite a) PosInfinity"
  "number_gt PosInfinity (Finite b)"
  "\<not> number_gt (Finite a) PosInfinity"
  "\<not> number_gt PosInfinity PosInfinity"
  "number_ge PosInfinity (Finite b)"
  "\<not> number_le PosInfinity (Finite b)"
  by (auto simp: strict_eq_def number_gt_def number_ge_def number_le_def rank_def)

lemma positive_number:
  "number_gt w (Finite 0) \<longleftrightarrow> w = PosInfinity \<or> (\<exists>x. 0 < x \<and> w = Finite x)"
  by (cases w) (auto simp: number_gt_def rank_def)

lemma number_div_positive:
  "0 < x \<Longrightarrow> 0 < y \<Longrightarrow> number_div (Finite x) (Finite y) = round_to_double False (x / y)"
  by (simp add: number_div_def is_negative_def finite_value_def)

lemma number_div_infinity:
  "0 < y \<Longrightarrow> number_div PosInfinity (Finite y) = PosInfinity"
  by (simp add: number_div_def is_negative_def finite_value_def signed_infinity_def)

lemma double_of_thresholds:
  "double_of 1.4 = Finite (6305039478318694 / 2 ^ 52)"
  "double_of 1.6 = Finite (7205759403792794 / 2 ^ 52)"
  "double_of 1.7 = Finite (7656119366529843 / 2 ^ 52)"
  by (simp_all add: double_of_def round_unit round_half_even_def)

lemma round_half_even_thresholds:
  "round_half_even (1.4 * 2 ^ 52) = 6305039478318694"
  "round_half_even (1.6 * 2 ^ 52) = 7205759403792794"
  "round_half_even (1.7 * 2 ^ 52) = 7656119366529843"
  "round_half_even ((1.4 - 1 / 2 ^ 52) * 2 ^ 52) = 6305039478318693"
  "round_half_even ((1.6 + 1 / 2 ^ 52) * 2 ^ 52) = 7205759403792795"
  "round_half_even ((1.7 - 1 / 2 ^ 52) * 2 ^ 52) = 7656119366529842"
  by (simp_all add: round_half_even_def)


lemma quotient_bands:
  assumes "0 < y" and "y < x"
  defines "r \<equiv> number_div (Finite x) (Finite y)"
  shows "1.4 \<le> x / y \<and> x / y \<le> 1.6
           \<longrightarrow> number_ge r (double_of 1.4) \<and> number_le r (double_of 1.6)"
    and "1.7 \<le> x / y \<longrightarrow> number_ge r (double_of 1.7) \<and> \<not> number_le r (double_of 1.6)"
    and "x / y \<le> 1.4 - 1 / 2 ^ 52
           \<longrightarrow> \<not> number_ge r (double_of 1.4) \<and> \<not> number_ge r (double_of 1.7)"
    and "1.6 + 1 / 2 ^ 52 \<le> x / y \<and> x / y \<le> 1.7 - 1 / 2 ^ 52
           \<longrightarrow> \<not> number_le r (double_of 1.6) \<and> \<not> number_ge r (double_of 1.7)"
proof -
  define q where "q = x / y"
  define N where "N = round_half_even (q * 2 ^ 52)"
  have x: "0 < x" using assms by simp
  have q1: "1 \<le> q" using assms by (simp add: q_def)
  have r: "r = round_to_double False q"
    unfolding r_def q_def using x assms(1) by (rule number_div_positive)
  have unit: "r = Finite (real_of_int N / 2 ^ 52)" if "q < 2"
    unfolding r N_def using q1 that by (rule round_unit)
  have ge: "number_ge r (Finite (real_of_int T / 2 ^ 52)) \<longleftrightarrow> T \<le> N" if "q < 2" for T
    unfolding unit [OF that] by (simp add: divide_le_cancel)
  have le: "number_le r (Finite (real_of_int T / 2 ^ 52)) \<longleftrightarrow> N \<le> T" if "q < 2" for T
    unfolding unit [OF that] by (simp add: divide_le_cancel)
  have up: "round_half_even (a * 2 ^ 52) \<le> N" if "a \<le> q" for a
    unfolding N_def using that by (intro round_half_even_mono) simp
  have down: "N \<le> round_half_even (a * 2 ^ 52)" if "q \<le> a" for a
    unfolding N_def using that by (intro round_half_even_mono) simp
  note th = double_of_thresholds
  have g14: "number_ge r (double_of 1.4) \<longleftrightarrow> 6305039478318694 \<le> N" if "q < 2"
    unfolding th using ge [OF that, of 6305039478318694] by simp
  have g17: "number_ge r (double_of 1.7) \<longleftrightarrow> 7656119366529843 \<le> N" if "q < 2"
    unfolding th using ge [OF that, of 7656119366529843] by simp
  have l16: "number_le r (double_of 1.6) \<longleftrightarrow> N \<le> 7205759403792794" if "q < 2"
    unfolding th using le [OF that, of 7205759403792794] by simp
  have large: "number_ge r (double_of 1.7) \<and> \<not> number_le r (double_of 1.6)" if "2 \<le> q"
  proof -
    from round_large [OF that] consider "r = PosInfinity" | v where "2 \<le> v" "r = Finite v"
      unfolding r by blast
    then show ?thesis
    proof cases
      case 1
      show ?thesis unfolding th 1 by simp
    next
      case 2
      show ?thesis unfolding th 2(2) using 2(1) by simp
    qed
  qed
  show "1.4 \<le> x / y \<and> x / y \<le> 1.6
           \<longrightarrow> number_ge r (double_of 1.4) \<and> number_le r (double_of 1.6)"
  proof
    assume a: "1.4 \<le> x / y \<and> x / y \<le> 1.6"
    then have lt: "q < 2" unfolding q_def by linarith
    have "6305039478318694 \<le> N"
      using up [of "1.4"] a by (simp only: q_def round_half_even_thresholds)
    moreover have "N \<le> 7205759403792794"
      using down [of "1.6"] a by (simp only: q_def round_half_even_thresholds)
    ultimately show "number_ge r (double_of 1.4) \<and> number_le r (double_of 1.6)"
      using g14 [OF lt] l16 [OF lt] by blast
  qed
  show "1.7 \<le> x / y \<longrightarrow> number_ge r (double_of 1.7) \<and> \<not> number_le r (double_of 1.6)"
  proof
    assume a: "1.7 \<le> x / y"
    show "number_ge r (double_of 1.7) \<and> \<not> number_le r (double_of 1.6)"
    proof (cases "q < 2")
      case True
      have "7656119366529843 \<le> N"
        using up [of "1.7"] a by (simp only: q_def round_half_even_thresholds)
      then show ?thesis using g17 [OF True] l16 [OF True] by linarith
    next
      case False
      then show ?thesis using large by simp
    qed
  qed
  show "x / y \<le> 1.4 - 1 / 2 ^ 52
           \<longrightarrow> \<not> number_ge r (double_of 1.4) \<and> \<not> number_ge r (double_of 1.7)"
  proof
    assume a: "x / y \<le> 1.4 - 1 / 2 ^ 52"
    have "(0::real) < 1 / 2 ^ 52" by simp
    then have lt: "q < 2" using a unfolding q_def by linarith
    have "N \<le> 6305039478318693"
      using down [of "1.4 - 1 / 2 ^ 52"] a
      by (simp only: q_def round_half_even_thresholds)
    then show "\<not> number_ge r (double_of 1.4) \<and> \<not> number_ge r (double_of 1.7)"
      using g14 [OF lt] g17 [OF lt] by linarith
  qed
  show "1.6 + 1 / 2 ^ 52 \<le> x / y \<and> x / y \<le> 1.7 - 1 / 2 ^ 52
           \<longrightarrow> \<not> number_le r (double_of 1.6) \<and> \<not> number_ge r (double_of 1.7)"
  proof
    assume a: "1.6 + 1 / 2 ^ 52 \<le> x / y \<and> x / y \<le> 1.7 - 1 / 2 ^ 52"
    have "(0::real) < 1 / 2 ^ 52" by simp
    then have lt: "q < 2" using a unfolding q_def by linarith
    have "7205759403792795 \<le> N"
      using up [of "1.6 + 1 / 2 ^ 52"] a
      by (simp only: q_def round_half_even_thresholds)
    moreover have "N \<le> 7656119366529842"
      using down [of "1.7 - 1 / 2 ^ 52"] a
      by (simp only: q_def round_half_even_thresholds)
    ultimately show "\<not> number_le r (double_of 1.6) \<and> \<not> number_ge r (double_of 1.7)"
      using g17 [OF lt] l16 [OF lt] by linarith
  qed
qed


lemma gt_not_eq: "number_gt a b \<Longrightarrow> \<not> strict_eq a b"
  by (auto simp: number_gt_def strict_eq_def)

lemma gt_asym: "number_gt a b \<Longrightarrow> \<not> number_gt b a"
  by (auto simp: number_gt_def)

lemma landscape:
  assumes "number_gt w h"
  shows "getAspectRatio w h =
     (if number_ge (number_div w h) (double_of 1.4) \<and> number_le (number_div w h) (double_of 1.6)
      then ''3:2''
      else if number_ge (number_div w h) (double_of 1.7) then ''16:9'' else ''4:3'')"
proof -
  have ne: "strict_eq w h = False" and gt: "number_gt w h = True"
    using assms gt_not_eq by simp_all
  show ?thesis unfolding getAspectRatio_def Let_def ne gt by (simp only: if_False if_True)
qed

lemma portrait:
  assumes "number_gt h w"
  shows "getAspectRatio w h =
     (if number_ge (number_div h w) (double_of 1.4) \<and> number_le (number_div h w) (double_of 1.6)
      then ''2:3''
      else if number_ge (number_div h w) (double_of 1.7) then ''9:16'' else ''3:4'')"
proof -
  have "\<not> strict_eq h w" using assms by (rule gt_not_eq)
  then have ne: "strict_eq w h = False" by (auto simp: strict_eq_def)
  have gt: "number_gt w h = False" using gt_asym [OF assms] by simp
  show ?thesis unfolding getAspectRatio_def Let_def ne gt by (simp only: if_False)
qed

lemma wide_not_narrow:
  "number_ge r (double_of 1.7) \<Longrightarrow> \<not> number_le r (double_of 1.6)"
  unfolding double_of_thresholds
  by (cases r) (auto simp: number_ge_def number_le_def number_gt_def strict_eq_def rank_def)

lemma positive_trichotomy:
  assumes "number_gt w (Finite 0)" and "number_gt h (Finite 0)"
  shows "strict_eq w h \<or> number_gt w h \<or> number_gt h w"
  using assms unfolding positive_number by auto

lemma whole_gap:
  fixes a b :: nat
  assumes "0 < b" and "b \<le> 2 ^ 48"
    and "\<not> (1.4 \<le> real a / real b \<and> real a / real b \<le> 1.6)" and "\<not> 1.7 \<le> real a / real b"
  shows "real a / real b \<le> 1.4 - 1 / 2 ^ 52 \<or>
         (1.6 + 1 / 2 ^ 52 \<le> real a / real b \<and> real a / real b \<le> 1.7 - 1 / 2 ^ 52)"
proof -
  have b: "(0::real) < real b" using assms(1) by simp
  have bb: "b \<le> 281474976710656" using assms(2) by simp
  have low: "real a / real b \<le> 1.4 - 1 / 2 ^ 52" if "real a / real b < 1.4"
  proof -
    have "real a < 1.4 * real b" using that b by (simp add: pos_divide_less_eq)
    then have "real (10 * a) < real (14 * b)" by simp
    then have "10 * a < 14 * b" by (simp only: of_nat_less_iff)
    then have "10 * a + 1 \<le> 14 * b" by simp
    then have "4503599627370496 * (10 * a) + 10 * b \<le> 4503599627370496 * (14 * b)"
      using bb by linarith
    then have "real (4503599627370496 * (10 * a) + 10 * b) \<le> real (4503599627370496 * (14 * b))"
      by (simp only: of_nat_le_iff)
    then have "real a \<le> (1.4 - 1 / 2 ^ 52) * real b" by simp
    then show ?thesis using b by (simp only: pos_divide_le_eq)
  qed
  have mid1: "1.6 + 1 / 2 ^ 52 \<le> real a / real b" if "1.6 < real a / real b"
  proof -
    have "1.6 * real b < real a" using that b by (simp add: pos_less_divide_eq)
    then have "real (16 * b) < real (10 * a)" by simp
    then have "16 * b < 10 * a" by (simp only: of_nat_less_iff)
    then have "16 * b + 1 \<le> 10 * a" by simp
    then have "4503599627370496 * (16 * b) + 10 * b \<le> 4503599627370496 * (10 * a)"
      using bb by linarith
    then have "real (4503599627370496 * (16 * b) + 10 * b) \<le> real (4503599627370496 * (10 * a))"
      by (simp only: of_nat_le_iff)
    then have "(1.6 + 1 / 2 ^ 52) * real b \<le> real a" by simp
    then show ?thesis using b by (simp only: pos_le_divide_eq)
  qed
  have mid2: "real a / real b \<le> 1.7 - 1 / 2 ^ 52" if "real a / real b < 1.7"
  proof -
    have "real a < 1.7 * real b" using that b by (simp add: pos_divide_less_eq)
    then have "real (10 * a) < real (17 * b)" by simp
    then have "10 * a < 17 * b" by (simp only: of_nat_less_iff)
    then have "10 * a + 1 \<le> 17 * b" by simp
    then have "4503599627370496 * (10 * a) + 10 * b \<le> 4503599627370496 * (17 * b)"
      using bb by linarith
    then have "real (4503599627370496 * (10 * a) + 10 * b) \<le> real (4503599627370496 * (17 * b))"
      by (simp only: of_nat_le_iff)
    then have "real a \<le> (1.7 - 1 / 2 ^ 52) * real b" by simp
    then show ?thesis using b by (simp only: pos_divide_le_eq)
  qed
  show ?thesis using assms(3,4) low mid1 mid2 by linarith
qed


lemma double_of_sizes:
  "double_of 1024 = Finite 1024" "double_of 1536 = Finite 1536" "double_of 1.75 = Finite 1.75"
  by (simp_all add: double_of_def round_to_double_def binade.simps round_half_even_def
      signed_finite_def power_int_def power_one_over Let_def)

lemma exact_bands:
  assumes "0 < x" and "0 < y"
  shows "x = y \<longrightarrow> getAspectRatio (Finite x) (Finite y) = ''1:1''"
    and "y < x \<and> 1.4 \<le> x / y \<and> x / y \<le> 1.6 \<longrightarrow> getAspectRatio (Finite x) (Finite y) = ''3:2''"
    and "y < x \<and> 1.7 \<le> x / y \<longrightarrow> getAspectRatio (Finite x) (Finite y) = ''16:9''"
    and "y < x \<and> (x / y \<le> 1.4 - 1 / 2 ^ 52 \<or> 1.6 + 1 / 2 ^ 52 \<le> x / y \<and> x / y \<le> 1.7 - 1 / 2 ^ 52)
           \<longrightarrow> getAspectRatio (Finite x) (Finite y) = ''4:3''"
    and "x < y \<and> 1.4 \<le> y / x \<and> y / x \<le> 1.6 \<longrightarrow> getAspectRatio (Finite x) (Finite y) = ''2:3''"
    and "x < y \<and> 1.7 \<le> y / x \<longrightarrow> getAspectRatio (Finite x) (Finite y) = ''9:16''"
    and "x < y \<and> (y / x \<le> 1.4 - 1 / 2 ^ 52 \<or> 1.6 + 1 / 2 ^ 52 \<le> y / x \<and> y / x \<le> 1.7 - 1 / 2 ^ 52)
           \<longrightarrow> getAspectRatio (Finite x) (Finite y) = ''3:4''"
proof -
  show "x = y \<longrightarrow> getAspectRatio (Finite x) (Finite y) = ''1:1''"
    by (simp add: getAspectRatio_def)
  have l: "getAspectRatio (Finite x) (Finite y) =
     (if number_ge (number_div (Finite x) (Finite y)) (double_of 1.4) \<and>
         number_le (number_div (Finite x) (Finite y)) (double_of 1.6)
      then ''3:2''
      else if number_ge (number_div (Finite x) (Finite y)) (double_of 1.7) then ''16:9'' else ''4:3'')"
    if "y < x"
    using that by (intro landscape) simp
  have p: "getAspectRatio (Finite x) (Finite y) =
     (if number_ge (number_div (Finite y) (Finite x)) (double_of 1.4) \<and>
         number_le (number_div (Finite y) (Finite x)) (double_of 1.6)
      then ''2:3''
      else if number_ge (number_div (Finite y) (Finite x)) (double_of 1.7) then ''9:16'' else ''3:4'')"
    if "x < y"
    using that by (intro portrait) simp
  note ql = quotient_bands [OF assms(2)]
  note qp = quotient_bands [OF assms(1)]
  show "y < x \<and> 1.4 \<le> x / y \<and> x / y \<le> 1.6 \<longrightarrow> getAspectRatio (Finite x) (Finite y) = ''3:2''"
    using l ql(1) by (metis (full_types))
  show "y < x \<and> 1.7 \<le> x / y \<longrightarrow> getAspectRatio (Finite x) (Finite y) = ''16:9''"
    using l ql(2) by (metis (full_types))
  show "y < x \<and> (x / y \<le> 1.4 - 1 / 2 ^ 52 \<or> 1.6 + 1 / 2 ^ 52 \<le> x / y \<and> x / y \<le> 1.7 - 1 / 2 ^ 52)
           \<longrightarrow> getAspectRatio (Finite x) (Finite y) = ''4:3''"
    using l ql(3) ql(4) by (metis (full_types))
  show "x < y \<and> 1.4 \<le> y / x \<and> y / x \<le> 1.6 \<longrightarrow> getAspectRatio (Finite x) (Finite y) = ''2:3''"
    using p qp(1) by (metis (full_types))
  show "x < y \<and> 1.7 \<le> y / x \<longrightarrow> getAspectRatio (Finite x) (Finite y) = ''9:16''"
    using p qp(2) by (metis (full_types))
  show "x < y \<and> (y / x \<le> 1.4 - 1 / 2 ^ 52 \<or> 1.6 + 1 / 2 ^ 52 \<le> y / x \<and> y / x \<le> 1.7 - 1 / 2 ^ 52)
           \<longrightarrow> getAspectRatio (Finite x) (Finite y) = ''3:4''"
    using p qp(3) qp(4) by (metis (full_types))
qed


lemma rounded_quotient_example:
  "(7142083115184940::real) / 5101487939417815 < 1.4"
  "number_div (Finite 7142083115184940) (Finite 5101487939417815) = double_of 1.4"
  "getAspectRatio (Finite 7142083115184940) (Finite 5101487939417815) = ''3:2''"
proof -
  show "(7142083115184940::real) / 5101487939417815 < 1.4" by simp
  have u: "(1::real) \<le> 7142083115184940 / 5101487939417815"
    "(7142083115184940::real) / 5101487939417815 < 2" by simp_all
  have n: "round_half_even (7142083115184940 / 5101487939417815 * 2 ^ 52) = 6305039478318694"
    by (simp add: round_half_even_def)
  show d: "number_div (Finite 7142083115184940) (Finite 5101487939417815) = double_of 1.4"
    unfolding double_of_thresholds
    by (simp only: number_div_positive round_unit [OF u] n) simp
  have "number_gt (Finite 7142083115184940) (Finite 5101487939417815)" by simp
  from landscape [OF this] show
    "getAspectRatio (Finite 7142083115184940) (Finite 5101487939417815) = ''3:2''"
    unfolding d unfolding double_of_thresholds by simp
qed

text \<open>
  C6.  For positive width and height the tag is \<open>1:1\<close> when they are equal.  For a
  landscape size with ratio \<open>r = width / height\<close>, the quotient as the program computes
  it, the tag is \<open>3:2\<close> when \<open>1.4 \<le> r \<le> 1.6\<close>, \<open>16:9\<close> when \<open>r \<ge> 1.7\<close>, and \<open>4:3\<close>
  otherwise; a portrait size mirrors this with \<open>r = height / width\<close> and the tags
  \<open>2:3\<close>, \<open>9:16\<close>, \<open>3:4\<close>.  One of the three cases always applies.  A landscape ratio
  of exactly 1.75 gives \<open>16:9\<close>, and 1024 by 1024 gives \<open>1:1\<close>, 1536 by 1024 gives
  \<open>3:2\<close>, 1024 by 1536 gives \<open>2:3\<close>.

  The computed quotient is the exact one rounded to a double, and 1.4, 1.6 and 1.7 are
  the doubles nearest to these decimals.  In terms of the exact quotient of finite
  dimensions: a quotient within \<open>[1.4, 1.6]\<close> gives \<open>3:2\<close> (\<open>2:3\<close>), one of at least 1.7
  gives \<open>16:9\<close> (\<open>9:16\<close>), and one that stays \<open>2^-52\<close> away from these bands gives
  \<open>4:3\<close> (\<open>3:4\<close>); for whole dimensions up to \<open>2^48\<close> every quotient outside the bands
  is that far away, so there the exact quotient decides the tag.  Closer to a band the
  rounding decides: the last line is a size whose exact quotient is below 1.4 and
  whose computed quotient is the double 1.4.
\<close>

theorem aspect_ratio_bands:
  assumes "number_gt w (Finite 0)" and "number_gt h (Finite 0)"
  shows "(strict_eq w h \<longrightarrow> getAspectRatio w h = ''1:1'') \<and>
         (number_gt w h \<and> number_ge (number_div w h) (double_of 1.4) \<and>
            number_le (number_div w h) (double_of 1.6) \<longrightarrow> getAspectRatio w h = ''3:2'') \<and>
         (number_gt w h \<and> number_ge (number_div w h) (double_of 1.7)
            \<longrightarrow> getAspectRatio w h = ''16:9'') \<and>
         (number_gt w h \<and> \<not> (number_ge (number_div w h) (double_of 1.4) \<and>
            number_le (number_div w h) (double_of 1.6)) \<and>
            \<not> number_ge (number_div w h) (double_of 1.7) \<longrightarrow> getAspectRatio w h = ''4:3'') \<and>
         (number_gt h w \<and> number_ge (number_div h w) (double_of 1.4) \<and>
            number_le (number_div h w) (double_of 1.6) \<longrightarrow> getAspectRatio w h = ''2:3'') \<and>
         (number_gt h w \<and> number_ge (number_div h w) (double_of 1.7)
            \<longrightarrow> getAspectRatio w h = ''9:16'') \<and>
         (number_gt h w \<and> \<not> (number_ge (number_div h w) (double_of 1.4) \<and>
            number_le (number_div h w) (double_of 1.6)) \<and>
            \<not> number_ge (number_div h w) (double_of 1.7) \<longrightarrow> getAspectRatio w h = ''3:4'') \<and>
         (strict_eq w h \<or> number_gt w h \<or> number_gt h w) \<and>
         (number_gt w h \<and> number_div w h = double_of 1.75 \<longrightarrow> getAspectRatio w h = ''16:9'') \<and>
         (w = Finite x \<and> h = Finite y \<longrightarrow>
            (x = y \<longrightarrow> getAspectRatio w h = ''1:1'') \<and>
            (y < x \<and> 1.4 \<le> x / y \<and> x / y \<le> 1.6 \<longrightarrow> getAspectRatio w h = ''3:2'') \<and>
            (y < x \<and> 1.7 \<le> x / y \<longrightarrow> getAspectRatio w h = ''16:9'') \<and>
            (y < x \<and> (x / y \<le> 1.4 - 1 / 2 ^ 52 \<or>
                       1.6 + 1 / 2 ^ 52 \<le> x / y \<and> x / y \<le> 1.7 - 1 / 2 ^ 52)
               \<longrightarrow> getAspectRatio w h = ''4:3'') \<and>
            (x < y \<and> 1.4 \<le> y / x \<and> y / x \<le> 1.6 \<longrightarrow> getAspectRatio w h = ''2:3'') \<and>
            (x < y \<and> 1.7 \<le> y / x \<longrightarrow> getAspectRatio w h = ''9:16'') \<and>
            (x < y \<and> (y / x \<le> 1.4 - 1 / 2 ^ 52 \<or>
                       1.6 + 1 / 2 ^ 52 \<le> y / x \<and> y / x \<le> 1.7 - 1 / 2 ^ 52)
               \<longrightarrow> getAspectRatio w h = ''3:4'') \<and>
            (x / y = 1.75 \<longrightarrow> getAspectRatio w h = ''16:9'')) \<and>
         (w = Finite (real a) \<and> h = Finite (real b) \<and> a \<le> 2 ^ 48 \<and> b \<le> 2 ^ 48 \<longrightarrow>
            (b < a \<and> \<not> (1.4 \<le> real a / real b \<and> real a / real b \<le> 1.6) \<and>
               \<not> 1.7 \<le> real a / real b \<longrightarrow> getAspectRatio w h = ''4:3'') \<and>
            (a < b \<and> \<not> (1.4 \<le> real b / real a \<and> real b / real a \<le> 1.6) \<and>
               \<not> 1.7 \<le> real b / real a \<longrightarrow> getAspectRatio w h = ''3:4'')) \<and>
         getAspectRatio (double_of 1024) (double_of 1024) = ''1:1'' \<and>
         getAspectRatio (double_of 1536) (double_of 1024) = ''3:2'' \<and>
         getAspectRatio (double_of 1024) (double_of 1536) = ''2:3'' \<and>
         getAspectRatio (Finite 7142083115184940) (Finite 5101487939417815) = ''3:2''"
proof -
  note l = landscape [where w = w and h = h]
  note p = portrait [where w = w and h = h]
  have c1: "strict_eq w h \<longrightarrow> getAspectRatio w h = ''1:1''"
    by (simp add: getAspectRatio_def)
  have c2: "number_gt w h \<and> number_ge (number_div w h) (double_of 1.4) \<and>
            number_le (number_div w h) (double_of 1.6) \<longrightarrow> getAspectRatio w h = ''3:2''"
    using l by (metis (full_types))
  have c3: "number_gt w h \<and> number_ge (number_div w h) (double_of 1.7)
            \<longrightarrow> getAspectRatio w h = ''16:9''"
    using l wide_not_narrow [of "number_div w h"] by (metis (full_types))
  have c4: "number_gt w h \<and> \<not> (number_ge (number_div w h) (double_of 1.4) \<and>
            number_le (number_div w h) (double_of 1.6)) \<and>
            \<not> number_ge (number_div w h) (double_of 1.7) \<longrightarrow> getAspectRatio w h = ''4:3''"
    using l by (metis (full_types))
  have c5: "number_gt h w \<and> number_ge (number_div h w) (double_of 1.4) \<and>
            number_le (number_div h w) (double_of 1.6) \<longrightarrow> getAspectRatio w h = ''2:3''"
    using p by (metis (full_types))
  have c6: "number_gt h w \<and> number_ge (number_div h w) (double_of 1.7)
            \<longrightarrow> getAspectRatio w h = ''9:16''"
    using p wide_not_narrow [of "number_div h w"] by (metis (full_types))
  have c7: "number_gt h w \<and> \<not> (number_ge (number_div h w) (double_of 1.4) \<and>
            number_le (number_div h w) (double_of 1.6)) \<and>
            \<not> number_ge (number_div h w) (double_of 1.7) \<longrightarrow> getAspectRatio w h = ''3:4''"
    using p by (metis (full_types))
  have c8: "strict_eq w h \<or> number_gt w h \<or> number_gt h w"
    using assms by (rule positive_trichotomy)
  have c9: "number_gt w h \<and> number_div w h = double_of 1.75 \<longrightarrow> getAspectRatio w h = ''16:9''"
  proof
    assume a: "number_gt w h \<and> number_div w h = double_of 1.75"
    have "number_ge (double_of 1.75) (double_of 1.7)"
      unfolding double_of_sizes double_of_thresholds by simp
    then show "getAspectRatio w h = ''16:9''" using a c3 by simp
  qed
  have c10: "w = Finite x \<and> h = Finite y \<longrightarrow>
            (x = y \<longrightarrow> getAspectRatio w h = ''1:1'') \<and>
            (y < x \<and> 1.4 \<le> x / y \<and> x / y \<le> 1.6 \<longrightarrow> getAspectRatio w h = ''3:2'') \<and>
            (y < x \<and> 1.7 \<le> x / y \<longrightarrow> getAspectRatio w h = ''16:9'') \<and>
            (y < x \<and> (x / y \<le> 1.4 - 1 / 2 ^ 52 \<or>
                       1.6 + 1 / 2 ^ 52 \<le> x / y \<and> x / y \<le> 1.7 - 1 / 2 ^ 52)
               \<longrightarrow> getAspectRatio w h = ''4:3'') \<and>
            (x < y \<and> 1.4 \<le> y / x \<and> y / x \<le> 1.6 \<longrightarrow> getAspectRatio w h = ''2:3'') \<and>
            (x < y \<and> 1.7 \<le> y / x \<longrightarrow> getAspectRatio w h = ''9:16'') \<and>
            (x < y \<and> (y / x \<le> 1.4 - 1 / 2 ^ 52 \<or>
                       1.6 + 1 / 2 ^ 52 \<le> y / x \<and> y / x \<le> 1.7 - 1 / 2 ^ 52)
               \<longrightarrow> getAspectRatio w h = ''3:4'') \<and>
            (x / y = 1.75 \<longrightarrow> getAspectRatio w h = ''16:9'')"
  proof
    assume wh: "w = Finite x \<and> h = Finite y"
    then have x: "0 < x" and y: "0 < y" using assms by simp_all
    note e = exact_bands [OF x y]
    have r: "x / y = 1.75 \<longrightarrow> getAspectRatio (Finite x) (Finite y) = ''16:9''"
    proof
      assume q: "x / y = 1.75"
      then have "x = 1.75 * y" using y by (simp add: field_simps)
      then have "y < x" using y by simp
      moreover have "1.7 \<le> x / y" unfolding q by simp
      ultimately show "getAspectRatio (Finite x) (Finite y) = ''16:9''" using e(3) by blast
    qed
    show "(x = y \<longrightarrow> getAspectRatio w h = ''1:1'') \<and>
            (y < x \<and> 1.4 \<le> x / y \<and> x / y \<le> 1.6 \<longrightarrow> getAspectRatio w h = ''3:2'') \<and>
            (y < x \<and> 1.7 \<le> x / y \<longrightarrow> getAspectRatio w h = ''16:9'') \<and>
            (y < x \<and> (x / y \<le> 1.4 - 1 / 2 ^ 52 \<or>
                       1.6 + 1 / 2 ^ 52 \<le> x / y \<and> x / y \<le> 1.7 - 1 / 2 ^ 52)
               \<longrightarrow> getAspectRatio w h = ''4:3'') \<and>
            (x < y \<and> 1.4 \<le> y / x \<and> y / x \<le> 1.6 \<longrightarrow> getAspectRatio w h = ''2:3'') \<and>
            (x < y \<and> 1.7 \<le> y / x \<longrightarrow> getAspectRatio w h = ''9:16'') \<and>
            (x < y \<and> (y / x \<le> 1.4 - 1 / 2 ^ 52 \<or>
                       1.6 + 1 / 2 ^ 52 \<le> y / x \<and> y / x \<le> 1.7 - 1 / 2 ^ 52)
               \<longrightarrow> getAspectRatio w h = ''3:4'') \<and>
            (x / y = 1.75 \<longrightarrow> getAspectRatio w h = ''16:9'')"
      unfolding wh [THEN conjunct1] wh [THEN conjunct2]
      by (intro conjI e r)
  qed
  have c11: "w = Finite (real a) \<and> h = Finite (real b) \<and> a \<le> 2 ^ 48 \<and> b \<le> 2 ^ 48 \<longrightarrow>
            (b < a \<and> \<not> (1.4 \<le> real a / real b \<and> real a / real b \<le> 1.6) \<and>
               \<not> 1.7 \<le> real a / real b \<longrightarrow> getAspectRatio w h = ''4:3'') \<and>
            (a < b \<and> \<not> (1.4 \<le> real b / real a \<and> real b / real a \<le> 1.6) \<and>
               \<not> 1.7 \<le> real b / real a \<longrightarrow> getAspectRatio w h = ''3:4'')"
  proof
    assume wh: "w = Finite (real a) \<and> h = Finite (real b) \<and> a \<le> 2 ^ 48 \<and> b \<le> 2 ^ 48"
    then have a: "0 < a" and b: "0 < b" using assms by simp_all
    then have ra: "0 < real a" and rb: "0 < real b" by simp_all
    note e = exact_bands [OF ra rb]
    have g1: "b < a \<and> \<not> (1.4 \<le> real a / real b \<and> real a / real b \<le> 1.6) \<and>
               \<not> 1.7 \<le> real a / real b \<longrightarrow> getAspectRatio (Finite (real a)) (Finite (real b)) = ''4:3''"
    proof
      assume h: "b < a \<and> \<not> (1.4 \<le> real a / real b \<and> real a / real b \<le> 1.6) \<and>
               \<not> 1.7 \<le> real a / real b"
      have "real a / real b \<le> 1.4 - 1 / 2 ^ 52 \<or>
         (1.6 + 1 / 2 ^ 52 \<le> real a / real b \<and> real a / real b \<le> 1.7 - 1 / 2 ^ 52)"
        using whole_gap [OF b, of a] wh h by blast
      moreover have "real b < real a" using h by simp
      ultimately show "getAspectRatio (Finite (real a)) (Finite (real b)) = ''4:3''"
        using e(4) by blast
    qed
    have g2: "a < b \<and> \<not> (1.4 \<le> real b / real a \<and> real b / real a \<le> 1.6) \<and>
               \<not> 1.7 \<le> real b / real a \<longrightarrow> getAspectRatio (Finite (real a)) (Finite (real b)) = ''3:4''"
    proof
      assume h: "a < b \<and> \<not> (1.4 \<le> real b / real a \<and> real b / real a \<le> 1.6) \<and>
               \<not> 1.7 \<le> real b / real a"
      have "real b / real a \<le> 1.4 - 1 / 2 ^ 52 \<or>
         (1.6 + 1 / 2 ^ 52 \<le> real b / real a \<and> real b / real a \<le> 1.7 - 1 / 2 ^ 52)"
        using whole_gap [OF a, of b] wh h by blast
      moreover have "real a < real b" using h by simp
      ultimately show "getAspectRatio (Finite (real a)) (Finite (real b)) = ''3:4''"
        using e(7) by blast
    qed
    show "(b < a \<and> \<not> (1.4 \<le> real a / real b \<and> real a / real b \<le> 1.6) \<and>
               \<not> 1.7 \<le> real a / real b \<longrightarrow> getAspectRatio w h = ''4:3'') \<and>
            (a < b \<and> \<not> (1.4 \<le> real b / real a \<and> real b / real a \<le> 1.6) \<and>
               \<not> 1.7 \<le> real b / real a \<longrightarrow> getAspectRatio w h = ''3:4'')"
      unfolding wh [THEN conjunct1] wh [THEN conjunct2, THEN conjunct1]
      by (intro conjI g1 g2)
  qed
  have p1024: "(0::real) < 1024" and p1536: "(0::real) < 1536" by simp_all
  have f1: "getAspectRatio (double_of 1024) (double_of 1024) = ''1:1''"
    unfolding double_of_sizes using exact_bands(1) [OF p1024 p1024] by simp
  have f2: "getAspectRatio (double_of 1536) (double_of 1024) = ''3:2''"
    unfolding double_of_sizes using exact_bands(2) [OF p1536 p1024] by simp
  have f3: "getAspectRatio (double_of 1024) (double_of 1536) = ''2:3''"
    unfolding double_of_sizes using exact_bands(5) [OF p1024 p1536] by simp
  show ?thesis
    by (intro conjI c1 c2 c3 c4 c5 c6 c7 c8 c9 c10 c11 f1 f2 f3 rounded_quotient_example(3))
qed


theorem aspect_ratio_bands_witness:
  "number_gt (Finite 1536) (Finite 0) \<and> number_gt (Finite 1024) (Finite 0) \<and>
   number_div (Finite 1536) (Finite 1024) = Finite 1.5 \<and>
   getAspectRatio (Finite 1536) (Finite 1024) = ''3:2'' \<and>
   getAspectRatio (Finite 1024) (Finite 1536) = ''2:3'' \<and>
   getAspectRatio (Finite 512) (Finite 512) = ''1:1'' \<and>
   number_div (Finite 1792) (Finite 1024) = double_of 1.75 \<and>
   getAspectRatio (Finite 1792) (Finite 1024) = ''16:9'' \<and>
   getAspectRatio (Finite 1024) (Finite 1792) = ''9:16'' \<and>
   getAspectRatio (Finite 1280) (Finite 1024) = ''4:3'' \<and>
   getAspectRatio (Finite 1024) (Finite 1280) = ''3:4'' \<and>
   getAspectRatio (Finite 1690) (Finite 1024) = ''4:3'' \<and>
   number_gt PosInfinity (Finite 0) \<and>
   getAspectRatio PosInfinity (Finite 1024) = ''16:9''"
proof -
  have d1: "number_div (Finite 1536) (Finite 1024) = Finite 1.5"
    by (simp add: number_div_positive round_unit round_half_even_def)
  have d2: "number_div (Finite 1792) (Finite 1024) = double_of 1.75"
    unfolding double_of_sizes by (simp add: number_div_positive round_unit round_half_even_def)
  have d3: "number_div PosInfinity (Finite 1024) = PosInfinity"
    by (simp add: number_div_infinity)
  have ge: "number_ge (Finite 1.5) (double_of 1.4)" "number_le (Finite 1.5) (double_of 1.6)"
    "number_ge PosInfinity (double_of 1.7)"
    unfolding double_of_thresholds by simp_all
  note t1 = aspect_ratio_bands [of "Finite 1536" "Finite 1024" 1536 1024 1536 1024]
  note t2 = aspect_ratio_bands [of "Finite 1024" "Finite 1536" 1024 1536 1024 1536]
  note t3 = aspect_ratio_bands [of "Finite 512" "Finite 512" 512 512 512 512]
  note t4 = aspect_ratio_bands [of "Finite 1792" "Finite 1024" 1792 1024 1792 1024]
  note t5 = aspect_ratio_bands [of "Finite 1024" "Finite 1792" 1024 1792 1024 1792]
  note t6 = aspect_ratio_bands [of "Finite 1280" "Finite 1024" 1280 1024 1280 1024]
  note t7 = aspect_ratio_bands [of "Finite 1024" "Finite 1280" 1024 1280 1024 1280]
  note t8 = aspect_ratio_bands [of "Finite 1690" "Finite 1024" 1690 1024 1690 1024]
  note t9 = aspect_ratio_bands [of PosInfinity "Finite 1024" 0 0 0 0]
  have a1: "getAspectRatio (Finite 1536) (Finite 1024) = ''3:2''"
    using t1 d1 ge by simp
  have a2: "getAspectRatio (Finite 1024) (Finite 1536) = ''2:3''"
    using t2 by simp
  have a3: "getAspectRatio (Finite 512) (Finite 512) = ''1:1''"
    using t3 by simp
  have a4: "getAspectRatio (Finite 1792) (Finite 1024) = ''16:9''"
    using t4 d2 by simp
  have a5: "getAspectRatio (Finite 1024) (Finite 1792) = ''9:16''"
    using t5 by simp
  have a6: "getAspectRatio (Finite 1280) (Finite 1024) = ''4:3''"
    using t6 by simp
  have a7: "getAspectRatio (Finite 1024) (Finite 1280) = ''3:4''"
    using t7 by simp
  have a8: "getAspectRatio (Finite 1690) (Finite 1024) = ''4:3''"
    using t8 by simp
  have a9: "getAspectRatio PosInfinity (Finite 1024) = ''16:9''"
    using t9 d3 ge by simp
  show ?thesis using d1 a1 a2 a3 d2 a4 a5 a6 a7 a8 a9 by simp
qed

lemma io_bind_throw [simp]: "io_bind (es, Inl err) f = (es, Inl err)"
  by (simp add: io_bind_def)

lemma io_bind_lift_Inl [simp]: "io_bind (io_lift (Inl err)) f = ([], Inl err)"
  by (simp add: io_bind_def io_lift_def)

lemma io_bind_lift_Inr [simp]: "io_bind (io_lift (Inr x)) f = f x"
  by (cases "f x") (simp add: io_bind_def io_lift_def)

lemma io_bind_return [simp]: "io_bind (io_return x) f = f x"
  by (cases "f x") (simp add: io_bind_def io_return_def)

lemma route_unknown:
  "name \<notin> set tool_names \<Longrightarrow> route e w name args = ([], Inl (Error (''Unknown tool: '' @ name)))"
  by (auto simp: route_def tool_names_def io_throw_def)

section \<open>The degraded mode of the hero tool\<close>

text \<open>
  C5.  When the provider is not configured, the hero handler answers every valid argument
  structure with the object \<open>{ok: false, suggested_prompt, message}\<close> as a normal return
  value, and issues no external call at all; through the dispatcher the same object is
  the reply once the rate-limit check has passed.
\<close>

theorem hero_degraded_without_credential:
  assumes "\<not> isConfigured (GeminiProvider e)"
    and "generateHeroInputSchema w args = Inr input"
  shows "handleGenerateHero e w args =
           ([], Inr (Obj [(''ok'', Bool False),
                          (''suggested_prompt'', Str (hero_prompt input)),
                          (''message'', Str ''Image provider not configured. Configure GEMINI_API_KEY to generate images.'')])) \<and>
         (checkRateLimit e (clock w) m ''generate_hero'' = Inr m' \<longrightarrow>
            handle_call e w m ''generate_hero'' args = (m', [], hero_degraded (hero_prompt input)))"
  using assms
  by (simp add: handleGenerateHero_def hero_degraded_def io_return_def handle_call_def
      tool_body_def route_def)

lemma hero_args_valid: "generateHeroInputSchema w hero_args = Inr hero_input"
  by (simp add: generateHeroInputSchema_def hero_args_def hero_input_def z_string_def
      z_optional_string_def z_enum_def opt_get_def)

lemma env0_unconfigured: "\<not> isConfigured (GeminiProvider env0)"
  by (simp add: isConfigured_def GeminiProvider_def env0_def env_or_def)

lemma capacity_env0: "RATE_LIMIT_MAX env0 = Some 20"
  by (simp add: RATE_LIMIT_MAX_def env0_def env_or_def parseInt10_def is_space_def digit_val_def)

lemma first_check_passes:
  "RATE_LIMIT_MAX e = Some 20 \<Longrightarrow>
   checkRateLimit e now Map.empty name = Inr (Map.empty(name \<mapsto> [now]))"
  by (simp add: checkRateLimit_def stamps_def num_ge_def)

theorem hero_degraded_without_credential_witness:
  "\<not> isConfigured (GeminiProvider env0) \<and>
   generateHeroInputSchema world0 hero_args = Inr hero_input \<and>
   checkRateLimit env0 (clock world0) Map.empty ''generate_hero''
     = Inr (Map.empty(''generate_hero'' \<mapsto> [1000])) \<and>
   handleGenerateHero env0 world0 hero_args = ([], Inr (hero_degraded (hero_prompt hero_input))) \<and>
   handle_call env0 world0 Map.empty ''generate_hero'' hero_args
     = (Map.empty(''generate_hero'' \<mapsto> [1000]), [], hero_degraded (hero_prompt hero_input))"
proof -
  have rl: "checkRateLimit env0 (clock world0) Map.empty ''generate_hero''
              = Inr (Map.empty(''generate_hero'' \<mapsto> [1000]))"
    using first_check_passes [OF capacity_env0] by (simp add: world0_def)
  show ?thesis
    using hero_degraded_without_credential [OF env0_unconfigured hero_args_valid,
        of world0 Map.empty "Map.empty(''generate_hero'' \<mapsto> [1000])"]
      env0_unconfigured hero_args_valid rl
    by (simp add: hero_degraded_def)
qed

lemma route_simps:
  "route e w ''generate_image'' args = handleGenerateImage e w args"
  "route e w ''generate_icon'' args = handleGenerateIcon e w args"
  "route e w ''generate_hero'' args = handleGenerateHero e w args"
  "route e w ''beautify_screenshot'' args = handleBeautifyScreenshot e w args"
  by (simp_all add: route_def)

lemma invalid_args:
  "generateImageInputSchema w args = Inl err \<Longrightarrow> handleGenerateImage e w args = ([], Inl err)"
  "generateIconInputSchema w args = Inl err \<Longrightarrow> handleGenerateIcon e w args = ([], Inl err)"
  "generateHeroInputSchema w args = Inl err \<Longrightarrow> handleGenerateHero e w args = ([], Inl err)"
  "beautifyScreenshotInputSchema w args = Inl err \<Longrightarrow> handleBeautifyScreenshot e w args = ([], Inl err)"
  by (simp_all add: handleGenerateImage_def handleGenerateIcon_def handleGenerateHero_def
      handleBeautifyScreenshot_def)

section \<open>The dispatch boundary\<close>

text \<open>
  C7.  The request handler returns a reply for every call: its result type holds no
  exception.  Whatever the body of its \<open>try\<close> block throws, at whatever point, becomes
  the reply \<open>{ok: false, error: message}\<close>; what the body returns is passed on unchanged.
  This covers a failed rate-limit check, an unknown tool name, arguments rejected by the
  schema of any of the four tools, a rejected output path, and a provider that is not
  configured.
\<close>

theorem dispatch_converts_every_failure:
  "(\<forall>m' es err. tool_body e w m name args = (m', es, Inl err) \<longrightarrow>
      handle_call e w m name args
        = (m', es, Obj [(''ok'', Bool False), (''error'', Str (message_of err))])) \<and>
   (\<forall>m' es out. tool_body e w m name args = (m', es, Inr out) \<longrightarrow>
      handle_call e w m name args = (m', es, out)) \<and>
   (\<forall>err. checkRateLimit e (clock w) m name = Inl err \<longrightarrow>
      handle_call e w m name args = (m, [], error_output err)) \<and>
   (\<forall>m'. checkRateLimit e (clock w) m name = Inr m' \<and> name \<notin> set tool_names \<longrightarrow>
      handle_call e w m name args = (m', [], error_output (Error (''Unknown tool: '' @ name)))) \<and>
   (\<forall>m' err. checkRateLimit e (clock w) m name = Inr m' \<and>
      (name = ''generate_image'' \<and> generateImageInputSchema w args = Inl err \<or>
       name = ''generate_icon'' \<and> generateIconInputSchema w args = Inl err \<or>
       name = ''generate_hero'' \<and> generateHeroInputSchema w args = Inl err \<or>
       name = ''beautify_screenshot'' \<and> beautifyScreenshotInputSchema w args = Inl err) \<longrightarrow>
      handle_call e w m name args = (m', [], error_output err)) \<and>
   (\<forall>m' input p err. checkRateLimit e (clock w) m name = Inr m' \<and> name = ''generate_image'' \<and>
      generateImageInputSchema w args = Inr input \<and> gi_output_path input = Some p \<and> p \<noteq> [] \<and>
      validateOutputPath e p = Inl err \<longrightarrow>
      handle_call e w m name args = (m', [], error_output err)) \<and>
   (\<forall>m' input. checkRateLimit e (clock w) m name = Inr m' \<and> name = ''generate_icon'' \<and>
      generateIconInputSchema w args = Inr input \<and> \<not> isConfigured (GeminiProvider e) \<longrightarrow>
      handle_call e w m name args
        = (m', [], error_output (Error ''Gemini provider not configured. Set GEMINI_API_KEY in your .env file'')))"
proof -
  have general: "handle_call e w m name args = (m', es, error_output err)"
    if "tool_body e w m name args = (m', es, Inl err)" for m' es err
    using that by (simp add: handle_call_def)
  have passes: "handle_call e w m name args = (m', es, out)"
    if "tool_body e w m name args = (m', es, Inr out)" for m' es out
    using that by (simp add: handle_call_def)
  have limited: "tool_body e w m name args = (m, [], Inl err)"
    if "checkRateLimit e (clock w) m name = Inl err" for err
    using that by (simp add: tool_body_def io_throw_def)
  have unknown: "tool_body e w m name args = (m', [], Inl (Error (''Unknown tool: '' @ name)))"
    if "checkRateLimit e (clock w) m name = Inr m'" "name \<notin> set tool_names" for m'
    using that by (simp add: tool_body_def route_unknown)
  have invalid: "tool_body e w m name args = (m', [], Inl err)"
    if "checkRateLimit e (clock w) m name = Inr m'"
      "name = ''generate_image'' \<and> generateImageInputSchema w args = Inl err \<or>
       name = ''generate_icon'' \<and> generateIconInputSchema w args = Inl err \<or>
       name = ''generate_hero'' \<and> generateHeroInputSchema w args = Inl err \<or>
       name = ''beautify_screenshot'' \<and> beautifyScreenshotInputSchema w args = Inl err" for m' err
  proof -
    have "route e w name args = ([], Inl err)"
      using that(2) route_simps invalid_args by (elim disjE conjE) simp_all
    then show ?thesis using that(1) by (simp add: tool_body_def)
  qed
  have path: "tool_body e w m name args = (m', [], Inl err)"
    if "checkRateLimit e (clock w) m name = Inr m'" "name = ''generate_image''"
      "generateImageInputSchema w args = Inr input" "gi_output_path input = Some p" "p \<noteq> []"
      "validateOutputPath e p = Inl err" for m' input p err
    using that by (simp add: tool_body_def route_simps handleGenerateImage_def)
  have provider: "tool_body e w m name args =
      (m', [], Inl (Error ''Gemini provider not configured. Set GEMINI_API_KEY in your .env file''))"
    if "checkRateLimit e (clock w) m name = Inr m'" "name = ''generate_icon''"
      "generateIconInputSchema w args = Inr input" "\<not> isConfigured (GeminiProvider e)" for m' input
    using that
    by (simp add: tool_body_def route_simps handleGenerateIcon_def generateImage_def io_throw_def)
  show ?thesis
    apply (intro conjI allI impI)
    subgoal for m' es err using general [of m' es err] by (simp add: error_output_def)
    subgoal for m' es out by (rule passes)
    subgoal for err by (rule general) (rule limited)
    subgoal for m' by (elim conjE, rule general, rule unknown) simp_all
    subgoal for m' err by (elim conjE, rule general, rule invalid) simp_all
    subgoal for m' input p err by (elim conjE, rule general, rule path [of m' input p err]) simp_all
    subgoal for m' input by (elim conjE, rule general, rule provider [of m' input]) simp_all
    done
qed

section \<open>Rate limiting precedes routing\<close>

text \<open>
  C10 (counterexample).  The claim has every call record a timestamp and every call with an
  unknown tool name answer \<open>Unknown tool\<close>.  When the unknown name has already used up its
  quota, the check throws first: the reply is the rate-limit error and nothing is
  recorded.
\<close>

theorem unknown_tool_quota_counterexample:
  "''resize_image'' \<notin> set tool_names \<and>
   handle_call env0 (world0 \<lparr> clock := 20000 \<rparr>) busy_map ''resize_image'' Undefined
     = (busy_map, [],
        Obj [(''ok'', Bool False),
             (''error'', Str ''Rate limit exceeded: max 20 requests per minute'')])"
proof -
  have "checkRateLimit env0 20000 busy_map ''resize_image''
          = Inl (Error ''Rate limit exceeded: max 20 requests per minute'')"
    by (simp add: checkRateLimit_def capacity_env0 busy_map_def stamps_def num_ge_def
        RATE_LIMIT_WINDOW_def show_num_def show_nat.simps digit_char_def)
  then show ?thesis
    by (simp add: handle_call_def tool_body_def io_throw_def error_output_def message_of_def
        tool_names_def)
qed

text \<open>
  C10 (amended).  For every call the rate-limit check runs before the tool name is looked
  at.  When it passes it records the timestamp under the supplied name, whatever the
  name; a call with an unknown name then answers \<open>{ok: false, error: 'Unknown tool: name'}\<close>
  and has used one unit of that name's quota.  When the check fails, the reply is the
  rate-limit error and the record is left as it was.
\<close>

theorem rate_check_before_routing:
  "fst (handle_call e w m name args)
     = (case checkRateLimit e (clock w) m name of Inl err \<Rightarrow> m | Inr m' \<Rightarrow> m') \<and>
   (\<forall>m'. checkRateLimit e (clock w) m name = Inr m' \<longrightarrow>
      m' name = Some ([t\<leftarrow>stamps m name. clock w - t < 60000] @ [clock w]) \<and>
      (name \<notin> set tool_names \<longrightarrow>
         handle_call e w m name args
           = (m', [], Obj [(''ok'', Bool False), (''error'', Str (''Unknown tool: '' @ name))]))) \<and>
   (\<forall>err. checkRateLimit e (clock w) m name = Inl err \<longrightarrow>
      handle_call e w m name args
        = (m, [], Obj [(''ok'', Bool False), (''error'', Str (message_of err))]))"
proof -
  have state: "fst (handle_call e w m name args)
     = (case checkRateLimit e (clock w) m name of Inl err \<Rightarrow> m | Inr m' \<Rightarrow> m')"
    by (simp add: handle_call_def tool_body_def io_throw_def split: sum.splits prod.splits)
  have recorded: "m' name = Some ([t\<leftarrow>stamps m name. clock w - t < 60000] @ [clock w])"
    if "checkRateLimit e (clock w) m name = Inr m'" for m'
    using that by (auto simp: checkRateLimit_def RATE_LIMIT_WINDOW_def Let_def split: if_splits)
  have unknown: "handle_call e w m name args
           = (m', [], Obj [(''ok'', Bool False), (''error'', Str (''Unknown tool: '' @ name))])"
    if "checkRateLimit e (clock w) m name = Inr m'" "name \<notin> set tool_names" for m'
    using that
    by (simp add: handle_call_def tool_body_def route_unknown error_output_def message_of_def)
  have limited: "handle_call e w m name args
        = (m, [], Obj [(''ok'', Bool False), (''error'', Str (message_of err))])"
    if "checkRateLimit e (clock w) m name = Inl err" for err
    using that by (simp add: handle_call_def tool_body_def io_throw_def error_output_def)
  show ?thesis using state recorded unknown limited by blast
qed

theorem rate_check_before_routing_witness:
  "checkRateLimit env0 (clock world0) Map.empty ''resize_image''
     = Inr (Map.empty(''resize_image'' \<mapsto> [1000])) \<and>
   ''resize_image'' \<notin> set tool_names \<and>
   handle_call env0 world0 Map.empty ''resize_image'' Undefined
     = (Map.empty(''resize_image'' \<mapsto> [1000]), [],
        Obj [(''ok'', Bool False), (''error'', Str ''Unknown tool: resize_image'')]) \<and>
   checkRateLimit env0 (clock (world0 \<lparr> clock := 20000 \<rparr>)) busy_map ''resize_image''
     = Inl (Error ''Rate limit exceeded: max 20 requests per minute'') \<and>
   handle_call env0 (world0 \<lparr> clock := 20000 \<rparr>) busy_map ''resize_image'' Undefined
     = (busy_map, [],
        Obj [(''ok'', Bool False),
             (''error'', Str ''Rate limit exceeded: max 20 requests per minute'')])"
proof -
  have rl: "checkRateLimit env0 (clock world0) Map.empty ''resize_image''
     = Inr (Map.empty(''resize_image'' \<mapsto> [1000]))"
    using first_check_passes [OF capacity_env0] by (simp add: world0_def)
  have nt: "''resize_image'' \<notin> set tool_names" by (simp add: tool_names_def)
  have full: "checkRateLimit env0 (clock (world0 \<lparr> clock := 20000 \<rparr>)) busy_map ''resize_image''
          = Inl (Error ''Rate limit exceeded: max 20 requests per minute'')"
    by (simp add: checkRateLimit_def capacity_env0 busy_map_def stamps_def num_ge_def
        RATE_LIMIT_WINDOW_def show_num_def show_nat.simps digit_char_def)
  note t1 = rate_check_before_routing [of env0 world0 Map.empty "''resize_image''" Undefined]
  note t2 = rate_check_before_routing [of env0 "world0 \<lparr> clock := 20000 \<rparr>" busy_map
      "''resize_image''" Undefined]
  have a: "handle_call env0 world0 Map.empty ''resize_image'' Undefined
     = (Map.empty(''resize_image'' \<mapsto> [1000]), [],
        Obj [(''ok'', Bool False), (''error'', Str ''Unknown tool: resize_image'')])"
    using t1 rl nt by simp
  have b: "handle_call env0 (world0 \<lparr> clock := 20000 \<rparr>) busy_map ''resize_image'' Undefined
     = (busy_map, [],
        Obj [(''ok'', Bool False),
             (''error'', Str ''Rate limit exceeded: max 20 requests per minute'')])"
    using t2 full by (simp add: message_of_def)
  show ?thesis using rl nt a full b by simp
qed

lemma written_paths_simps [simp]:
  "written_paths [] = []"
  "written_paths (es @ es') = written_paths es @ written_paths es'"
  "written_paths (WriteFile p # es) = p # written_paths es"
  "written_paths (Mkdir d # es) = written_paths es"
  "written_paths (ApiCall u k # es) = written_paths es"
  "written_paths (Download v # es) = written_paths es"
  by (simp_all add: written_paths_def)

lemma writes_within_bind:
  assumes "writes_within e m" and "\<And>x. writes_within e (f x)"
  shows "writes_within e (io_bind m f)"
proof (cases m)
  case (Pair es r)
  show ?thesis
  proof (cases r)
    case (Inl err)
    then show ?thesis using assms(1) Pair by (simp add: writes_within_def)
  next
    case (Inr x)
    obtain es' r' where fx: "f x = (es', r')" by (cases "f x")
    have "\<forall>p\<in>set (written_paths es'). within_outputs e p"
      using assms(2) [of x] fx by (simp add: writes_within_def)
    then show ?thesis using assms(1) Pair Inr fx
      by (auto simp: writes_within_def io_bind_def)
  qed
qed

lemma writes_within_catch:
  assumes "writes_within e m" and "\<And>x. writes_within e (h x)"
  shows "writes_within e (io_catch m h)"
proof (cases m)
  case (Pair es r)
  show ?thesis
  proof (cases r)
    case (Inr x)
    then show ?thesis using assms(1) Pair by (simp add: writes_within_def io_catch_def)
  next
    case (Inl err)
    obtain es' r' where hx: "h err = (es', r')" by (cases "h err")
    have "\<forall>p\<in>set (written_paths es'). within_outputs e p"
      using assms(2) [of err] hx by (simp add: writes_within_def)
    then show ?thesis using assms(1) Pair Inl hx
      by (auto simp: writes_within_def io_catch_def)
  qed
qed

lemma writes_within_pure [simp]:
  "writes_within e (io_return x)" "writes_within e (io_throw err)" "writes_within e (io_lift r)"
  "writes_within e (io_emit (Mkdir d))" "writes_within e (io_emit (ApiCall u k))"
  "writes_within e (io_emit (Download v))"
  by (simp_all add: writes_within_def io_return_def io_throw_def io_lift_def io_emit_def)

lemma direct_child_child_path: "plain_name n \<Longrightarrow> direct_child dir (child_path dir n)"
  by (simp add: direct_child_def entry_name_def child_path_def)

lemma safeJoinOutputs_within:
  assumes "safeJoinOutputs e f = Inr p"
  shows "within_outputs e p"
proof -
  have ne: "OUTPUTS_PATH e \<noteq> []"
    by (rule OUTPUTS_PATH_canonical [of e]) (simp add: abs_path_def)
  show ?thesis
  proof (cases "basename f = [] \<or> basename f = ''.'' \<or> basename f = ''..''")
    case True
    then have "p = OUTPUTS_PATH e"
      using assms by (auto simp: safeJoinOutputs_char [of e f] split: if_splits)
    then show ?thesis by (simp add: within_outputs_def)
  next
    case False
    then have p: "p = child_path (OUTPUTS_PATH e) (basename f)"
      using assms by (auto simp: safeJoinOutputs_char [of e f] split: if_splits)
    have "plain_name (basename f)" using False basename_no_slash by (simp add: plain_name_def)
    then show ?thesis using p ne prefix_child_path direct_child_child_path
      by (simp add: within_outputs_def)
  qed
qed

lemma writeFile_events: "fst (writeFile w p) = [WriteFile p]"
  by (cases "write_result w")
     (simp_all add: writeFile_def io_bind_def io_emit_def io_return_def io_throw_def)

lemma save_steps_within:
  "writes_within e (io_bind (io_lift (safeJoinOutputs e filename)) (writeFile w))"
proof (cases "safeJoinOutputs e filename")
  case (Inl err)
  then show ?thesis by (simp add: writes_within_def)
next
  case (Inr p)
  then have "within_outputs e p" by (rule safeJoinOutputs_within)
  then show ?thesis using Inr by (simp add: writes_within_def writeFile_events)
qed

lemma ensureOutputsDir_within [simp]: "writes_within e (ensureOutputsDir e w k)"
  by (auto simp: ensureOutputsDir_def intro!: writes_within_bind split: option.splits)

lemma writeBase64Image_within: "writes_within e (writeBase64Image e w d filename)"
  unfolding writeBase64Image_def
  by (rule writes_within_bind) (auto simp: save_steps_within split: jsval.splits)

lemma writeImageBuffer_within: "writes_within e (writeImageBuffer e w k filename)"
  unfolding writeImageBuffer_def
  by (rule writes_within_bind) (auto simp: save_steps_within)

lemma downloadImage_within: "writes_within e (downloadImage e w url filename)"
  unfolding downloadImage_def
  by (intro writes_within_bind)
     (auto simp: writeImageBuffer_within split: fetch_outcome.splits sum.splits)

lemma save_image_within: "writes_within e (save_image e w result filename)"
  by (simp add: save_image_def writeBase64Image_within downloadImage_within)

lemma generateImage_within: "writes_within e (generateImage config w options)"
  unfolding generateImage_def Let_def
  by (auto intro!: writes_within_catch writes_within_bind split: fetch_outcome.splits sum.splits)

lemma handlers_within:
  "writes_within e (handleGenerateImage e w args)"
  "writes_within e (handleGenerateIcon e w args)"
  "writes_within e (handleGenerateHero e w args)"
  "writes_within e (handleBeautifyScreenshot e w args)"
  unfolding handleGenerateImage_def handleGenerateIcon_def handleGenerateHero_def
    handleBeautifyScreenshot_def
  by (auto intro!: writes_within_bind writes_within_catch save_image_within generateImage_within
      split: option.splits)

lemma route_within: "writes_within e (route e w name args)"
  by (simp add: route_def handlers_within)

lemma handle_call_events:
  "fst (snd (handle_call e w m name args)) =
     (case checkRateLimit e (clock w) m name of Inl err \<Rightarrow> [] | Inr m' \<Rightarrow> fst (route e w name args))"
  by (simp add: handle_call_def tool_body_def io_throw_def split: sum.splits prod.splits)

lemma basename_append_plain:
  assumes "CHR ''/'' \<notin> set s" and "s \<noteq> []"
  shows "basename (xs @ s) = rev (takeWhile (\<lambda>c. c \<noteq> CHR ''/'') (rev xs)) @ s"
proof -
  have "rev s \<noteq> []" "hd (rev s) \<noteq> CHR ''/''"
    using assms by (auto simp: hd_rev) (metis last_in_set)
  then have d: "dropWhile (\<lambda>c. c = CHR ''/'') (rev s @ rev xs) = rev s @ rev xs"
    by (cases "rev s") auto
  have t: "takeWhile (\<lambda>c. c \<noteq> CHR ''/'') (rev s @ rev xs)
            = rev s @ takeWhile (\<lambda>c. c \<noteq> CHR ''/'') (rev xs)"
    using assms(1) by (intro takeWhile_append2) auto
  show ?thesis by (simp add: basename_def d t)
qed

lemma generated_name_plain:
  assumes "ext \<in> set outputFormatSchema"
  shows "plain_name (basename (generateFilename w tool ext))"
proof -
  let ?front = "tool @ ''_'' @ take 19 (map (\<lambda>c. if c = CHR '':'' \<or> c = CHR ''.'' then CHR ''-'' else c)
                  (iso_time w)) @ ''_'' @ random_hex w"
  have g: "generateFilename w tool ext = ?front @ (CHR ''.'' # ext)"
    by (simp add: generateFilename_def)
  have ext: "ext = ''png'' \<or> ext = ''webp''" using assms by (auto simp: outputFormatSchema_def)
  then have "CHR ''/'' \<notin> set (CHR ''.'' # ext)" "CHR ''.'' # ext \<noteq> []" by auto
  then have b: "basename (generateFilename w tool ext)
      = rev (takeWhile (\<lambda>c. c \<noteq> CHR ''/'') (rev ?front)) @ (CHR ''.'' # ext)"
    unfolding g by (rule basename_append_plain)
  have "CHR ''/'' \<notin> set (basename (generateFilename w tool ext))" by (rule basename_no_slash)
  moreover have "basename (generateFilename w tool ext) \<noteq> []" unfolding b by simp
  moreover have "basename (generateFilename w tool ext) \<noteq> ''.''"
    unfolding b using ext by (auto simp: append_eq_Cons_conv)
  moreover have "basename (generateFilename w tool ext) \<noteq> ''..''"
    unfolding b using ext by (auto simp: append_eq_Cons_conv)
  ultimately show ?thesis by (simp add: plain_name_def)
qed

lemma generated_name_child:
  assumes "ext \<in> set outputFormatSchema"
  shows "safeJoinOutputs e (generateFilename w tool ext)
           = Inr (child_path (OUTPUTS_PATH e) (basename (generateFilename w tool ext)))"
  using generated_name_plain [OF assms, of w tool]
  by (simp add: safeJoinOutputs_char plain_name_def)

lemma written_ensure [simp]: "written_paths (fst (ensureOutputsDir e w k)) = []"
  by (cases "mkdir_result w k")
     (simp_all add: ensureOutputsDir_def io_bind_def io_emit_def io_return_def io_throw_def)

lemma rejected_name_no_write:
  assumes "safeJoinOutputs e filename = Inl err"
  shows "written_paths (fst (save_image e w result filename)) = [] \<and>
         isl (snd (save_image e w result filename))"
proof -
  have tail: "io_bind (io_lift (safeJoinOutputs e filename)) (writeFile w) = ([], Inl err)"
    using assms by simp
  have b64: "written_paths (fst (writeBase64Image e w d filename)) = [] \<and>
             isl (snd (writeBase64Image e w d filename))" for d
    unfolding writeBase64Image_def tail
    by (cases "ensureOutputsDir e w 0"; cases d)
       (auto simp: io_bind_def io_throw_def split: sum.splits dest: arg_cong [where f = "\<lambda>x. written_paths (fst x)"])
  have buf: "written_paths (fst (writeImageBuffer e w 1 filename)) = [] \<and>
             isl (snd (writeImageBuffer e w 1 filename))"
    unfolding writeImageBuffer_def tail
    by (cases "ensureOutputsDir e w 1")
       (auto simp: io_bind_def split: sum.splits dest: arg_cong [where f = "\<lambda>x. written_paths (fst x)"])
  have dl: "written_paths (fst (downloadImage e w u filename)) = [] \<and>
            isl (snd (downloadImage e w u filename))" for u
  proof -
    obtain es r where wb: "writeImageBuffer e w 1 filename = (es, r)"
      by (cases "writeImageBuffer e w 1 filename")
    then have r: "written_paths es = []" "isl r" using buf by simp_all
    obtain es0 r0 where en: "ensureOutputsDir e w 0 = (es0, r0)"
      by (cases "ensureOutputsDir e w 0")
    then have "written_paths es0 = []" using written_ensure [of e w 0] by simp
    then show ?thesis using r wb en
      by (auto simp: downloadImage_def io_bind_def io_emit_def io_throw_def
          split: sum.splits fetch_outcome.splits prod.splits)
  qed
  show ?thesis using b64 dl by (simp add: save_image_def)
qed

lemma rejected_path_no_call:
  assumes "generateImageInputSchema w args = Inr input" and "gi_output_path input = Some p"
    and "p \<noteq> []" and "validateOutputPath e p = Inl err"
  shows "handleGenerateImage e w args = ([], Inl err)"
  using assms by (simp add: handleGenerateImage_def)

lemma env1_paths:
  "process_cwd env1 = ''/app''" "PROJECT_ROOT env1 = ''/app''" "OUTPUTS_PATH env1 = ''/app/outputs''"
  by (simp_all add: env1_def env0_def OUTPUTS_PATH_def PROJECT_ROOT_def OUTPUT_DIR_def env_or_def
      path_resolve_def process_cwd_def)

lemma env1_provider:
  "GeminiProvider env1 = \<lparr> apiKey = ''sk-live-123'',
      baseUrl = ''https://generativelanguage.googleapis.com'', model = ''gemini-2.5-flash-image'' \<rparr>"
  by (simp add: GeminiProvider_def env1_def env0_def env_or_def)

lemma capacity_env1: "RATE_LIMIT_MAX env1 = Some 20"
  by (simp add: RATE_LIMIT_MAX_def env1_def env0_def env_or_def parseInt10_def is_space_def digit_val_def)

lemma banana_args_valid:
  "generateImageInputSchema w (banana_args p) =
     Inr \<lparr> gi_prompt = ''a banana'', gi_style = ''illustration'', gi_size = ''1024x1024'',
           gi_background = ''solid'', gi_output_format = ''png'', gi_output_path = Some p \<rparr>"
  by (simp add: generateImageInputSchema_def banana_args_def promptSchema_def z_string_def
      z_optional_string_def z_enum_def opt_get_def)

lemma inline_reply_parsed:
  "parseResponse nested_only ''1024x1024''
     = Inr \<lparr> data = Str ''aGVsbG8='', format = Base64, width = Num (Some 1024), height = Num (Some 1024) \<rparr>"
  by (simp add: parseResponse_def nested_only_def nested_scan_def get_prop_def opt_get_def
      truthy_def iterate_def parseSize_def js_Number_def digit_val_def)

lemma generateImage_world0:
  "o_size options = ''1024x1024'' \<Longrightarrow>
   generateImage (GeminiProvider env1) world0 options
     = ([api_call1], Inr \<lparr> data = Str ''aGVsbG8='', format = Base64,
                             width = Num (Some 1024), height = Num (Some 1024) \<rparr>)"
  by (simp add: generateImage_def env1_provider isConfigured_def world0_def inline_reply_def
      response_ok_def inline_reply_parsed io_catch_def io_bind_def io_emit_def io_lift_def
      api_call1_def)

lemma outputs_png_call:
  "snd (handle_call env1 world0 Map.empty ''generate_image'' (banana_args ''outputs.png''))
     = ([api_call1, WriteFile ''/app/outputs/outputs.png''], ok_output ''outputs/outputs.png'')"
proof -
  have v: "validateOutputPath env1 ''outputs.png'' = Inr ''/app/outputs.png''"
    by (simp add: validateOutputPath_def env1_paths path_resolve_def)
  have j: "safeJoinOutputs env1 ''outputs.png'' = Inr ''/app/outputs/outputs.png''"
    by (simp add: safeJoinOutputs_def env1_paths path_resolve_def path_join_def
        path_normalize_def basename_def)
  have r: "toRelativePath env1 ''/app/outputs/outputs.png'' = ''outputs/outputs.png''"
    by (simp add: toRelativePath_def env1_paths path_relative_def path_resolve_def)
  have rl: "checkRateLimit env1 (clock world0) Map.empty ''generate_image''
              = Inr (Map.empty(''generate_image'' \<mapsto> [1000]))"
    using first_check_passes [OF capacity_env1] by (simp add: world0_def)
  have s: "save_image env1 world0 \<lparr> data = Str ''aGVsbG8='', format = Base64,
                             width = Num (Some 1024), height = Num (Some 1024) \<rparr> ''outputs.png''
            = ([WriteFile ''/app/outputs/outputs.png''], Inr ''/app/outputs/outputs.png'')"
    by (simp add: save_image_def writeBase64Image_def ensureOutputsDir_def j writeFile_def
        world0_def io_bind_def io_emit_def io_return_def io_lift_def)
  show ?thesis
    by (simp add: handle_call_def tool_body_def rl route_simps handleGenerateImage_def
        banana_args_valid v generateImage_world0 s image_output_def r getMimeType_def
        to_lower_def ok_output_def io_bind_def io_return_def io_lift_def)
qed

lemma nested_path_call:
  "snd (handle_call env1 world0 Map.empty ''generate_image'' (banana_args ''outputs/a/b/c.png''))
     = ([api_call1, WriteFile ''/app/outputs/c.png''], ok_output ''outputs/c.png'')"
proof -
  have v: "validateOutputPath env1 ''outputs/a/b/c.png'' = Inr ''/app/outputs/a/b/c.png''"
    by (simp add: validateOutputPath_def env1_paths path_resolve_def)
  have j: "safeJoinOutputs env1 ''outputs/a/b/c.png'' = Inr ''/app/outputs/c.png''"
    by (simp add: safeJoinOutputs_def env1_paths path_resolve_def path_join_def
        path_normalize_def basename_def)
  have r: "toRelativePath env1 ''/app/outputs/c.png'' = ''outputs/c.png''"
    by (simp add: toRelativePath_def env1_paths path_relative_def path_resolve_def)
  have rl: "checkRateLimit env1 (clock world0) Map.empty ''generate_image''
              = Inr (Map.empty(''generate_image'' \<mapsto> [1000]))"
    using first_check_passes [OF capacity_env1] by (simp add: world0_def)
  have s: "save_image env1 world0 \<lparr> data = Str ''aGVsbG8='', format = Base64,
                             width = Num (Some 1024), height = Num (Some 1024) \<rparr> ''outputs/a/b/c.png''
            = ([WriteFile ''/app/outputs/c.png''], Inr ''/app/outputs/c.png'')"
    by (simp add: save_image_def writeBase64Image_def ensureOutputsDir_def j writeFile_def
        world0_def io_bind_def io_emit_def io_return_def io_lift_def)
  show ?thesis
    by (simp add: handle_call_def tool_body_def rl route_simps handleGenerateImage_def
        banana_args_valid v generateImage_world0 s image_output_def r getMimeType_def
        to_lower_def ok_output_def io_bind_def io_return_def io_lift_def)
qed

lemma bare_name_call:
  "snd (handle_call env1 world0 Map.empty ''generate_image'' (banana_args ''my_image.png''))
     = ([], Obj [(''ok'', Bool False),
                 (''error'', Str ''Invalid output path: must be within outputs directory'')])"
proof -
  have v: "validateOutputPath env1 ''my_image.png''
             = Inl (Error ''Invalid output path: must be within outputs directory'')"
    by (simp add: validateOutputPath_def env1_paths path_resolve_def)
  have rl: "checkRateLimit env1 (clock world0) Map.empty ''generate_image''
              = Inr (Map.empty(''generate_image'' \<mapsto> [1000]))"
    using first_check_passes [OF capacity_env1] by (simp add: world0_def)
  show ?thesis
    by (simp add: handle_call_def tool_body_def rl route_simps handleGenerateImage_def
        banana_args_valid v error_output_def message_of_def)
qed

lemma sibling_path_call:
  "snd (handle_call env1 world0 Map.empty ''generate_image'' (banana_args ''/app/outputs-evil/x.png''))
     = ([api_call1, WriteFile ''/app/outputs/x.png''], ok_output ''outputs/x.png'')"
proof -
  have v: "validateOutputPath env1 ''/app/outputs-evil/x.png'' = Inr ''/app/outputs-evil/x.png''"
    by (simp add: validateOutputPath_def env1_paths path_resolve_def)
  have j: "safeJoinOutputs env1 ''/app/outputs-evil/x.png'' = Inr ''/app/outputs/x.png''"
    by (simp add: safeJoinOutputs_def env1_paths path_resolve_def path_join_def
        path_normalize_def basename_def)
  have r: "toRelativePath env1 ''/app/outputs/x.png'' = ''outputs/x.png''"
    by (simp add: toRelativePath_def env1_paths path_relative_def path_resolve_def)
  have rl: "checkRateLimit env1 (clock world0) Map.empty ''generate_image''
              = Inr (Map.empty(''generate_image'' \<mapsto> [1000]))"
    using first_check_passes [OF capacity_env1] by (simp add: world0_def)
  have s: "save_image env1 world0 \<lparr> data = Str ''aGVsbG8='', format = Base64,
                             width = Num (Some 1024), height = Num (Some 1024) \<rparr>
                        ''/app/outputs-evil/x.png''
            = ([WriteFile ''/app/outputs/x.png''], Inr ''/app/outputs/x.png'')"
    by (simp add: save_image_def writeBase64Image_def ensureOutputsDir_def j writeFile_def
        world0_def io_bind_def io_emit_def io_return_def io_lift_def)
  show ?thesis
    by (simp add: handle_call_def tool_body_def rl route_simps handleGenerateImage_def
        banana_args_valid v generateImage_world0 s image_output_def r getMimeType_def
        to_lower_def ok_output_def io_bind_def io_return_def io_lift_def)
qed

section \<open>Confinement of file writes\<close>

text \<open>
  Whatever the call and whatever the outside world answers, every path the request
  handler hands to the file system for writing has the output directory as a prefix
  and is that directory or the entry of a plain name directly inside it.
\<close>

lemma written_paths_within:
  "\<forall>p\<in>set (written_paths (fst (snd (handle_call e w m name args)))). within_outputs e p"
proof (cases "checkRateLimit e (clock w) m name")
  case (Inl err)
  then show ?thesis unfolding handle_call_events by simp
next
  case (Inr m')
  have "\<forall>p\<in>set (written_paths (fst (route e w name args))). within_outputs e p"
    using route_within [of e w name args] unfolding writes_within_def .
  then show ?thesis unfolding handle_call_events using Inr by simp
qed

text \<open>
  C1 (the code at the failing input).  With the default output directory \<open>/app/outputs\<close>,
  the caller-supplied path \<open>/app/outputs-evil/x.png\<close> names a file of a sibling
  directory: it is outside the output directory.  \<open>validateOutputPath\<close> accepts it,
  because the text of the resolved path begins with the text of the output directory,
  and the request does not fail: the provider is called and the image is written, to
  \<open>outputs/x.png\<close>.  The path \<open>outputs/.\<close> is accepted as well, and for it the path that
  \<open>safeJoinOutputs\<close> returns for writing is the output directory itself, not a file
  below it.
\<close>

theorem outside_path_accepted_and_written:
  "OUTPUTS_PATH env1 = ''/app/outputs'' \<and>
   validateOutputPath env1 ''/app/outputs-evil/x.png'' = Inr ''/app/outputs-evil/x.png'' \<and>
   \<not> prefix ''/app/outputs/'' ''/app/outputs-evil/x.png'' \<and>
   \<not> within_outputs env1 ''/app/outputs-evil/x.png'' \<and>
   snd (handle_call env1 world0 Map.empty ''generate_image'' (banana_args ''/app/outputs-evil/x.png''))
     = ([api_call1, WriteFile ''/app/outputs/x.png''], ok_output ''outputs/x.png'') \<and>
   validateOutputPath env1 ''outputs/.'' = Inr ''/app/outputs'' \<and>
   safeJoinOutputs env1 ''outputs/.'' = Inr ''/app/outputs''"
proof -
  have v: "validateOutputPath env1 ''/app/outputs-evil/x.png'' = Inr ''/app/outputs-evil/x.png''"
    by (simp add: validateOutputPath_def env1_paths path_resolve_def)
  have n: "\<not> within_outputs env1 ''/app/outputs-evil/x.png''"
    by (simp add: within_outputs_def env1_paths direct_child_def entry_name_def child_path_def
        plain_name_def)
  have d: "validateOutputPath env1 ''outputs/.'' = Inr ''/app/outputs''"
    by (simp add: validateOutputPath_def env1_paths path_resolve_def)
  have j: "safeJoinOutputs env1 ''outputs/.'' = Inr ''/app/outputs''"
    by (simp add: safeJoinOutputs_def env1_paths path_resolve_def path_join_def
        path_normalize_def basename_def)
  show ?thesis using v n d j sibling_path_call by (simp add: env1_paths)
qed

section \<open>Caller-supplied output paths\<close>

text \<open>
  C9 (the code at the failing input).  With the default output directory the bare
  filename \<open>outputs.png\<close> resolves to \<open>outputs.png\<close> in the project root, which is not
  within the output directory, yet \<open>validateOutputPath\<close> accepts it, because the text of
  the resolved path begins with the text of the output directory; the image is then
  written to \<open>outputs/outputs.png\<close>.  A bare filename that does not begin that way is
  rejected, and an accepted \<open>outputs/a/b/c.png\<close> is written to \<open>outputs/c.png\<close>, as
  the claim says.
\<close>

theorem bare_name_with_outputs_prefix_accepted:
  "plain_name ''outputs.png'' \<and>
   validateOutputPath env1 ''outputs.png'' = Inr ''/app/outputs.png'' \<and>
   \<not> within_outputs env1 ''/app/outputs.png'' \<and>
   snd (handle_call env1 world0 Map.empty ''generate_image'' (banana_args ''outputs.png''))
     = ([api_call1, WriteFile ''/app/outputs/outputs.png''], ok_output ''outputs/outputs.png'') \<and>
   snd (handle_call env1 world0 Map.empty ''generate_image'' (banana_args ''my_image.png''))
     = ([], Obj [(''ok'', Bool False),
                 (''error'', Str ''Invalid output path: must be within outputs directory'')]) \<and>
   snd (handle_call env1 world0 Map.empty ''generate_image'' (banana_args ''outputs/a/b/c.png''))
     = ([api_call1, WriteFile ''/app/outputs/c.png''], ok_output ''outputs/c.png'')"
proof -
  have v: "validateOutputPath env1 ''outputs.png'' = Inr ''/app/outputs.png''"
    by (simp add: validateOutputPath_def env1_paths path_resolve_def)
  have n: "\<not> within_outputs env1 ''/app/outputs.png''"
    by (simp add: within_outputs_def env1_paths direct_child_def entry_name_def child_path_def)
  show ?thesis
    using v n outputs_png_call bare_name_call nested_path_call by (simp add: plain_name_def)
qed



lemma with_key_paths [simp]:
  "process_cwd (with_key e k) = process_cwd e"
  "PROJECT_ROOT (with_key e k) = PROJECT_ROOT e"
  "OUTPUT_DIR (with_key e k) = OUTPUT_DIR e"
  "OUTPUTS_PATH (with_key e k) = OUTPUTS_PATH e"
  "RATE_LIMIT_MAX (with_key e k) = RATE_LIMIT_MAX e"
  by (simp_all add: with_key_def process_cwd_def PROJECT_ROOT_def OUTPUT_DIR_def OUTPUTS_PATH_def
      RATE_LIMIT_MAX_def)















section \<open>The credential and the error message\<close>




section \<open>The dispatch boundary at concrete calls\<close>

theorem dispatch_converts_every_failure_witness:
  "tool_body env0 world0 Map.empty ''resize_image'' Undefined
     = (Map.empty(''resize_image'' \<mapsto> [1000]), [], Inl (Error ''Unknown tool: resize_image'')) \<and>
   ''resize_image'' \<notin> set tool_names \<and>
   handle_call env0 world0 Map.empty ''resize_image'' Undefined
     = (Map.empty(''resize_image'' \<mapsto> [1000]), [],
        Obj [(''ok'', Bool False), (''error'', Str ''Unknown tool: resize_image'')]) \<and>
   tool_body env0 world0 Map.empty ''generate_hero'' hero_args
     = (Map.empty(''generate_hero'' \<mapsto> [1000]), [], Inr (hero_degraded (hero_prompt hero_input))) \<and>
   handle_call env0 world0 Map.empty ''generate_hero'' hero_args
     = (Map.empty(''generate_hero'' \<mapsto> [1000]), [], hero_degraded (hero_prompt hero_input)) \<and>
   checkRateLimit env0 (clock (world0 \<lparr> clock := 20000 \<rparr>)) busy_map ''resize_image''
     = Inl (Error ''Rate limit exceeded: max 20 requests per minute'') \<and>
   handle_call env0 (world0 \<lparr> clock := 20000 \<rparr>) busy_map ''resize_image'' Undefined
     = (busy_map, [], error_output (Error ''Rate limit exceeded: max 20 requests per minute'')) \<and>
   generateIconInputSchema world0 Undefined = Inl (Error ''Invalid input'') \<and>
   handle_call env0 world0 Map.empty ''generate_icon'' Undefined
     = (Map.empty(''generate_icon'' \<mapsto> [1000]), [],
        Obj [(''ok'', Bool False), (''error'', Str ''Invalid input'')]) \<and>
   validateOutputPath env1 ''my_image.png''
     = Inl (Error ''Invalid output path: must be within outputs directory'') \<and>
   handle_call env1 world0 Map.empty ''generate_image'' (banana_args ''my_image.png'')
     = (Map.empty(''generate_image'' \<mapsto> [1000]), [],
        error_output (Error ''Invalid output path: must be within outputs directory'')) \<and>
   \<not> isConfigured (GeminiProvider env0) \<and>
   handle_call env0 world0 Map.empty ''generate_icon'' rocket_args
     = (Map.empty(''generate_icon'' \<mapsto> [1000]), [],
        error_output (Error ''Gemini provider not configured. Set GEMINI_API_KEY in your .env file''))"
proof -
  have rl0: "checkRateLimit env0 (clock world0) Map.empty name = Inr (Map.empty(name \<mapsto> [1000]))"
    for name
    using first_check_passes [OF capacity_env0] by (simp add: world0_def)
  have rl1: "checkRateLimit env1 (clock world0) Map.empty name = Inr (Map.empty(name \<mapsto> [1000]))"
    for name
    using first_check_passes [OF capacity_env1] by (simp add: world0_def)
  have nt: "''resize_image'' \<notin> set tool_names" by (simp add: tool_names_def)
  have tb: "tool_body env0 world0 Map.empty ''resize_image'' Undefined
     = (Map.empty(''resize_image'' \<mapsto> [1000]), [], Inl (Error ''Unknown tool: resize_image''))"
    using rl0 [of "''resize_image''"] nt by (simp add: tool_body_def route_unknown)
  have th: "tool_body env0 world0 Map.empty ''generate_hero'' hero_args
     = (Map.empty(''generate_hero'' \<mapsto> [1000]), [], Inr (hero_degraded (hero_prompt hero_input)))"
    using rl0 [of "''generate_hero''"] env0_unconfigured
    by (simp add: tool_body_def route_simps handleGenerateHero_def hero_args_valid io_return_def)
  have full: "checkRateLimit env0 (clock (world0 \<lparr> clock := 20000 \<rparr>)) busy_map ''resize_image''
          = Inl (Error ''Rate limit exceeded: max 20 requests per minute'')"
    by (simp add: checkRateLimit_def capacity_env0 busy_map_def stamps_def num_ge_def
        RATE_LIMIT_WINDOW_def show_num_def show_nat.simps digit_char_def)
  have bad: "generateIconInputSchema world0 Undefined = Inl (Error ''Invalid input'')"
    by (simp add: generateIconInputSchema_def not_an_object_def world0_def)
  have v: "validateOutputPath env1 ''my_image.png''
             = Inl (Error ''Invalid output path: must be within outputs directory'')"
    by (simp add: validateOutputPath_def env1_paths path_resolve_def)
  have icon: "generateIconInputSchema world0 rocket_args
      = Inr \<lparr> ic_concept = ''a rocket'', ic_theme = ''minimal'', ic_size = ''512x512'',
              ic_output_format = ''png'' \<rparr>"
    by (simp add: generateIconInputSchema_def rocket_args_def promptSchema_def z_string_def
        z_enum_def opt_get_def)
  note t1 = dispatch_converts_every_failure [of env0 world0 Map.empty "''resize_image''" Undefined]
  note t2 = dispatch_converts_every_failure [of env0 world0 Map.empty "''generate_hero''" hero_args]
  note t3 = dispatch_converts_every_failure [of env0 "world0 \<lparr> clock := 20000 \<rparr>" busy_map
      "''resize_image''" Undefined]
  note t4 = dispatch_converts_every_failure [of env0 world0 Map.empty "''generate_icon''" Undefined]
  note t5 = dispatch_converts_every_failure [of env1 world0 Map.empty "''generate_image''"
      "banana_args ''my_image.png''"]
  note t6 = dispatch_converts_every_failure [of env0 world0 Map.empty "''generate_icon''" rocket_args]
  have a1: "handle_call env0 world0 Map.empty ''resize_image'' Undefined
     = (Map.empty(''resize_image'' \<mapsto> [1000]), [],
        Obj [(''ok'', Bool False), (''error'', Str ''Unknown tool: resize_image'')])"
    using t1 [THEN conjunct1] tb by (simp add: message_of_def)
  have a2: "handle_call env0 world0 Map.empty ''generate_hero'' hero_args
     = (Map.empty(''generate_hero'' \<mapsto> [1000]), [], hero_degraded (hero_prompt hero_input))"
    using t2 [THEN conjunct2, THEN conjunct1] th by simp
  have a3: "handle_call env0 (world0 \<lparr> clock := 20000 \<rparr>) busy_map ''resize_image'' Undefined
     = (busy_map, [], error_output (Error ''Rate limit exceeded: max 20 requests per minute''))"
    using t3 [THEN conjunct2, THEN conjunct2, THEN conjunct1] full by simp
  have a4: "handle_call env0 world0 Map.empty ''generate_icon'' Undefined
     = (Map.empty(''generate_icon'' \<mapsto> [1000]), [],
        Obj [(''ok'', Bool False), (''error'', Str ''Invalid input'')])"
    using t4 [THEN conjunct2, THEN conjunct2, THEN conjunct2, THEN conjunct2, THEN conjunct1]
      rl0 [of "''generate_icon''"] bad
    by (simp add: error_output_def message_of_def)
  have a5: "handle_call env1 world0 Map.empty ''generate_image'' (banana_args ''my_image.png'')
     = (Map.empty(''generate_image'' \<mapsto> [1000]), [],
        error_output (Error ''Invalid output path: must be within outputs directory''))"
    using t5 [THEN conjunct2, THEN conjunct2, THEN conjunct2, THEN conjunct2, THEN conjunct2,
        THEN conjunct1] rl1 [of "''generate_image''"] banana_args_valid [of world0 "''my_image.png''"] v
    by simp
  have a6: "handle_call env0 world0 Map.empty ''generate_icon'' rocket_args
     = (Map.empty(''generate_icon'' \<mapsto> [1000]), [],
        error_output (Error ''Gemini provider not configured. Set GEMINI_API_KEY in your .env file''))"
    using t6 [THEN conjunct2, THEN conjunct2, THEN conjunct2, THEN conjunct2, THEN conjunct2,
        THEN conjunct2] rl0 [of "''generate_icon''"] icon env0_unconfigured
    by simp
  show ?thesis using tb nt a1 th a2 full a3 bad a4 v a5 env0_unconfigured a6 by simp
qed

end
